theory Spec2Isabelle
  imports Complex_Main
begin

section \<open>Values, errors and arrays\<close>

text \<open>
  The program under study is \<^verbatim>\<open>adjust_restart_for_new_land_cover.py\<close>: it remaps the
  per-tile and per-cell fields of a land-surface restart onto a new vegetation map.

  Every Python exception the remapping can raise is a value of \<open>error\<close>; a computation
  that may raise returns \<open>error + 'a\<close>, with \<open>Inl\<close> for the exception.
\<close>

datatype error =
  NameError | KeyError | IndexError | ValueError | MaskError | ZeroDivisionError | TypeError

definition bindE :: "error + 'a \<Rightarrow> ('a \<Rightarrow> error + 'b) \<Rightarrow> error + 'b" where
  "bindE m f = (case m of Inl e \<Rightarrow> Inl e | Inr x \<Rightarrow> f x)"

text \<open>
  A floating-point cell is either not-a-number or a finite value. Finite values are
  idealised as reals: rounding, overflow and infinities are outside the model; what is
  kept is the behaviour of NaN, which every comparison rejects and every arithmetic
  operation propagates.
\<close>

datatype flt = NaN | Fin real

instantiation flt :: comm_monoid_add
begin

definition zero_flt :: flt where
  "zero_flt = Fin 0"

fun plus_flt :: "flt \<Rightarrow> flt \<Rightarrow> flt" where
  "plus_flt (Fin a) (Fin b) = Fin (a + b)"
| "plus_flt _ _ = NaN"

instance
proof
  fix x y z :: flt
  show "x + y + z = x + (y + z)"
    by (cases x; cases y; cases z; simp)
  show "x + y = y + x"
    by (cases x; cases y; simp)
  show "0 + x = x"
    by (cases x; simp add: zero_flt_def)
qed

end

fun fmul :: "flt \<Rightarrow> flt \<Rightarrow> flt" where
  "fmul (Fin a) (Fin b) = Fin (a * b)"
| "fmul _ _ = NaN"

fun isnan :: "flt \<Rightarrow> bool" where
  "isnan NaN = True"
| "isnan (Fin _) = False"

text \<open>\<^verbatim>\<open>x <= 0.0\<close> and \<^verbatim>\<open>x > 0.0\<close>: both are false on NaN.\<close>

fun le0 :: "flt \<Rightarrow> bool" where
  "le0 NaN = False"
| "le0 (Fin r) = (r \<le> 0)"

fun gt0 :: "flt \<Rightarrow> bool" where
  "gt0 NaN = False"
| "gt0 (Fin r) = (0 < r)"

text \<open>
  A numpy array is its shape together with its elements; only elements inside the shape
  are ever read. \<open>ndarray3\<close> is indexed (veg, lat, lon), \<open>ndarray2\<close> (lat, lon).
\<close>

record 'a ndarray3 =
  n0 :: nat
  n1 :: nat
  n2 :: nat
  el3 :: "nat \<Rightarrow> nat \<Rightarrow> nat \<Rightarrow> 'a"

record 'a ndarray2 =
  m0 :: nat
  m1 :: nat
  el2 :: "nat \<Rightarrow> nat \<Rightarrow> 'a"

definition shape3 :: "'a ndarray3 \<Rightarrow> nat \<times> nat \<times> nat" where
  "shape3 a = (n0 a, n1 a, n2 a)"

definition shape2 :: "'a ndarray2 \<Rightarrow> nat \<times> nat" where
  "shape2 a = (m0 a, m1 a)"

text \<open>The index tuples of an array in C order, as \<^verbatim>\<open>ndenumerate\<close> and \<^verbatim>\<open>sum\<close> walk them.\<close>

definition indices2 :: "'a ndarray2 \<Rightarrow> (nat \<times> nat) list" where
  "indices2 a = List.product [0..<m0 a] [0..<m1 a]"

definition indices3 :: "'a ndarray3 \<Rightarrow> (nat \<times> nat \<times> nat) list" where
  "indices3 a = List.product [0..<n0 a] (List.product [0..<n1 a] [0..<n2 a])"

text \<open>\<^verbatim>\<open>numpy.array\<close> of a nested list, for writing arrays down.\<close>

definition array2 :: "'a list list \<Rightarrow> 'a ndarray2" where
  "array2 rows =
     \<lparr>m0 = length rows, m1 = (case rows of [] \<Rightarrow> 0 | r # _ \<Rightarrow> length r),
      el2 = (\<lambda>i j. rows ! i ! j)\<rparr>"

definition array3 :: "'a list list list \<Rightarrow> 'a ndarray3" where
  "array3 planes =
     \<lparr>n0 = length planes,
      n1 = (case planes of [] \<Rightarrow> 0 | p # _ \<Rightarrow> length p),
      n2 = (case planes of [] \<Rightarrow> 0 | p # _ \<Rightarrow> (case p of [] \<Rightarrow> 0 | r # _ \<Rightarrow> length r)),
      el3 = (\<lambda>i j k. planes ! i ! j ! k)\<rparr>"

definition full2 :: "nat \<Rightarrow> nat \<Rightarrow> 'a \<Rightarrow> 'a ndarray2" where
  "full2 r c x = \<lparr>m0 = r, m1 = c, el2 = (\<lambda>_ _. x)\<rparr>"

definition map2 :: "('a \<Rightarrow> 'b) \<Rightarrow> 'a ndarray2 \<Rightarrow> 'b ndarray2" where
  "map2 f a = \<lparr>m0 = m0 a, m1 = m1 a, el2 = (\<lambda>i j. f (el2 a i j))\<rparr>"

definition map3 :: "('a \<Rightarrow> 'b) \<Rightarrow> 'a ndarray3 \<Rightarrow> 'b ndarray3" where
  "map3 f a = \<lparr>n0 = n0 a, n1 = n1 a, n2 = n2 a, el3 = (\<lambda>i j k. f (el3 a i j k))\<rparr>"

text \<open>
  numpy broadcasting of two extents: equal extents agree, an extent of 1 stretches to
  the other, anything else is a \<^verbatim>\<open>ValueError\<close>. \<open>bidx\<close> is the index into an operand
  of extent \<open>a\<close> for the position \<open>i\<close> of the broadcast result.
\<close>

definition bdim :: "nat \<Rightarrow> nat \<Rightarrow> error + nat" where
  "bdim a b = (if a = b then Inr a else if a = 1 then Inr b
               else if b = 1 then Inr a else Inl ValueError)"

definition bidx :: "nat \<Rightarrow> nat \<Rightarrow> nat" where
  "bidx a i = (if a = 1 then 0 else i)"

definition zip2 :: "('a \<Rightarrow> 'b \<Rightarrow> 'c) \<Rightarrow> 'a ndarray2 \<Rightarrow> 'b ndarray2 \<Rightarrow> error + 'c ndarray2" where
  "zip2 f a b =
     bindE (bdim (m0 a) (m0 b)) (\<lambda>r.
     bindE (bdim (m1 a) (m1 b)) (\<lambda>c.
       Inr \<lparr>m0 = r, m1 = c,
            el2 = (\<lambda>i j. f (el2 a (bidx (m0 a) i) (bidx (m1 a) j))
                            (el2 b (bidx (m0 b) i) (bidx (m1 b) j)))\<rparr>))"

definition zip3 :: "('a \<Rightarrow> 'b \<Rightarrow> 'c) \<Rightarrow> 'a ndarray3 \<Rightarrow> 'b ndarray3 \<Rightarrow> error + 'c ndarray3" where
  "zip3 f a b =
     bindE (bdim (n0 a) (n0 b)) (\<lambda>p.
     bindE (bdim (n1 a) (n1 b)) (\<lambda>r.
     bindE (bdim (n2 a) (n2 b)) (\<lambda>c.
       Inr \<lparr>n0 = p, n1 = r, n2 = c,
            el3 = (\<lambda>i j k. f (el3 a (bidx (n0 a) i) (bidx (n1 a) j) (bidx (n2 a) k))
                              (el3 b (bidx (n0 b) i) (bidx (n1 b) j) (bidx (n2 b) k)))\<rparr>)))"

text \<open>
  A Python integer index into an axis of extent \<open>n\<close>: negative indices count from the
  end, anything outside \<open>[-n, n)\<close> raises \<^verbatim>\<open>IndexError\<close>.
\<close>

definition py_index :: "nat \<Rightarrow> int \<Rightarrow> error + nat" where
  "py_index n i =
     (if 0 \<le> i \<and> i < int n then Inr (nat i)
      else if - int n \<le> i \<and> i < 0 then Inr (nat (int n + i))
      else Inl IndexError)"

text \<open>\<^verbatim>\<open>a[v, :, :]\<close>: one (lat, lon) plane of a 3D array.\<close>

definition plane :: "'a ndarray3 \<Rightarrow> int \<Rightarrow> error + 'a ndarray2" where
  "plane a v =
     bindE (py_index (n0 a) v) (\<lambda>i. Inr \<lparr>m0 = n1 a, m1 = n2 a, el2 = el3 a i\<rparr>)"

section \<open>Search masks\<close>

text \<open>\<^verbatim>\<open>SearchMask[Lat, Lon] = True\<close> and \<^verbatim>\<open>SearchMask[Lat, :] = True\<close>, in place.\<close>

definition set_cell :: "bool ndarray2 \<Rightarrow> int \<Rightarrow> int \<Rightarrow> error + bool ndarray2" where
  "set_cell SearchMask Lat Lon =
     bindE (py_index (m0 SearchMask) Lat) (\<lambda>i.
     bindE (py_index (m1 SearchMask) Lon) (\<lambda>j.
       Inr (SearchMask\<lparr>el2 := (\<lambda>a b. (a = i \<and> b = j) \<or> el2 SearchMask a b)\<rparr>)))"

definition set_row :: "bool ndarray2 \<Rightarrow> int \<Rightarrow> error + bool ndarray2" where
  "set_row SearchMask Lat =
     bindE (py_index (m0 SearchMask) Lat) (\<lambda>i.
       Inr (SearchMask\<lparr>el2 := (\<lambda>a b. a = i \<or> el2 SearchMask a b)\<rparr>))"

fun set_cells :: "bool ndarray2 \<Rightarrow> (int \<times> int) list \<Rightarrow> error + bool ndarray2" where
  "set_cells SearchMask [] = Inr SearchMask"
| "set_cells SearchMask ((Lat, Lon) # rest) =
     bindE (set_cell SearchMask Lat Lon) (\<lambda>SearchMask'. set_cells SearchMask' rest)"

fun set_rows :: "bool ndarray2 \<Rightarrow> int list \<Rightarrow> error + bool ndarray2" where
  "set_rows SearchMask [] = Inr SearchMask"
| "set_rows SearchMask (Lat # rest) =
     bindE (set_row SearchMask Lat) (\<lambda>SearchMask'. set_rows SearchMask' rest)"

text \<open>\<^verbatim>\<open>numpy.clip(x, lo, hi)\<close> is \<open>minimum(maximum(x, lo), hi)\<close>; \<^verbatim>\<open>numpy.mod\<close> takes the
  sign of the divisor and yields 0 for a zero divisor.\<close>

definition np_clip :: "int \<Rightarrow> int \<Rightarrow> int \<Rightarrow> int" where
  "np_clip x lo hi = min (max x lo) hi"

definition np_mod :: "int \<Rightarrow> int \<Rightarrow> int" where
  "np_mod x n = (if n = 0 then 0 else x mod n)"

text \<open>
  The four search methods share one signature: the mask (modified in place, here
  returned), the stage's parameter (\<open>None\<close> for the cell and global stages) and the
  coordinate \<open>(Lon, Lat)\<close>.
\<close>

type_synonym search_method = "bool ndarray2 \<Rightarrow> int option \<Rightarrow> int \<times> int \<Rightarrow> error + bool ndarray2"

fun modify_mask_for_cell :: search_method where
  "modify_mask_for_cell SearchMask GridCell (Lon, Lat) = set_cell SearchMask Lat Lon"

fun modify_mask_for_nearest :: search_method where
  "modify_mask_for_nearest SearchMask None (Lon, Lat) = Inl TypeError"
| "modify_mask_for_nearest SearchMask (Some SearchRadius) (Lon, Lat) =
     (let nLat = int (m0 SearchMask); nLon = int (m1 SearchMask);
          SearchInds = upto (- SearchRadius) SearchRadius;
          LatInds = map (\<lambda>d. np_clip (Lat + d) 0 (nLat - 1)) SearchInds;
          LonInds = map (\<lambda>d. np_mod (Lon + d) nLon) SearchInds
      in set_cells SearchMask (List.product LatInds LonInds))"

fun modify_mask_for_latitude_band :: search_method where
  "modify_mask_for_latitude_band SearchMask None (Lon, Lat) = Inl TypeError"
| "modify_mask_for_latitude_band SearchMask (Some LatitudeBand) (Lon, Lat) =
     (let nLat = int (m0 SearchMask);
          SearchInds = upto (- LatitudeBand) LatitudeBand;
          LatInds = map (\<lambda>d. np_clip (Lat + d) 0 (nLat - 1)) SearchInds
      in set_rows SearchMask LatInds)"

definition modify_mask_for_global :: search_method where
  "modify_mask_for_global SearchMask Global Coord =
     Inr (SearchMask\<lparr>el2 := (\<lambda>_ _. True)\<rparr>)"

section \<open>Active tiles\<close>

text \<open>
  One iteration of the loop of \<^verbatim>\<open>find_active_tiles\<close>:
  \<^verbatim>\<open>~numpy.isnan(InputVegetation[VegType, :, :]) & SearchMask & (InputVegetation[VegType, :, :] > 0.0)\<close>.
\<close>

definition TileSearchMap :: "bool ndarray2 \<Rightarrow> flt ndarray3 \<Rightarrow> int \<Rightarrow> error + bool ndarray2" where
  "TileSearchMap SearchMask InputVegetation VegType =
     bindE (plane InputVegetation VegType) (\<lambda>p.
     bindE (zip2 (\<and>) (map2 (\<lambda>x. \<not> isnan x) p) SearchMask) (\<lambda>t.
       zip2 (\<and>) t (map2 gt0 p)))"

fun find_active_tiles ::
  "bool ndarray2 \<Rightarrow> flt ndarray3 \<Rightarrow> int list \<Rightarrow> error + bool ndarray2 list" where
  "find_active_tiles SearchMask InputVegetation [] = Inr []"
| "find_active_tiles SearchMask InputVegetation (VegType # rest) =
     bindE (TileSearchMap SearchMask InputVegetation VegType) (\<lambda>t.
     bindE (find_active_tiles SearchMask InputVegetation rest) (\<lambda>ts. Inr (t # ts)))"

text \<open>\<^verbatim>\<open>ActiveTileMask.sum()\<close> counts the true cells; \<open>PointsFound\<close> adds the counts up.\<close>

definition count_true :: "bool ndarray2 \<Rightarrow> int" where
  "count_true m = int (length (filter (\<lambda>(i, j). el2 m i j) (indices2 m)))"

definition points_found :: "bool ndarray2 list \<Rightarrow> int" where
  "points_found ActiveTileMasks = sum_list (map count_true ActiveTileMasks)"

section \<open>Configuration\<close>

text \<open>
  The configuration file as \<^verbatim>\<open>yaml.safe_load\<close> returns it: the two variable lists, and
  the optional vegetation map (output type to input types, 1-based) and search
  parameters. \<open>mapping_conf\<close> is the dictionary \<^verbatim>\<open>prepare_mapping\<close> hands back, with the
  vegetation map 0-based and every search parameter present.
\<close>

record raw_config =
  cfg_per_cell :: "string list"
  cfg_per_tile :: "string list"
  cfg_vegetation_map :: "(int \<times> int list) list option"
  cfg_search_radius :: "int option"
  cfg_latitude_band :: "int option"
  cfg_minimum_points :: "int option"

record mapping_conf =
  per_cell :: "string list"
  per_tile :: "string list"
  vegetation_map :: "int \<Rightarrow> int list option"
  search_radius :: int
  latitude_band :: int
  minimum_points :: int

fun apply_mappings ::
  "(int \<times> int list) list \<Rightarrow> (int \<Rightarrow> int list option) \<Rightarrow> (int \<Rightarrow> int list option)" where
  "apply_mappings [] VegetationMapping = VegetationMapping"
| "apply_mappings ((OutVegType, InVegTypes) # rest) VegetationMapping =
     apply_mappings rest
       (VegetationMapping(OutVegType - 1 \<mapsto> map (\<lambda>InVeg. InVeg - 1) InVegTypes))"

definition prepare_mapping :: "nat \<Rightarrow> raw_config \<Rightarrow> mapping_conf" where
  "prepare_mapping nVeg MappingConf =
     (let VegetationMapping = (\<lambda>i. if 0 \<le> i \<and> i < int nVeg then Some [i] else None);
          VegetationMapping' =
            (case cfg_vegetation_map MappingConf of None \<Rightarrow> VegetationMapping
             | Some m \<Rightarrow> apply_mappings m VegetationMapping)
      in \<lparr>per_cell = cfg_per_cell MappingConf,
          per_tile = cfg_per_tile MappingConf,
          vegetation_map = VegetationMapping',
          search_radius = (case cfg_search_radius MappingConf of None \<Rightarrow> 2 | Some r \<Rightarrow> r),
          latitude_band = (case cfg_latitude_band MappingConf of None \<Rightarrow> 8 | Some b \<Rightarrow> b),
          minimum_points = (case cfg_minimum_points MappingConf of None \<Rightarrow> 1 | Some n \<Rightarrow> n)\<rparr>)"

section \<open>Datasets\<close>

text \<open>
  The input dataset maps a variable name to its array. The output dataset carries the
  three coordinates set up from the output vegetation and the variables assigned so far.

  \<^verbatim>\<open>InputDataset[Variable].to_numpy()\<close> hands out the input dataset's own array, not a
  copy of it, and \<^verbatim>\<open>OutDataset[Variable] = (('veg', 'lat', 'lon'), OutData)\<close> stores that
  very array. From then on the input's variable and the output's are one array: what
  lines 267, 268 and 276 write into \<open>OutData\<close>, and what lines 333 and 351 write at a
  point, is what a later \<^verbatim>\<open>InputDataset[Variable]\<close> reads. The field \<open>views\<close> holds the
  names of the output variables that are the input's array. For such a name the array
  held by the output dataset is the present content of the input's variable, and
  \<open>to_numpy\<close> reads it there; the argument \<open>InputDataset\<close> stays the content the input
  had at the call.
\<close>

type_synonym dataset = "string \<Rightarrow> flt ndarray3 option"

record out_dataset =
  coord_lon :: "real list"
  coord_lat :: "real list"
  coord_veg :: "int list"
  data_vars :: dataset
  views :: "string set"

definition getitem :: "dataset \<Rightarrow> string \<Rightarrow> error + flt ndarray3" where
  "getitem ds name = (case ds name of None \<Rightarrow> Inl KeyError | Some a \<Rightarrow> Inr a)"

text \<open>\<^verbatim>\<open>InputDataset[Variable].to_numpy()\<close>, a \<^verbatim>\<open>KeyError\<close> for a name the input lacks.\<close>

definition to_numpy :: "dataset \<Rightarrow> out_dataset \<Rightarrow> string \<Rightarrow> error + flt ndarray3" where
  "to_numpy InputDataset OutDataset Variable =
     (case InputDataset Variable of None \<Rightarrow> Inl KeyError
      | Some a \<Rightarrow>
          Inr (if Variable \<in> views OutDataset
               then (case data_vars OutDataset Variable of None \<Rightarrow> a | Some b \<Rightarrow> b)
               else a))"

text \<open>\<^verbatim>\<open>numpy.linspace(start, stop, num, endpoint)\<close>.\<close>

definition linspace :: "real \<Rightarrow> real \<Rightarrow> nat \<Rightarrow> bool \<Rightarrow> real list" where
  "linspace start stop num endpoint =
     (let d = (if endpoint then num - 1 else num)
      in map (\<lambda>i. if d = 0 then start else start + real i * (stop - start) / real d) [0..<num])"

definition setup_output_dataset :: "flt ndarray3 \<Rightarrow> dataset \<Rightarrow> string list \<Rightarrow> out_dataset" where
  "setup_output_dataset OutputVegetation InputDataset VariableList =
     (let nOutputVeg = n0 OutputVegetation; nLat = n1 OutputVegetation;
          nLon = n2 OutputVegetation
      in \<lparr>coord_lon = linspace 0 360 nLon False,
          coord_lat = linspace (- 90) 90 nLat True,
          coord_veg = map (\<lambda>i. int i + 1) [0..<nOutputVeg],
          data_vars = (\<lambda>_. None), views = {}\<rparr>)"

text \<open>
  \<^verbatim>\<open>OutDataset[name] = (('veg', 'lat', 'lon'), data)\<close>: xarray refuses an array whose
  extents differ from the coordinates'. \<open>shared\<close> tells whether \<open>data\<close> is the array of
  the input's variable of that name.
\<close>

definition setvar ::
  "out_dataset \<Rightarrow> string \<Rightarrow> flt ndarray3 \<Rightarrow> bool \<Rightarrow> error + out_dataset" where
  "setvar ds name a shared =
     (if shape3 a = (length (coord_veg ds), length (coord_lat ds), length (coord_lon ds))
      then Inr (ds\<lparr>data_vars := (data_vars ds)(name \<mapsto> a),
                   views := (if shared then insert name (views ds) else views ds - {name})\<rparr>)
      else Inl ValueError)"

text \<open>
  \<^verbatim>\<open>OutDataset[name][OutVeg, Lat, Lon] = x\<close>, written into the array the output dataset
  holds under that name, which for a name in \<open>views\<close> is the input's.
\<close>

definition setpoint ::
  "out_dataset \<Rightarrow> string \<Rightarrow> nat \<times> nat \<times> nat \<Rightarrow> flt \<Rightarrow> error + out_dataset" where
  "setpoint ds name idx x =
     (case idx of (OutVeg, Lat, Lon) \<Rightarrow>
        bindE (getitem (data_vars ds) name) (\<lambda>a.
          if OutVeg < n0 a \<and> Lat < n1 a \<and> Lon < n2 a
          then Inr (ds\<lparr>data_vars := (data_vars ds)(name \<mapsto>
                 a\<lparr>el3 := (\<lambda>i j k. if i = OutVeg \<and> j = Lat \<and> k = Lon then x
                                     else el3 a i j k)\<rparr>)\<rparr>)
          else Inl IndexError))"

text \<open>
  Lines 213 to 216 of \<^verbatim>\<open>remap_vegetation\<close>: both fraction variables are assigned from
  the name \<^verbatim>\<open>NewVegetation\<close>, which the function neither takes nor binds; Python looks
  it up among the module's globals. The argument here is that global's binding, \<open>None\<close>
  when the name is unbound.
\<close>

definition add_land_fractions :: "flt ndarray3 option \<Rightarrow> out_dataset \<Rightarrow> error + out_dataset" where
  "add_land_fractions global_NewVegetation OutDataset =
     (case global_NewVegetation of None \<Rightarrow> Inl NameError
      | Some NewVegetation \<Rightarrow>
          bindE (setvar OutDataset ''FRACTIONS OF SURFACE TYPES'' NewVegetation False) (\<lambda>ds.
            setvar ds ''PREVIOUS YEAR SURF FRACTIONS (TILES)'' NewVegetation False))"

section \<open>Fill policy\<close>

text \<open>Lines 222 to 241: which tiles to fill and which to empty.\<close>

definition tiles_to_fill_and_empty ::
  "bool \<Rightarrow> flt ndarray3 \<Rightarrow> flt ndarray3 \<Rightarrow> error + bool ndarray3 \<times> bool ndarray3" where
  "tiles_to_fill_and_empty FillAll InputVegetation OutputVegetation =
     (if FillAll
      then Inr (map3 le0 InputVegetation, map3 (\<lambda>_. False) InputVegetation)
      else bindE (zip3 (\<and>) (map3 le0 InputVegetation) (map3 gt0 OutputVegetation))
             (\<lambda>TilesToFill. Inr (TilesToFill, map3 le0 OutputVegetation)))"

text \<open>
  Boolean-mask indexing needs the mask's shape to equal the array's.
  \<open>assign_where a mask b\<close> is \<^verbatim>\<open>a[mask] = b[mask]\<close>, \<open>fill_where a mask c\<close> is
  \<^verbatim>\<open>a[mask] = c\<close>.
\<close>

definition assign_where ::
  "'a ndarray3 \<Rightarrow> bool ndarray3 \<Rightarrow> 'a ndarray3 \<Rightarrow> error + 'a ndarray3" where
  "assign_where a msk b =
     (if shape3 b \<noteq> shape3 msk then Inl IndexError
      else if shape3 a \<noteq> shape3 msk then Inl IndexError
      else Inr (a\<lparr>el3 := (\<lambda>i j k. if el3 msk i j k then el3 b i j k else el3 a i j k)\<rparr>))"

definition fill_where :: "'a ndarray3 \<Rightarrow> bool ndarray3 \<Rightarrow> 'a \<Rightarrow> error + 'a ndarray3" where
  "fill_where a msk c =
     (if shape3 a \<noteq> shape3 msk then Inl IndexError
      else Inr (a\<lparr>el3 := (\<lambda>i j k. if el3 msk i j k then c else el3 a i j k)\<rparr>))"

section \<open>Per-cell variables\<close>

text \<open>
  \<^verbatim>\<open>numpy.ma.masked_where\<close> (lines 246 to 251): a masked array is an array of pairs of
  a value and its mask bit.
\<close>

definition MaskedInputVegetation :: "flt ndarray3 \<Rightarrow> (flt \<times> bool) ndarray3" where
  "MaskedInputVegetation InputVegetation =
     map3 (\<lambda>x. (x, le0 x \<or> isnan x)) InputVegetation"

text \<open>
  The masked product, summed along the vegetation axis (masked entries count as 0), and
  \<^verbatim>\<open>numpy.stack\<close> of \<open>nOutputVeg\<close> copies of that plane, which fails for an empty list.
\<close>

definition sum_axis0 :: "(flt \<times> bool) ndarray3 \<Rightarrow> flt ndarray2" where
  "sum_axis0 a =
     \<lparr>m0 = n1 a, m1 = n2 a,
      el2 = (\<lambda>j k. sum_list (map (\<lambda>i. if snd (el3 a i j k) then 0 else fst (el3 a i j k))
                                [0..<n0 a]))\<rparr>"

definition stack :: "nat \<Rightarrow> 'a ndarray2 \<Rightarrow> error + 'a ndarray3" where
  "stack n a =
     (if n = 0 then Inl ValueError
      else Inr \<lparr>n0 = n, n1 = m0 a, n2 = m1 a, el3 = (\<lambda>_. el2 a)\<rparr>)"

definition AreaWeightedMean ::
  "flt ndarray3 \<Rightarrow> (flt \<times> bool) ndarray3 \<Rightarrow> nat \<Rightarrow> error + flt ndarray3" where
  "AreaWeightedMean Var MaskedVeg nOutputVeg =
     bindE (zip3 (\<lambda>x fm. (fmul x (fst fm), snd fm)) Var MaskedVeg) (\<lambda>prod.
       stack nOutputVeg (sum_axis0 prod))"

text \<open>
  The body of the loop over the per-cell variables: the array \<open>OutData\<close> of lines 255 to
  268, which is the input's array written in place, then its assignment to the output
  dataset (line 270).
\<close>

definition per_cell_output ::
  "dataset \<Rightarrow> flt ndarray3 \<Rightarrow> nat \<Rightarrow> bool ndarray3 \<Rightarrow> bool ndarray3 \<Rightarrow> out_dataset \<Rightarrow>
   string \<Rightarrow> error + flt ndarray3" where
  "per_cell_output InputDataset InputVegetation nOutputVeg TilesToFill TilesToEmpty
     OutDataset Variable =
     bindE (to_numpy InputDataset OutDataset Variable) (\<lambda>Var.
     bindE (AreaWeightedMean Var (MaskedInputVegetation InputVegetation) nOutputVeg) (\<lambda>Mean.
     bindE (assign_where Var TilesToFill Mean) (\<lambda>OutData.
       fill_where OutData TilesToEmpty 0)))"

definition per_cell_variable ::
  "dataset \<Rightarrow> flt ndarray3 \<Rightarrow> nat \<Rightarrow> bool ndarray3 \<Rightarrow> bool ndarray3 \<Rightarrow>
   out_dataset \<Rightarrow> string \<Rightarrow> error + out_dataset" where
  "per_cell_variable InputDataset InputVegetation nOutputVeg TilesToFill TilesToEmpty
     OutDataset Variable =
     bindE (per_cell_output InputDataset InputVegetation nOutputVeg TilesToFill TilesToEmpty
              OutDataset Variable)
       (\<lambda>OutData. setvar OutDataset Variable OutData True)"

fun per_cell_loop ::
  "dataset \<Rightarrow> flt ndarray3 \<Rightarrow> nat \<Rightarrow> bool ndarray3 \<Rightarrow> bool ndarray3 \<Rightarrow>
   string list \<Rightarrow> out_dataset \<Rightarrow> error + out_dataset" where
  "per_cell_loop InputDataset InputVegetation nOutputVeg TilesToFill TilesToEmpty []
     OutDataset = Inr OutDataset"
| "per_cell_loop InputDataset InputVegetation nOutputVeg TilesToFill TilesToEmpty
     (Variable # rest) OutDataset =
     bindE (per_cell_variable InputDataset InputVegetation nOutputVeg TilesToFill TilesToEmpty
              OutDataset Variable)
       (per_cell_loop InputDataset InputVegetation nOutputVeg TilesToFill TilesToEmpty rest)"

section \<open>Per-tile variables\<close>

text \<open>
  Lines 274 to 278: take the input's array, zero in it the tiles that left existence,
  then assign it to the output dataset.
\<close>

definition per_tile_output ::
  "dataset \<Rightarrow> bool ndarray3 \<Rightarrow> out_dataset \<Rightarrow> string \<Rightarrow> error + flt ndarray3" where
  "per_tile_output InputDataset TilesToEmpty OutDataset Variable =
     bindE (to_numpy InputDataset OutDataset Variable) (\<lambda>Var. fill_where Var TilesToEmpty 0)"

definition per_tile_variable ::
  "dataset \<Rightarrow> bool ndarray3 \<Rightarrow> out_dataset \<Rightarrow> string \<Rightarrow> error + out_dataset" where
  "per_tile_variable InputDataset TilesToEmpty OutDataset Variable =
     bindE (per_tile_output InputDataset TilesToEmpty OutDataset Variable)
       (\<lambda>OutData. setvar OutDataset Variable OutData True)"

fun per_tile_loop ::
  "dataset \<Rightarrow> bool ndarray3 \<Rightarrow> string list \<Rightarrow> out_dataset \<Rightarrow> error + out_dataset" where
  "per_tile_loop InputDataset TilesToEmpty [] OutDataset = Inr OutDataset"
| "per_tile_loop InputDataset TilesToEmpty (Variable # rest) OutDataset =
     bindE (per_tile_variable InputDataset TilesToEmpty OutDataset Variable)
       (per_tile_loop InputDataset TilesToEmpty rest)"

text \<open>
  \<^verbatim>\<open>numpy.ma.masked_array(data, mask=...)\<close> (line 283) accepts a mask of the data's shape;
  a mask of another shape is stretched when it has one element, reshaped (in C order)
  when it has as many elements as the data, and is a \<^verbatim>\<open>MaskError\<close> otherwise.
\<close>

definition size3 :: "'a ndarray3 \<Rightarrow> nat" where
  "size3 a = n0 a * n1 a * n2 a"

definition reshape3 :: "'a ndarray3 \<Rightarrow> nat \<times> nat \<times> nat \<Rightarrow> 'a ndarray3" where
  "reshape3 a shp =
     (case shp of (d0, d1, d2) \<Rightarrow>
        \<lparr>n0 = d0, n1 = d1, n2 = d2,
         el3 = (\<lambda>i j k. let f = (i * d1 + j) * d2 + k
                         in el3 a (f div (n1 a * n2 a)) ((f div n2 a) mod n1 a) (f mod n2 a))\<rparr>)"

definition masked_array :: "'a ndarray3 \<Rightarrow> bool ndarray3 \<Rightarrow> error + bool ndarray3" where
  "masked_array data msk =
     (if shape3 msk = shape3 data then Inr msk
      else if size3 msk = 1
      then Inr \<lparr>n0 = n0 data, n1 = n1 data, n2 = n2 data, el3 = (\<lambda>_ _ _. el3 msk 0 0 0)\<rparr>
      else if size3 msk = size3 data then Inr (reshape3 msk (shape3 data))
      else Inl MaskError)"

text \<open>\<^verbatim>\<open>numpy.ma.ndenumerate\<close>: the indices of the unmasked entries, in C order.\<close>

definition ndenumerate :: "'a ndarray3 \<Rightarrow> bool ndarray3 \<Rightarrow> (nat \<times> nat \<times> nat) list" where
  "ndenumerate data msk = filter (\<lambda>(i, j, k). \<not> el3 msk i j k) (indices3 data)"

text \<open>
  The loop over the search methods, lines 309 to 326. It leaves with the mask, the
  active tile masks and the point count of the last stage it ran; \<open>found\<close> holds the
  latter two from the previous iteration.
\<close>

fun search_stages ::
  "(search_method \<times> int option \<times> int) list \<Rightarrow> flt ndarray3 \<Rightarrow> (int \<Rightarrow> int list option) \<Rightarrow>
   nat \<times> nat \<times> nat \<Rightarrow> bool ndarray2 \<Rightarrow> (bool ndarray2 list \<times> int) option \<Rightarrow>
   error + bool ndarray2 \<times> bool ndarray2 list \<times> int" where
  "search_stages [] InputVegetation VegMapping idx SearchMask found =
     (case found of None \<Rightarrow> Inl NameError
      | Some (ActiveTileMasks, PointsFound) \<Rightarrow> Inr (SearchMask, ActiveTileMasks, PointsFound))"
| "search_stages ((Method, Param, MinPoints) # rest) InputVegetation VegMapping
     (OutVeg, Lat, Lon) SearchMask found =
     bindE (Method SearchMask Param (int Lon, int Lat)) (\<lambda>SearchMask'.
     bindE (case VegMapping (int OutVeg) of None \<Rightarrow> Inl KeyError | Some vs \<Rightarrow> Inr vs) (\<lambda>VegTypes.
     bindE (find_active_tiles SearchMask' InputVegetation VegTypes) (\<lambda>ActiveTileMasks.
       let PointsFound = points_found ActiveTileMasks
       in if PointsFound \<ge> MinPoints then Inr (SearchMask', ActiveTileMasks, PointsFound)
          else search_stages rest InputVegetation VegMapping (OutVeg, Lat, Lon) SearchMask'
                 (Some (ActiveTileMasks, PointsFound)))))"

definition stages :: "mapping_conf \<Rightarrow> (search_method \<times> int option \<times> int) list" where
  "stages MappingConf =
     (let SearchMethods = [modify_mask_for_cell, modify_mask_for_nearest,
                           modify_mask_for_latitude_band, modify_mask_for_global];
          SearchParams = [None, Some (search_radius MappingConf),
                          Some (latitude_band MappingConf), None];
          PointsThreshold = [1, minimum_points MappingConf, minimum_points MappingConf, 1]
      in zip SearchMethods (zip SearchParams PointsThreshold))"

text \<open>\<^verbatim>\<open>VarData[TileMask].sum()\<close>: the sum of the cells the mask selects.\<close>

definition masked_sum :: "flt ndarray2 \<Rightarrow> bool ndarray2 \<Rightarrow> error + flt" where
  "masked_sum VarData TileMask =
     (if shape2 VarData \<noteq> shape2 TileMask then Inl IndexError
      else Inr (sum_list (map (\<lambda>(i, j). el2 VarData i j)
                   (filter (\<lambda>(i, j). el2 TileMask i j) (indices2 TileMask)))))"

text \<open>
  The inner loop, lines 342 to 348, over the input types and their masks. It reads the
  input's array as it stands when the point is reached.
\<close>

fun total_over_tiles ::
  "dataset \<Rightarrow> out_dataset \<Rightarrow> string \<Rightarrow> (int \<times> bool ndarray2) list \<Rightarrow> flt \<Rightarrow> error + flt" where
  "total_over_tiles InputDataset OutDataset Variable [] Tot = Inr Tot"
| "total_over_tiles InputDataset OutDataset Variable ((InVeg, TileMask) # rest) Tot =
     bindE (to_numpy InputDataset OutDataset Variable) (\<lambda>Var.
     bindE (plane Var InVeg) (\<lambda>VarData.
     bindE (masked_sum VarData TileMask) (\<lambda>TotalForVegType.
       total_over_tiles InputDataset OutDataset Variable rest (Tot + TotalForVegType))))"

text \<open>
  \<^verbatim>\<open>Total / PointsFound\<close>. With no contributing type both operands are plain Python
  numbers and a zero count raises; otherwise they are numpy scalars and 0.0 / 0 is NaN.
\<close>

definition divide :: "flt \<Rightarrow> int \<Rightarrow> bool \<Rightarrow> error + flt" where
  "divide Tot PointsFound plain =
     (if PointsFound = 0 then (if plain then Inl ZeroDivisionError else Inr NaN)
      else Inr (case Tot of NaN \<Rightarrow> NaN | Fin t \<Rightarrow> Fin (t / real_of_int PointsFound)))"

text \<open>
  Lines 331 to 352 for one per-tile variable: the value (zero when too few points were
  found, the total over the count otherwise), then its assignment at the point; and the
  loop over the per-tile variables.
\<close>

definition tile_value ::
  "dataset \<Rightarrow> out_dataset \<Rightarrow> int \<Rightarrow> int list \<Rightarrow> bool ndarray2 list \<Rightarrow> int \<Rightarrow> string \<Rightarrow>
   error + flt" where
  "tile_value InputDataset OutDataset MinPointsFound VegTypes ActiveTileMasks PointsFound
     Variable =
     (if PointsFound < MinPointsFound then Inr 0
      else bindE (total_over_tiles InputDataset OutDataset Variable
                    (zip VegTypes ActiveTileMasks) 0)
             (\<lambda>Tot. divide Tot PointsFound (zip VegTypes ActiveTileMasks = [])))"

definition fill_tile ::
  "dataset \<Rightarrow> int \<Rightarrow> int list \<Rightarrow> bool ndarray2 list \<Rightarrow> int \<Rightarrow> nat \<times> nat \<times> nat \<Rightarrow>
   out_dataset \<Rightarrow> string \<Rightarrow> error + out_dataset" where
  "fill_tile InputDataset MinPointsFound VegTypes ActiveTileMasks PointsFound idx
     OutDataset Variable =
     bindE (tile_value InputDataset OutDataset MinPointsFound VegTypes ActiveTileMasks
              PointsFound Variable)
       (setpoint OutDataset Variable idx)"

fun fill_tiles ::
  "dataset \<Rightarrow> int \<Rightarrow> int list \<Rightarrow> bool ndarray2 list \<Rightarrow> int \<Rightarrow> nat \<times> nat \<times> nat \<Rightarrow>
   string list \<Rightarrow> out_dataset \<Rightarrow> error + out_dataset" where
  "fill_tiles InputDataset MinPointsFound VegTypes ActiveTileMasks PointsFound idx []
     OutDataset = Inr OutDataset"
| "fill_tiles InputDataset MinPointsFound VegTypes ActiveTileMasks PointsFound idx
     (Variable # rest) OutDataset =
     bindE (fill_tile InputDataset MinPointsFound VegTypes ActiveTileMasks PointsFound idx
              OutDataset Variable)
       (fill_tiles InputDataset MinPointsFound VegTypes ActiveTileMasks PointsFound idx rest)"

text \<open>
  One pass of the loop over the points to fill, lines 306 to 355: search, fill every
  per-tile variable at the point, reset the search mask.
\<close>

definition resolve_point ::
  "dataset \<Rightarrow> flt ndarray3 \<Rightarrow> mapping_conf \<Rightarrow> out_dataset \<times> bool ndarray2 \<Rightarrow>
   nat \<times> nat \<times> nat \<Rightarrow> error + out_dataset \<times> bool ndarray2" where
  "resolve_point InputDataset InputVegetation MappingConf state idx =
     (case state of (OutDataset, SearchMask) \<Rightarrow>
        bindE (search_stages (stages MappingConf) InputVegetation (vegetation_map MappingConf)
                 idx SearchMask None) (\<lambda>(SearchMask', ActiveTileMasks, PointsFound).
        bindE (case vegetation_map MappingConf (int (fst idx)) of
                 None \<Rightarrow> Inl KeyError | Some vs \<Rightarrow> Inr vs) (\<lambda>VegTypes.
        bindE (fill_tiles InputDataset (minimum_points MappingConf) VegTypes ActiveTileMasks
                 PointsFound idx (per_tile MappingConf) OutDataset) (\<lambda>OutDataset'.
          Inr (OutDataset', SearchMask'\<lparr>el2 := (\<lambda>_ _. False)\<rparr>)))))"

fun resolve_points ::
  "dataset \<Rightarrow> flt ndarray3 \<Rightarrow> mapping_conf \<Rightarrow> (nat \<times> nat \<times> nat) list \<Rightarrow>
   out_dataset \<times> bool ndarray2 \<Rightarrow> error + out_dataset \<times> bool ndarray2" where
  "resolve_points InputDataset InputVegetation MappingConf [] state = Inr state"
| "resolve_points InputDataset InputVegetation MappingConf (idx # rest) state =
     bindE (resolve_point InputDataset InputVegetation MappingConf state idx)
       (resolve_points InputDataset InputVegetation MappingConf rest)"

section \<open>The remapping\<close>

text \<open>
  \<^verbatim>\<open>remap_vegetation\<close>. Its first argument is the binding of the global name
  \<^verbatim>\<open>NewVegetation\<close> in the calling module (see \<open>add_land_fractions\<close>); \<open>Config\<close> is the
  content of the configuration file. The two fraction grids are arguments of their own;
  they are taken not to share memory with a variable the configuration lists. The
  dataset returned holds, for every listed variable, the array the input's variable of
  that name has become.
\<close>

definition remap_vegetation ::
  "flt ndarray3 option \<Rightarrow> dataset \<Rightarrow> flt ndarray3 \<Rightarrow> flt ndarray3 \<Rightarrow> bool \<Rightarrow> raw_config \<Rightarrow>
   error + out_dataset" where
  "remap_vegetation global_NewVegetation InputDataset InputVegetation OutputVegetation
     FillAll Config =
     (let nOutputVeg = n0 OutputVegetation; nLat = n1 OutputVegetation;
          nLon = n2 OutputVegetation;
          MappingConf = prepare_mapping nOutputVeg Config;
          PerCellVariables = per_cell MappingConf;
          PerTileVariables = per_tile MappingConf;
          OutDataset = setup_output_dataset OutputVegetation InputDataset
                         (PerCellVariables @ PerTileVariables)
      in bindE (add_land_fractions global_NewVegetation OutDataset) (\<lambda>ds1.
         bindE (tiles_to_fill_and_empty FillAll InputVegetation OutputVegetation)
           (\<lambda>(TilesToFill, TilesToEmpty).
         bindE (per_cell_loop InputDataset InputVegetation nOutputVeg TilesToFill TilesToEmpty
                  PerCellVariables ds1) (\<lambda>ds2.
         bindE (per_tile_loop InputDataset TilesToEmpty PerTileVariables ds2) (\<lambda>ds3.
         bindE (masked_array OutputVegetation (map3 Not TilesToFill)) (\<lambda>msk.
         bindE (resolve_points InputDataset InputVegetation MappingConf
                  (ndenumerate OutputVegetation msk) (ds3, full2 nLat nLon False))
           (\<lambda>(OutDataset', SearchMask). Inr OutDataset')))))))"

section \<open>Notions the properties are stated with\<close>

text \<open>The set of true cells of a mask, inside its shape.\<close>

definition true_cells :: "bool ndarray2 \<Rightarrow> (nat \<times> nat) set" where
  "true_cells m = set (filter (\<lambda>(i, j). el2 m i j) (indices2 m))"

text \<open>
  The search mask after a run of stages: the methods of the list applied one after the
  other, as the loop of \<open>search_stages\<close> applies them for as long as it goes on.
\<close>

fun apply_methods ::
  "(search_method \<times> int option \<times> int) list \<Rightarrow> int \<times> int \<Rightarrow> bool ndarray2 \<Rightarrow>
   error + bool ndarray2" where
  "apply_methods [] Coord SearchMask = Inr SearchMask"
| "apply_methods ((Method, Param, MinPoints) # rest) Coord SearchMask =
     bindE (Method SearchMask Param Coord) (apply_methods rest Coord)"

text \<open>
  The staged search of one episode: the loop over the stages, started on a search mask
  that is false everywhere, at the point \<open>idx = (OutVeg, Lat, Lon)\<close>.
\<close>

definition staged_search ::
  "mapping_conf \<Rightarrow> flt ndarray3 \<Rightarrow> nat \<Rightarrow> nat \<Rightarrow> nat \<times> nat \<times> nat \<Rightarrow>
   error + bool ndarray2 \<times> bool ndarray2 list \<times> int" where
  "staged_search MappingConf InputVegetation nLat nLon idx =
     search_stages (stages MappingConf) InputVegetation (vegetation_map MappingConf) idx
       (full2 nLat nLon False) None"

text \<open>
  The spec's pooled mean (section 4.5, step 6), in its words: the matched pairs of a
  contributing input index and a cell of that index's active tile mask, all indices
  pooled; and the sum of the variable over those pairs divided by their number.
\<close>

definition matched_pairs :: "int list \<Rightarrow> bool ndarray2 list \<Rightarrow> (int \<times> nat \<times> nat) list" where
  "matched_pairs VegTypes ActiveTileMasks =
     concat (map (\<lambda>(InVeg, TileMask).
                    map (Pair InVeg) (filter (\<lambda>(i, j). el2 TileMask i j) (indices2 TileMask)))
               (zip VegTypes ActiveTileMasks))"

definition value_at :: "flt ndarray3 \<Rightarrow> int \<times> nat \<times> nat \<Rightarrow> flt" where
  "value_at Var p =
     (case p of (InVeg, i, j) \<Rightarrow>
        (case py_index (n0 Var) InVeg of Inl e \<Rightarrow> NaN | Inr v \<Rightarrow> el3 Var v i j))"

definition spec_pooled_mean :: "flt ndarray3 \<Rightarrow> (int \<times> nat \<times> nat) list \<Rightarrow> flt" where
  "spec_pooled_mean Var pairs =
     (if pairs = [] then NaN
      else case sum_list (map (value_at Var) pairs) of
             NaN \<Rightarrow> NaN | Fin t \<Rightarrow> Fin (t / real (length pairs)))"

text \<open>The value a dataset holds for a variable at a point, if it has the variable.\<close>

definition var_at :: "out_dataset \<Rightarrow> string \<Rightarrow> nat \<times> nat \<times> nat \<Rightarrow> flt option" where
  "var_at ds name idx =
     (case data_vars ds name of None \<Rightarrow> None
      | Some a \<Rightarrow> (case idx of (i, j, k) \<Rightarrow> Some (el3 a i j k)))"

text \<open>
  What one episode assigns to a per-tile variable at its point: the staged search from a
  fresh mask, then the value of lines 331 to 352, read from the arrays as the output
  dataset \<open>OutDataset\<close> holds them when the variable's turn comes.
\<close>

definition episode_value ::
  "dataset \<Rightarrow> out_dataset \<Rightarrow> flt ndarray3 \<Rightarrow> mapping_conf \<Rightarrow> nat \<Rightarrow> nat \<Rightarrow> nat \<times> nat \<times> nat \<Rightarrow>
   string \<Rightarrow> error + flt" where
  "episode_value InputDataset OutDataset InputVegetation MappingConf nLat nLon idx Variable =
     bindE (staged_search MappingConf InputVegetation nLat nLon idx)
       (\<lambda>(SearchMask, ActiveTileMasks, PointsFound).
     bindE (case vegetation_map MappingConf (int (fst idx)) of
              None \<Rightarrow> Inl KeyError | Some vs \<Rightarrow> Inr vs) (\<lambda>VegTypes.
       tile_value InputDataset OutDataset (minimum_points MappingConf) VegTypes
         ActiveTileMasks PointsFound Variable))"

text \<open>
  The spec's weighted sum of a per-cell variable at a grid cell (section 4.6), in its
  words: over all input vegetation indices whose fraction is neither missing nor
  non-positive, the sum of the variable's value times the fraction.
\<close>

definition spec_weighted_sum :: "flt ndarray3 \<Rightarrow> flt ndarray3 \<Rightarrow> nat \<Rightarrow> nat \<Rightarrow> flt" where
  "spec_weighted_sum Var InputVegetation j k =
     sum_list (map (\<lambda>v. fmul (el3 Var v j k) (el3 InputVegetation v j k))
       (filter (\<lambda>v. \<not> isnan (el3 InputVegetation v j k) \<and> \<not> le0 (el3 InputVegetation v j k))
          [0..<n0 InputVegetation]))"

text \<open>The extents of the three coordinates of an output dataset.\<close>

definition dims :: "out_dataset \<Rightarrow> nat \<times> nat \<times> nat" where
  "dims ds = (length (coord_veg ds), length (coord_lat ds), length (coord_lon ds))"

text \<open>
  What the two loops over the variables maintain in fill-all mode on a fully populated
  input grid: every output variable that is the input's array has the shape of the
  grids and still holds, inside that shape, the values the input had at the call.
\<close>

definition keeps_input :: "dataset \<Rightarrow> flt ndarray3 \<Rightarrow> out_dataset \<Rightarrow> bool" where
  "keeps_input InputDataset InputVegetation OutDataset \<longleftrightarrow>
     (\<forall>Variable \<in> views OutDataset. \<exists>Var a.
        InputDataset Variable = Some Var \<and> data_vars OutDataset Variable = Some a
      \<and> shape3 a = shape3 Var \<and> shape3 a = shape3 InputVegetation
      \<and> shape3 a = dims OutDataset
      \<and> (\<forall>i<n0 Var. \<forall>j<n1 Var. \<forall>k<n2 Var. el3 a i j k = el3 Var i j k))"

section \<open>Scenarios\<close>

text \<open>
  A first scenario: a configuration with one per-tile variable \<open>t\<close>, one per-cell variable \<open>c\<close> and every
  optional key absent, and a dataset holding both on a grid of one vegetation type, one
  latitude and two longitudes.
\<close>

definition example_config :: raw_config where
  "example_config =
     \<lparr>cfg_per_cell = [''c''], cfg_per_tile = [''t''], cfg_vegetation_map = None,
      cfg_search_radius = None, cfg_latitude_band = None, cfg_minimum_points = None\<rparr>"

definition example_dataset :: dataset where
  "example_dataset =
     ((\<lambda>_. None)(''t'' \<mapsto> array3 [[[Fin 0, Fin 7]]]))(''c'' \<mapsto> array3 [[[Fin 3, Fin 4]]])"

text \<open>
  A second scenario: two vegetation types on one latitude and three longitudes, the
  first output type mapped to both input types. The first type is absent from the first
  cell of the input and present in the output, so that cell is filled from the others.
\<close>

definition pooled_config :: raw_config where
  "pooled_config =
     \<lparr>cfg_per_cell = [], cfg_per_tile = [''t''], cfg_vegetation_map = Some [(1, [1, 2])],
      cfg_search_radius = None, cfg_latitude_band = None, cfg_minimum_points = None\<rparr>"

definition pooled_input :: "flt ndarray3" where
  "pooled_input = array3 [[[Fin 0, Fin (1/2), Fin (1/2)]], [[Fin 0, Fin 0, Fin (3/10)]]]"

definition pooled_output :: "flt ndarray3" where
  "pooled_output = array3 [[[Fin (1/2), Fin (1/2), Fin (1/2)]], [[Fin 0, Fin 0, Fin (3/10)]]]"

definition pooled_dataset :: dataset where
  "pooled_dataset =
     (\<lambda>_. None)(''t'' \<mapsto> array3 [[[Fin 0, Fin 6, Fin 9]], [[Fin 0, Fin 0, Fin 3]]])"

text \<open>
  A third scenario, for the per-cell aggregation: two vegetation types on one latitude
  and two longitudes, and one per-cell variable \<open>c\<close>.
\<close>

definition cell_config :: raw_config where
  "cell_config =
     \<lparr>cfg_per_cell = [''c''], cfg_per_tile = [], cfg_vegetation_map = None,
      cfg_search_radius = None, cfg_latitude_band = None, cfg_minimum_points = None\<rparr>"

definition cell_input :: "flt ndarray3" where
  "cell_input = array3 [[[Fin 0, Fin (1/2)]], [[Fin (1/4), Fin (1/2)]]]"

definition cell_output :: "flt ndarray3" where
  "cell_output = array3 [[[Fin (1/2), Fin (1/2)]], [[Fin (1/4), Fin 0]]]"

definition cell_dataset :: dataset where
  "cell_dataset = (\<lambda>_. None)(''c'' \<mapsto> array3 [[[Fin 3, Fin 4]], [[Fin 8, Fin 5]]])"

text \<open>
  A fourth scenario, with mismatched shapes: the input fraction grid has one longitude
  where the output grid and the variables have two, and the first output type is mapped
  to the second input type.
\<close>

definition mismatch_config :: raw_config where
  "mismatch_config =
     \<lparr>cfg_per_cell = [''c''], cfg_per_tile = [''t''], cfg_vegetation_map = Some [(1, [2])],
      cfg_search_radius = None, cfg_latitude_band = None, cfg_minimum_points = None\<rparr>"

definition mismatch_input :: "flt ndarray3" where
  "mismatch_input = array3 [[[Fin 0]], [[Fin (1/2)]]]"

definition mismatch_output :: "flt ndarray3" where
  "mismatch_output = array3 [[[Fin (1/2), Fin (1/2)]], [[Fin (1/2), Fin (1/2)]]]"

definition mismatch_dataset :: dataset where
  "mismatch_dataset =
     ((\<lambda>_. None)(''t'' \<mapsto> array3 [[[Fin 0, Fin 0]], [[Fin 6, Fin 8]]]))
       (''c'' \<mapsto> array3 [[[Fin 1, Fin 2]], [[Fin 3, Fin 4]]])"

text \<open>
  A fifth scenario, with a tile that leaves existence: two vegetation types on one
  latitude and two longitudes, the first output type mapped to both input types. The
  second type is present in the second cell of the input and absent from the output.
\<close>

definition emptied_config :: raw_config where
  "emptied_config =
     \<lparr>cfg_per_cell = [], cfg_per_tile = [''t''], cfg_vegetation_map = Some [(1, [1, 2])],
      cfg_search_radius = None, cfg_latitude_band = None, cfg_minimum_points = None\<rparr>"

definition emptied_input :: "flt ndarray3" where
  "emptied_input = array3 [[[Fin 0, Fin (1/2)]], [[Fin 0, Fin (1/2)]]]"

definition emptied_output :: "flt ndarray3" where
  "emptied_output = array3 [[[Fin (1/2), Fin (1/2)]], [[Fin 0, Fin 0]]]"

definition emptied_dataset :: dataset where
  "emptied_dataset = (\<lambda>_. None)(''t'' \<mapsto> array3 [[[Fin 0, Fin 6]], [[Fin 0, Fin 4]]])"

text \<open>
  A sixth scenario: one input vegetation type against two output types, both mapped to
  that one input type, on one latitude and two longitudes.
\<close>

definition single_config :: raw_config where
  "single_config =
     \<lparr>cfg_per_cell = [''c''], cfg_per_tile = [''t''],
      cfg_vegetation_map = Some [(1, [1]), (2, [1])],
      cfg_search_radius = None, cfg_latitude_band = None, cfg_minimum_points = None\<rparr>"

definition single_input :: "flt ndarray3" where
  "single_input = array3 [[[Fin 0, Fin (1/2)]]]"

definition single_output :: "flt ndarray3" where
  "single_output = array3 [[[Fin (1/2), Fin (1/2)]], [[Fin (1/2), Fin (1/2)]]]"

definition single_dataset :: dataset where
  "single_dataset =
     ((\<lambda>_. None)(''t'' \<mapsto> array3 [[[Fin 0, Fin 6]], [[Fin 0, Fin 2]]]))
       (''c'' \<mapsto> array3 [[[Fin 1, Fin 2]], [[Fin 3, Fin 4]]])"

text \<open>A dataset with no variable and a configuration that names none.\<close>

definition empty_dataset :: dataset where
  "empty_dataset = (\<lambda>_. None)"

definition plain_config :: raw_config where
  "plain_config =
     \<lparr>cfg_per_cell = [], cfg_per_tile = [], cfg_vegetation_map = None,
      cfg_search_radius = None, cfg_latitude_band = None, cfg_minimum_points = None\<rparr>"

section \<open>Properties\<close>

subsection \<open>Error propagation and broadcasting\<close>

lemma bindE_Inl [simp]: "bindE (Inl e) f = Inl e"
  by (simp add: bindE_def)

lemma bindE_Inr [simp]: "bindE (Inr x) f = f x"
  by (simp add: bindE_def)

lemma bindE_eq_Inr: "bindE m f = Inr y \<longleftrightarrow> (\<exists>x. m = Inr x \<and> f x = Inr y)"
  by (cases m) simp_all

lemma bdim_Inr: "bdim a b = Inr p \<longleftrightarrow> (a = b \<and> p = a) \<or> (a \<noteq> b \<and> a = 1 \<and> p = b) \<or> (a \<noteq> b \<and> b = 1 \<and> p = a)"
  by (auto simp: bdim_def)

lemma bdim_again: "bdim a b = Inr p \<Longrightarrow> bdim p b = Inr p"
  by (auto simp: bdim_def split: if_splits)

lemma bidx_again: "bdim a b = Inr p \<Longrightarrow> bidx b (bidx p i) = bidx b i"
  by (auto simp: bdim_def bidx_def split: if_splits)

lemma bdim_same [simp]: "bdim a a = Inr a"
  by (simp add: bdim_def)

lemma bidx_in_range: "i < a \<Longrightarrow> bidx a i = i"
  by (auto simp: bidx_def)

lemma not_gt0_le0: "gt0 x \<Longrightarrow> le0 x \<Longrightarrow> False"
  by (cases x) simp_all

lemmas model_defs =
  remap_vegetation_def prepare_mapping_def setup_output_dataset_def linspace_def
  add_land_fractions_def setvar_def setpoint_def getitem_def to_numpy_def
  tiles_to_fill_and_empty_def zip3_def zip2_def map3_def map2_def bdim_def bidx_def
  shape3_def shape2_def size3_def reshape3_def
  per_cell_variable_def per_cell_output_def per_tile_variable_def per_tile_output_def AreaWeightedMean_def MaskedInputVegetation_def
  sum_axis0_def stack_def assign_where_def fill_where_def masked_array_def ndenumerate_def
  indices3_def indices2_def full2_def array3_def array2_def
  resolve_point_def stages_def fill_tile_def tile_value_def divide_def masked_sum_def
  TileSearchMap_def plane_def py_index_def set_cell_def set_row_def np_clip_def np_mod_def
  count_true_def points_found_def zero_flt_def upto.simps modify_mask_for_global_def
  example_config_def example_dataset_def

subsection \<open>Fill and empty never overlap\<close>

text \<open>
  C6. In fill-all and in fill-new-only mode alike, whenever the fill policy is computed
  (the two fraction grids broadcast), the elementwise conjunction of \<open>TilesToFill\<close> and
  \<open>TilesToEmpty\<close> is itself computed and is false at every position.
\<close>

theorem fill_and_empty_disjoint:
  assumes "tiles_to_fill_and_empty FillAll InputVegetation OutputVegetation
             = Inr (TilesToFill, TilesToEmpty)"
  shows "\<exists>both. zip3 (\<and>) TilesToFill TilesToEmpty = Inr both
           \<and> shape3 both = shape3 TilesToFill
           \<and> (\<forall>i j k. \<not> el3 both i j k)"
proof (cases FillAll)
  case True
  with assms show ?thesis
    by (auto simp: tiles_to_fill_and_empty_def zip3_def map3_def shape3_def)
next
  case False
  with assms obtain p r c where
    p: "bdim (n0 InputVegetation) (n0 OutputVegetation) = Inr p" and
    r: "bdim (n1 InputVegetation) (n1 OutputVegetation) = Inr r" and
    c: "bdim (n2 InputVegetation) (n2 OutputVegetation) = Inr c" and
    F: "TilesToFill = \<lparr>n0 = p, n1 = r, n2 = c,
          el3 = (\<lambda>i j k.
            le0 (el3 InputVegetation (bidx (n0 InputVegetation) i) (bidx (n1 InputVegetation) j)
                   (bidx (n2 InputVegetation) k)) \<and>
            gt0 (el3 OutputVegetation (bidx (n0 OutputVegetation) i) (bidx (n1 OutputVegetation) j)
                   (bidx (n2 OutputVegetation) k)))\<rparr>" and
    E: "TilesToEmpty = map3 le0 OutputVegetation"
    by (auto simp: tiles_to_fill_and_empty_def zip3_def map3_def bindE_eq_Inr)
  show ?thesis
    using bdim_again [OF p] bdim_again [OF r] bdim_again [OF c]
      bidx_again [OF p] bidx_again [OF r] bidx_again [OF c]
    by (auto simp: F E zip3_def map3_def shape3_def dest: not_gt0_le0)
qed

theorem fill_and_empty_disjoint_witness:
  "\<exists>TilesToFill TilesToEmpty both.
     tiles_to_fill_and_empty False (array3 [[[Fin 0, Fin 1]]]) (array3 [[[Fin 1, Fin 0]]])
       = Inr (TilesToFill, TilesToEmpty)
     \<and> el3 TilesToFill 0 0 0 \<and> el3 TilesToEmpty 0 0 1
     \<and> zip3 (\<and>) TilesToFill TilesToEmpty = Inr both
     \<and> shape3 both = (1, 1, 2) \<and> (\<forall>i j k. \<not> el3 both i j k)"
proof -
  obtain F E where fe:
    "tiles_to_fill_and_empty False (array3 [[[Fin 0, Fin 1]]]) (array3 [[[Fin 1, Fin 0]]])
       = Inr (F, E)"
    and el: "el3 F 0 0 0" "el3 E 0 0 1" and shp: "shape3 F = (1, 1, 2)"
    by (simp add: model_defs)
  from fill_and_empty_disjoint [OF fe] el shp fe show ?thesis
    by auto
qed

subsection \<open>Variables a step leaves alone\<close>

lemma setvar_Inr:
  "setvar ds name a shared = Inr ds' \<longleftrightarrow>
     shape3 a = (length (coord_veg ds), length (coord_lat ds), length (coord_lon ds)) \<and>
     ds' = ds\<lparr>data_vars := (data_vars ds)(name \<mapsto> a),
              views := (if shared then insert name (views ds) else views ds - {name})\<rparr>"
  by (auto simp: setvar_def)

lemma setpoint_other:
  "setpoint ds name idx x = Inr ds' \<Longrightarrow> other \<noteq> name \<Longrightarrow> data_vars ds' other = data_vars ds other"
  by (cases idx) (auto simp: setpoint_def bindE_eq_Inr split: if_splits)

lemma setpoint_coords:
  "setpoint ds name idx x = Inr ds' \<Longrightarrow>
     coord_veg ds' = coord_veg ds \<and> coord_lat ds' = coord_lat ds \<and> coord_lon ds' = coord_lon ds"
  by (cases idx) (auto simp: setpoint_def bindE_eq_Inr split: if_splits)

lemma per_cell_variable_other:
  "per_cell_variable I IV n F E ds Variable = Inr ds' \<Longrightarrow> other \<noteq> Variable \<Longrightarrow>
     data_vars ds' other = data_vars ds other"
  by (auto simp: per_cell_variable_def bindE_eq_Inr setvar_Inr)

lemma per_cell_loop_other:
  "per_cell_loop I IV n F E vars ds = Inr ds' \<Longrightarrow> other \<notin> set vars \<Longrightarrow>
     data_vars ds' other = data_vars ds other"
  by (induction vars arbitrary: ds) (auto simp: bindE_eq_Inr dest: per_cell_variable_other)

lemma per_tile_variable_other:
  "per_tile_variable I E ds Variable = Inr ds' \<Longrightarrow> other \<noteq> Variable \<Longrightarrow>
     data_vars ds' other = data_vars ds other"
  by (auto simp: per_tile_variable_def bindE_eq_Inr setvar_Inr)

lemma per_tile_loop_other:
  "per_tile_loop I E vars ds = Inr ds' \<Longrightarrow> other \<notin> set vars \<Longrightarrow>
     data_vars ds' other = data_vars ds other"
  by (induction vars arbitrary: ds) (auto simp: bindE_eq_Inr dest: per_tile_variable_other)

lemma fill_tile_other:
  "fill_tile I mp vs A pf idx ds Variable = Inr ds' \<Longrightarrow> other \<noteq> Variable \<Longrightarrow>
     data_vars ds' other = data_vars ds other"
  by (auto simp: fill_tile_def bindE_eq_Inr dest: setpoint_other)

lemma fill_tiles_other:
  "fill_tiles I mp vs A pf idx vars ds = Inr ds' \<Longrightarrow> other \<notin> set vars \<Longrightarrow>
     data_vars ds' other = data_vars ds other"
  by (induction vars arbitrary: ds) (auto simp: bindE_eq_Inr dest: fill_tile_other)

lemma resolve_point_other:
  "resolve_point I IV mc (ds, m) idx = Inr (ds', m') \<Longrightarrow> other \<notin> set (per_tile mc) \<Longrightarrow>
     data_vars ds' other = data_vars ds other"
  by (auto simp: resolve_point_def bindE_eq_Inr dest: fill_tiles_other)

lemma resolve_points_other:
  "resolve_points I IV mc pts (ds, m) = Inr (ds', m') \<Longrightarrow> other \<notin> set (per_tile mc) \<Longrightarrow>
     data_vars ds' other = data_vars ds other"
  by (induction pts arbitrary: ds m) (auto simp: bindE_eq_Inr dest: resolve_point_other)

lemma add_land_fractions_Some:
  "add_land_fractions (Some G) ds = Inr ds' \<Longrightarrow>
     data_vars ds' ''FRACTIONS OF SURFACE TYPES'' = Some G \<and>
     data_vars ds' ''PREVIOUS YEAR SURF FRACTIONS (TILES)'' = Some G"
  by (auto simp: add_land_fractions_def bindE_eq_Inr setvar_Inr)

lemma prepare_mapping_lists [simp]:
  "per_cell (prepare_mapping n c) = cfg_per_cell c"
  "per_tile (prepare_mapping n c) = cfg_per_tile c"
  by (simp_all add: prepare_mapping_def Let_def)

subsection \<open>The land fractions come from a global\<close>

text \<open>
  C10. The two fraction variables are assigned from the global name \<open>NewVegetation\<close>,
  not from the parameter \<open>OutputVegetation\<close>: when the global is unbound, every call
  raises \<open>NameError\<close> (before the fill policy and any synthesis); when it is bound, the
  assignment stores the global's array under both names, and a run that succeeds returns
  it there whatever \<open>OutputVegetation\<close> was, unless the configuration lists one of the two
  names as a variable to remap.
\<close>

theorem fractions_from_global:
  "remap_vegetation None InputDataset InputVegetation OutputVegetation FillAll Config
     = Inl NameError
   \<and> (\<forall>NewVegetation ds ds'. add_land_fractions (Some NewVegetation) ds = Inr ds' \<longrightarrow>
         data_vars ds' ''FRACTIONS OF SURFACE TYPES'' = Some NewVegetation \<and>
         data_vars ds' ''PREVIOUS YEAR SURF FRACTIONS (TILES)'' = Some NewVegetation)
   \<and> (\<forall>NewVegetation OutDataset name.
         remap_vegetation (Some NewVegetation) InputDataset InputVegetation OutputVegetation
           FillAll Config = Inr OutDataset \<longrightarrow>
         name \<in> {''FRACTIONS OF SURFACE TYPES'', ''PREVIOUS YEAR SURF FRACTIONS (TILES)''} \<longrightarrow>
         name \<notin> set (cfg_per_cell Config @ cfg_per_tile Config) \<longrightarrow>
         data_vars OutDataset name = Some NewVegetation)"
proof (intro conjI allI impI)
  show "remap_vegetation None InputDataset InputVegetation OutputVegetation FillAll Config
     = Inl NameError"
    by (simp add: remap_vegetation_def Let_def add_land_fractions_def)
next
  fix G ds ds'
  assume "add_land_fractions (Some G) ds = Inr ds'"
  from add_land_fractions_Some [OF this]
  show "data_vars ds' ''FRACTIONS OF SURFACE TYPES'' = Some G"
    and "data_vars ds' ''PREVIOUS YEAR SURF FRACTIONS (TILES)'' = Some G"
    by simp_all
next
  fix G out name
  assume run: "remap_vegetation (Some G) InputDataset InputVegetation OutputVegetation
           FillAll Config = Inr out"
    and name: "name \<in> {''FRACTIONS OF SURFACE TYPES'', ''PREVIOUS YEAR SURF FRACTIONS (TILES)''}"
    and notin: "name \<notin> set (cfg_per_cell Config @ cfg_per_tile Config)"
  let ?mc = "prepare_mapping (n0 OutputVegetation) Config"
  from run obtain ds0 ds1 F E ds2 ds3 pts m0' m where
    a: "add_land_fractions (Some G) ds0 = Inr ds1" and
    c: "per_cell_loop InputDataset InputVegetation (n0 OutputVegetation) F E
          (cfg_per_cell Config) ds1 = Inr ds2" and
    t: "per_tile_loop InputDataset E (cfg_per_tile Config) ds2 = Inr ds3" and
    r: "resolve_points InputDataset InputVegetation ?mc pts (ds3, m0') = Inr (out, m)"
    by (auto simp: remap_vegetation_def Let_def bindE_eq_Inr)
  have "data_vars out name = data_vars ds3 name"
    using resolve_points_other [OF r] notin by simp
  also have "\<dots> = data_vars ds2 name"
    using per_tile_loop_other [OF t] notin by simp
  also have "\<dots> = data_vars ds1 name"
    using per_cell_loop_other [OF c] notin by simp
  also have "\<dots> = Some G"
    using add_land_fractions_Some [OF a] name by auto
  finally show "data_vars out name = Some G" .
qed

theorem fractions_from_global_witness:
  "remap_vegetation None example_dataset (array3 [[[Fin 0, Fin (1/2)]]])
     (array3 [[[Fin (1/2), Fin (1/2)]]]) False example_config = Inl NameError
   \<and> (\<exists>OutDataset.
         remap_vegetation (Some (array3 [[[Fin 1, Fin 1]]])) example_dataset
           (array3 [[[Fin 0, Fin (1/2)]]]) (array3 [[[Fin (1/2), Fin (1/2)]]]) False
           example_config = Inr OutDataset
         \<and> data_vars OutDataset ''FRACTIONS OF SURFACE TYPES''
             = Some (array3 [[[Fin 1, Fin 1]]])
         \<and> data_vars OutDataset ''FRACTIONS OF SURFACE TYPES''
             \<noteq> Some (array3 [[[Fin (1/2), Fin (1/2)]]]))"
proof -
  let ?G = "array3 [[[Fin 1, Fin 1 :: flt]]]"
  let ?OV = "array3 [[[Fin (1/2), Fin (1/2) :: flt]]]"
  let ?IV = "array3 [[[Fin 0, Fin (1/2) :: flt]]]"
  note inst = fractions_from_global [of example_dataset ?IV ?OV False example_config]
  obtain out where run:
    "remap_vegetation (Some ?G) example_dataset ?IV ?OV False example_config = Inr out"
    by (simp add: model_defs Let_def)
  have notin: "''FRACTIONS OF SURFACE TYPES''
      \<notin> set (cfg_per_cell example_config @ cfg_per_tile example_config)"
    by (simp add: example_config_def)
  from inst run notin have frac: "data_vars out ''FRACTIONS OF SURFACE TYPES'' = Some ?G"
    by blast
  have "el3 ?G 0 0 0 \<noteq> el3 ?OV 0 0 0"
    by (simp add: array3_def)
  then have "?G \<noteq> ?OV"
    by auto
  with inst run frac show ?thesis
    by auto
qed

subsection \<open>Search masks only grow\<close>

lemma py_index_in_range: "0 \<le> x \<Longrightarrow> x < int n \<Longrightarrow> py_index n x = Inr (nat x)"
  by (simp add: py_index_def)

lemma py_index_Inr: "py_index n x = Inr i \<Longrightarrow> i < n"
  by (auto simp: py_index_def split: if_splits)

lemma py_index_total: "- int n \<le> x \<Longrightarrow> x < int n \<Longrightarrow> \<exists>i<n. py_index n x = Inr i"
  by (auto simp: py_index_def)

lemma np_clip_in_range: "0 < n \<Longrightarrow> 0 \<le> np_clip x 0 (int n - 1) \<and> np_clip x 0 (int n - 1) < int n"
  by (auto simp: np_clip_def)

lemma np_mod_in_range: "0 < n \<Longrightarrow> 0 \<le> np_mod x (int n) \<and> np_mod x (int n) < int n"
  by (auto simp: np_mod_def)

text \<open>A step that keeps the shape and only adds marks.\<close>

lemma set_cell_grows:
  assumes "0 \<le> la" "la < int (m0 m)" "0 \<le> lo" "lo < int (m1 m)"
  shows "\<exists>m'. set_cell m la lo = Inr m' \<and> m0 m' = m0 m \<and> m1 m' = m1 m
           \<and> (\<forall>a b. el2 m a b \<longrightarrow> el2 m' a b) \<and> el2 m' (nat la) (nat lo)"
  using assms by (simp add: set_cell_def py_index_in_range)

lemma set_row_grows:
  assumes "0 \<le> la" "la < int (m0 m)"
  shows "\<exists>m'. set_row m la = Inr m' \<and> m0 m' = m0 m \<and> m1 m' = m1 m
           \<and> (\<forall>a b. el2 m a b \<longrightarrow> el2 m' a b)"
  using assms by (simp add: set_row_def py_index_in_range)

lemma set_cells_grows:
  assumes "\<forall>(la, lo) \<in> set ps. 0 \<le> la \<and> la < int (m0 m) \<and> 0 \<le> lo \<and> lo < int (m1 m)"
  shows "\<exists>m'. set_cells m ps = Inr m' \<and> m0 m' = m0 m \<and> m1 m' = m1 m
           \<and> (\<forall>a b. el2 m a b \<longrightarrow> el2 m' a b)"
  using assms
proof (induction ps arbitrary: m)
  case Nil
  show ?case by simp
next
  case (Cons p ps)
  obtain la lo where p: "p = (la, lo)" by (cases p)
  with Cons.prems obtain m1' where
    s: "set_cell m la lo = Inr m1'" "m0 m1' = m0 m" "m1 m1' = m1 m"
       "\<forall>a b. el2 m a b \<longrightarrow> el2 m1' a b"
    using set_cell_grows [of la m lo] by auto
  from Cons.prems s have "\<forall>(la, lo) \<in> set ps.
      0 \<le> la \<and> la < int (m0 m1') \<and> 0 \<le> lo \<and> lo < int (m1 m1')"
    by auto
  from Cons.IH [OF this] s p show ?case
    by auto
qed

lemma set_rows_grows:
  assumes "\<forall>la \<in> set ps. 0 \<le> la \<and> la < int (m0 m)"
  shows "\<exists>m'. set_rows m ps = Inr m' \<and> m0 m' = m0 m \<and> m1 m' = m1 m
           \<and> (\<forall>a b. el2 m a b \<longrightarrow> el2 m' a b)"
  using assms
proof (induction ps arbitrary: m)
  case Nil
  show ?case by simp
next
  case (Cons la ps)
  with set_row_grows [of la m] obtain m1' where
    s: "set_row m la = Inr m1'" "m0 m1' = m0 m" "m1 m1' = m1 m"
       "\<forall>a b. el2 m a b \<longrightarrow> el2 m1' a b"
    by auto
  from Cons.prems s have "\<forall>la \<in> set ps. 0 \<le> la \<and> la < int (m0 m1')"
    by auto
  from Cons.IH [OF this] s show ?case
    by auto
qed


lemma modify_mask_for_cell_grows:
  assumes "Lat < m0 m" "Lon < m1 m"
  shows "\<exists>m'. modify_mask_for_cell m P (int Lon, int Lat) = Inr m' \<and> m0 m' = m0 m
           \<and> m1 m' = m1 m \<and> (\<forall>a b. el2 m a b \<longrightarrow> el2 m' a b)"
  using set_cell_grows [of "int Lat" m "int Lon"] assms by auto

lemma modify_mask_for_nearest_grows:
  assumes "Lat < m0 m" "Lon < m1 m"
  shows "\<exists>m'. modify_mask_for_nearest m (Some r) (int Lon, int Lat) = Inr m' \<and> m0 m' = m0 m
           \<and> m1 m' = m1 m \<and> (\<forall>a b. el2 m a b \<longrightarrow> el2 m' a b)"
proof -
  from assms have pos: "0 < m0 m" "0 < m1 m" by auto
  show ?thesis
    unfolding modify_mask_for_nearest.simps Let_def
    by (rule set_cells_grows) (use np_clip_in_range [OF pos(1)] np_mod_in_range [OF pos(2)] in auto)
qed

lemma modify_mask_for_latitude_band_grows:
  assumes "Lat < m0 m"
  shows "\<exists>m'. modify_mask_for_latitude_band m (Some b) (int Lon, int Lat) = Inr m'
           \<and> m0 m' = m0 m \<and> m1 m' = m1 m \<and> (\<forall>a b. el2 m a b \<longrightarrow> el2 m' a b)"
proof -
  from assms have pos: "0 < m0 m" by auto
  show ?thesis
    unfolding modify_mask_for_latitude_band.simps Let_def
    by (rule set_rows_grows) (use np_clip_in_range [OF pos] in auto)
qed

lemma modify_mask_for_global_grows:
  "\<exists>m'. modify_mask_for_global m P c = Inr m' \<and> m0 m' = m0 m
           \<and> m1 m' = m1 m \<and> (\<forall>a b. el2 m a b \<longrightarrow> el2 m' a b)"
  by (simp add: modify_mask_for_global_def)

lemma stages_grow:
  assumes "(Method, Param, MinPoints) \<in> set (stages mc)" "Lat < m0 m" "Lon < m1 m"
  shows "\<exists>m'. Method m Param (int Lon, int Lat) = Inr m' \<and> m0 m' = m0 m
           \<and> m1 m' = m1 m \<and> (\<forall>a b. el2 m a b \<longrightarrow> el2 m' a b)"
proof -
  from assms(1) consider
      "Method = modify_mask_for_cell"
    | r where "Method = modify_mask_for_nearest" "Param = Some r"
    | b where "Method = modify_mask_for_latitude_band" "Param = Some b"
    | "Method = modify_mask_for_global"
    by (auto simp: stages_def)
  then show ?thesis
  proof cases
    case 1
    with modify_mask_for_cell_grows [OF assms(2,3)] show ?thesis by simp
  next
    case 2
    with modify_mask_for_nearest_grows [OF assms(2,3)] show ?thesis by simp
  next
    case 3
    with modify_mask_for_latitude_band_grows [OF assms(2)] show ?thesis by simp
  next
    case 4
    with modify_mask_for_global_grows show ?thesis by simp
  qed
qed

lemma apply_methods_grows:
  assumes "set ms \<subseteq> set (stages mc)" "Lat < m0 m" "Lon < m1 m"
  shows "\<exists>m'. apply_methods ms (int Lon, int Lat) m = Inr m' \<and> m0 m' = m0 m
           \<and> m1 m' = m1 m \<and> (\<forall>a b. el2 m a b \<longrightarrow> el2 m' a b)"
  using assms
proof (induction ms arbitrary: m)
  case Nil
  show ?case by simp
next
  case (Cons s ms)
  obtain Method Param MinPoints where s: "s = (Method, Param, MinPoints)"
    by (cases s)
  with Cons.prems have "(Method, Param, MinPoints) \<in> set (stages mc)" by simp
  from stages_grow [OF this Cons.prems(2,3)] obtain m1' where
    st: "Method m Param (int Lon, int Lat) = Inr m1'" "m0 m1' = m0 m" "m1 m1' = m1 m"
        "\<forall>a b. el2 m a b \<longrightarrow> el2 m1' a b"
    by auto
  from Cons.prems st have "set ms \<subseteq> set (stages mc)" "Lat < m0 m1'" "Lon < m1 m1'"
    by auto
  from Cons.IH [OF this] s st show ?case
    by auto
qed

lemma apply_methods_append:
  "apply_methods (xs @ ys) c m = bindE (apply_methods xs c m) (apply_methods ys c)"
proof (induction xs arbitrary: m)
  case Nil
  show ?case by simp
next
  case (Cons s xs)
  obtain Method Param MinPoints where s: "s = (Method, Param, MinPoints)"
    by (cases s)
  show ?case
    by (cases "Method m Param c") (simp_all add: s Cons.IH)
qed

lemma filter_length_mono:
  "(\<And>x. x \<in> set xs \<Longrightarrow> P x \<Longrightarrow> Q x) \<Longrightarrow> length (filter P xs) \<le> length (filter Q xs)"
  by (induction xs) auto

lemma count_true_mono:
  assumes "m0 t' = m0 t" "m1 t' = m1 t" "\<forall>a b. el2 t a b \<longrightarrow> el2 t' a b"
  shows "count_true t \<le> count_true t'"
  using assms by (auto simp: count_true_def indices2_def intro!: filter_length_mono)

lemma true_cells_mono:
  assumes "m0 t' = m0 t" "m1 t' = m1 t" "\<forall>a b. el2 t a b \<longrightarrow> el2 t' a b"
  shows "true_cells t \<subseteq> true_cells t'"
  using assms by (auto simp: true_cells_def indices2_def)

lemma zip2_Inr:
  "zip2 f a b = Inr c \<longleftrightarrow>
     (\<exists>r k. bdim (m0 a) (m0 b) = Inr r \<and> bdim (m1 a) (m1 b) = Inr k \<and>
        c = \<lparr>m0 = r, m1 = k,
             el2 = (\<lambda>i j. f (el2 a (bidx (m0 a) i) (bidx (m1 a) j))
                             (el2 b (bidx (m0 b) i) (bidx (m1 b) j)))\<rparr>)"
  by (auto simp: zip2_def bindE_eq_Inr)

lemma TileSearchMap_mono:
  assumes "m0 m' = m0 m" "m1 m' = m1 m" "\<forall>a b. el2 m a b \<longrightarrow> el2 m' a b"
    and "TileSearchMap m IV v = Inr t"
  shows "\<exists>t'. TileSearchMap m' IV v = Inr t' \<and> m0 t' = m0 t \<and> m1 t' = m1 t
           \<and> (\<forall>a b. el2 t a b \<longrightarrow> el2 t' a b)"
  using assms
  by (auto simp: TileSearchMap_def bindE_eq_Inr zip2_Inr map2_def)

lemma find_active_tiles_mono:
  assumes "m0 m' = m0 m" "m1 m' = m1 m" "\<forall>a b. el2 m a b \<longrightarrow> el2 m' a b"
    and "find_active_tiles m IV vs = Inr A"
  shows "\<exists>A'. find_active_tiles m' IV vs = Inr A' \<and> points_found A \<le> points_found A'"
  using assms(4)
proof (induction vs arbitrary: A)
  case Nil
  then show ?case by simp
next
  case (Cons v vs)
  then obtain t ts where t: "TileSearchMap m IV v = Inr t"
    and ts: "find_active_tiles m IV vs = Inr ts" and A: "A = t # ts"
    by (auto simp: bindE_eq_Inr)
  from TileSearchMap_mono [OF assms(1-3) t] obtain t' where
    t': "TileSearchMap m' IV v = Inr t'" "count_true t \<le> count_true t'"
    by (auto intro: count_true_mono)
  from Cons.IH [OF ts] t' A show ?case
    by (auto simp: points_found_def)
qed

text \<open>
  C2. In the episode of any point \<open>(OutVeg, Lat, Lon)\<close> of the grid, the search mask after
  \<open>k\<close> stages of the fixed order (cell, radius, band, global) exists, so does the mask
  after one stage more, the true cells of the former are among those of the latter, and
  the point count of the active tiles found under the latter is no smaller than under
  the former.
\<close>

theorem search_mask_grows:
  assumes "Lat < nLat" "Lon < nLon"
  shows "\<exists>mk mk'.
      apply_methods (take k (stages MappingConf)) (int Lon, int Lat) (full2 nLat nLon False)
        = Inr mk
    \<and> apply_methods (take (Suc k) (stages MappingConf)) (int Lon, int Lat)
        (full2 nLat nLon False) = Inr mk'
    \<and> true_cells mk \<subseteq> true_cells mk'
    \<and> (\<forall>ActiveTileMasks.
          find_active_tiles mk InputVegetation VegTypes = Inr ActiveTileMasks \<longrightarrow>
          (\<exists>ActiveTileMasks'.
             find_active_tiles mk' InputVegetation VegTypes = Inr ActiveTileMasks' \<and>
             points_found ActiveTileMasks \<le> points_found ActiveTileMasks'))"
proof -
  let ?c = "(int Lon, int Lat)"
  let ?sts = "stages MappingConf"
  let ?init = "full2 nLat nLon False"
  have init: "Lat < m0 ?init" "Lon < m1 ?init"
    using assms by (simp_all add: full2_def)
  have "set (take k ?sts) \<subseteq> set ?sts"
    by (rule set_take_subset)
  from apply_methods_grows [OF this init] obtain mk where
    mk: "apply_methods (take k ?sts) ?c ?init = Inr mk" "m0 mk = m0 ?init" "m1 mk = m1 ?init"
    by auto
  have "set (take (Suc 0) (drop k ?sts)) \<subseteq> set ?sts"
    by (meson set_take_subset set_drop_subset subset_trans)
  moreover have "Lat < m0 mk" "Lon < m1 mk"
    using mk init by simp_all
  ultimately obtain mk' where
    mk': "apply_methods (take (Suc 0) (drop k ?sts)) ?c mk = Inr mk'" "m0 mk' = m0 mk"
         "m1 mk' = m1 mk" "\<forall>a b. el2 mk a b \<longrightarrow> el2 mk' a b"
    using apply_methods_grows by blast
  have "take (Suc k) ?sts = take k ?sts @ take (Suc 0) (drop k ?sts)"
    using take_add [of k "Suc 0" ?sts] by simp
  then have next_mask: "apply_methods (take (Suc k) ?sts) ?c ?init = Inr mk'"
    by (simp add: apply_methods_append mk(1) mk'(1))
  have cells: "true_cells mk \<subseteq> true_cells mk'"
    by (rule true_cells_mono) (use mk' in auto)
  have points: "\<exists>A'. find_active_tiles mk' InputVegetation VegTypes = Inr A'
                  \<and> points_found A \<le> points_found A'"
    if "find_active_tiles mk InputVegetation VegTypes = Inr A" for A
    by (rule find_active_tiles_mono [OF mk'(2,3,4) that])
  from mk(1) next_mask cells points show ?thesis
    by blast
qed

theorem search_mask_grows_witness:
  "\<exists>mk mk' A A'.
      apply_methods (take 1 (stages (prepare_mapping 1 example_config))) (0, 0)
        (full2 1 2 False) = Inr mk
    \<and> apply_methods (take 2 (stages (prepare_mapping 1 example_config))) (0, 0)
        (full2 1 2 False) = Inr mk'
    \<and> (0, 1) \<notin> true_cells mk \<and> (0, 1) \<in> true_cells mk'
    \<and> true_cells mk \<subseteq> true_cells mk'
    \<and> find_active_tiles mk (array3 [[[Fin 0, Fin (1/2)]]]) [0] = Inr A
    \<and> find_active_tiles mk' (array3 [[[Fin 0, Fin (1/2)]]]) [0] = Inr A'
    \<and> points_found A = 0 \<and> points_found A' = 1
    \<and> points_found A \<le> points_found A'"
proof -
  let ?mc = "prepare_mapping 1 example_config"
  let ?iv = "array3 [[[Fin 0, Fin (1/2)]]]"
  have pre: "(0::nat) < 1" "(0::nat) < 2"
    by simp_all
  from search_mask_grows [OF pre, of "Suc 0" ?mc ?iv "[0]"] obtain mk mk' where
    mk: "apply_methods (take (Suc 0) (stages ?mc)) (0, 0) (full2 1 2 False) = Inr mk"
    and mk': "apply_methods (take (Suc (Suc 0)) (stages ?mc)) (0, 0) (full2 1 2 False) = Inr mk'"
    and sub: "true_cells mk \<subseteq> true_cells mk'"
    and pts: "\<forall>A. find_active_tiles mk ?iv [0] = Inr A \<longrightarrow>
               (\<exists>A'. find_active_tiles mk' ?iv [0] = Inr A' \<and> points_found A \<le> points_found A')"
    by auto
  from mk obtain A where A: "find_active_tiles mk ?iv [0] = Inr A" "points_found A = 0"
    "(0, 1) \<notin> true_cells mk"
    by (auto simp: model_defs true_cells_def)
  from mk' obtain A' where A': "find_active_tiles mk' ?iv [0] = Inr A'" "points_found A' = 1"
    "(0, 1) \<in> true_cells mk'"
    by (auto simp: model_defs true_cells_def)
  from pts A A' have "points_found A \<le> points_found A'"
    by simp
  with mk mk' sub A A' show ?thesis
    by (simp add: numeral_2_eq_2)
qed

subsection \<open>The active tile filter\<close>

lemma TileSearchMap_same_shape:
  assumes "shape2 SearchMask = (n1 IV, n2 IV)" "py_index (n0 IV) v = Inr w"
  shows "\<exists>t. TileSearchMap SearchMask IV v = Inr t \<and> shape2 t = shape2 SearchMask
           \<and> (\<forall>i<m0 SearchMask. \<forall>j<m1 SearchMask.
                 el2 t i j = (el2 SearchMask i j \<and> \<not> isnan (el3 IV w i j) \<and> gt0 (el3 IV w i j)))"
  using assms
  by (auto simp: TileSearchMap_def plane_def zip2_def map2_def shape2_def bidx_in_range)

lemma find_active_tiles_in_range:
  assumes "shape2 SearchMask = (n1 InputVegetation, n2 InputVegetation)"
    and "\<forall>v \<in> set VegTypes. - int (n0 InputVegetation) \<le> v \<and> v < int (n0 InputVegetation)"
  shows "\<exists>ActiveTileMasks.
      find_active_tiles SearchMask InputVegetation VegTypes = Inr ActiveTileMasks
    \<and> length ActiveTileMasks = length VegTypes
    \<and> (\<forall>n<length VegTypes. \<exists>w.
          py_index (n0 InputVegetation) (VegTypes ! n) = Inr w
        \<and> shape2 (ActiveTileMasks ! n) = shape2 SearchMask
        \<and> (\<forall>i<m0 SearchMask. \<forall>j<m1 SearchMask.
              el2 (ActiveTileMasks ! n) i j =
                (el2 SearchMask i j \<and> \<not> isnan (el3 InputVegetation w i j)
                   \<and> gt0 (el3 InputVegetation w i j))))"
  using assms(2)
proof (induction VegTypes)
  case Nil
  show ?case by simp
next
  case (Cons v vs)
  then obtain w where w: "py_index (n0 InputVegetation) v = Inr w"
    using py_index_total [of "n0 InputVegetation" v] by auto
  from TileSearchMap_same_shape [OF assms(1) w] obtain t where
    t: "TileSearchMap SearchMask InputVegetation v = Inr t" "shape2 t = shape2 SearchMask"
       "\<forall>i<m0 SearchMask. \<forall>j<m1 SearchMask.
           el2 t i j = (el2 SearchMask i j \<and> \<not> isnan (el3 InputVegetation w i j)
                          \<and> gt0 (el3 InputVegetation w i j))"
    by blast
  from Cons obtain ts where
    ts: "find_active_tiles SearchMask InputVegetation vs = Inr ts" "length ts = length vs"
      "\<forall>n<length vs. \<exists>w.
          py_index (n0 InputVegetation) (vs ! n) = Inr w
        \<and> shape2 (ts ! n) = shape2 SearchMask
        \<and> (\<forall>i<m0 SearchMask. \<forall>j<m1 SearchMask.
              el2 (ts ! n) i j =
                (el2 SearchMask i j \<and> \<not> isnan (el3 InputVegetation w i j)
                   \<and> gt0 (el3 InputVegetation w i j)))"
    by auto
  have "\<exists>w. py_index (n0 InputVegetation) ((v # vs) ! n) = Inr w
        \<and> shape2 ((t # ts) ! n) = shape2 SearchMask
        \<and> (\<forall>i<m0 SearchMask. \<forall>j<m1 SearchMask.
              el2 ((t # ts) ! n) i j =
                (el2 SearchMask i j \<and> \<not> isnan (el3 InputVegetation w i j)
                   \<and> gt0 (el3 InputVegetation w i j)))"
    if "n < length (v # vs)" for n
  proof (cases n)
    case 0
    with w t show ?thesis by auto
  next
    case (Suc n')
    with that ts(3) show ?thesis by auto
  qed
  with t(1) ts(1,2) show ?case
    by auto
qed




subsection \<open>What the staged search returns\<close>

lemma find_active_tiles_length:
  "find_active_tiles m IV vs = Inr A \<Longrightarrow> length A = length vs"
  by (induction vs arbitrary: A) (auto simp: bindE_eq_Inr)

lemma search_stages_found:
  assumes "search_stages sts IV VM (OutVeg, Lat, Lon) m found = Inr (m', A, pf)"
    and "\<And>A0 pf0. found = Some (A0, pf0) \<Longrightarrow>
           \<exists>vs. VM (int OutVeg) = Some vs \<and> find_active_tiles m IV vs = Inr A0
                \<and> pf0 = points_found A0"
  shows "\<exists>vs. VM (int OutVeg) = Some vs \<and> find_active_tiles m' IV vs = Inr A
              \<and> pf = points_found A"
  using assms
proof (induction sts arbitrary: m found)
  case Nil
  then show ?case by (auto split: option.splits)
next
  case (Cons s sts)
  obtain Method Param MinPoints where s: "s = (Method, Param, MinPoints)"
    by (cases s)
  from Cons.prems(1) obtain m1' vs A1 where
    st: "Method m Param (int Lon, int Lat) = Inr m1'" "VM (int OutVeg) = Some vs"
        "find_active_tiles m1' IV vs = Inr A1"
    and rest: "(if points_found A1 \<ge> MinPoints
       then Inr (m1', A1, points_found A1)
       else search_stages sts IV VM (OutVeg, Lat, Lon) m1' (Some (A1, points_found A1)))
         = Inr (m', A, pf)"
    by (auto simp: s bindE_eq_Inr Let_def split: option.splits)
  show ?case
  proof (cases "points_found A1 \<ge> MinPoints")
    case True
    with rest st show ?thesis by auto
  next
    case False
    with rest have r:
      "search_stages sts IV VM (OutVeg, Lat, Lon) m1' (Some (A1, points_found A1))
         = Inr (m', A, pf)"
      by simp
    show ?thesis
      by (rule Cons.IH [OF r]) (use st in auto)
  qed
qed

lemma search_stages_shape:
  assumes "search_stages sts IV VM (OutVeg, Lat, Lon) m found = Inr (m', A, pf)"
    and "set sts \<subseteq> set (stages mc)" "Lat < m0 m" "Lon < m1 m"
  shows "m0 m' = m0 m \<and> m1 m' = m1 m"
  using assms
proof (induction sts arbitrary: m found)
  case Nil
  then show ?case by (auto split: option.splits)
next
  case (Cons s sts)
  obtain Method Param MinPoints where s: "s = (Method, Param, MinPoints)"
    by (cases s)
  with Cons.prems have "(Method, Param, MinPoints) \<in> set (stages mc)" by simp
  from stages_grow [OF this Cons.prems(3,4)] obtain m1' where
    st: "Method m Param (int Lon, int Lat) = Inr m1'" "m0 m1' = m0 m" "m1 m1' = m1 m"
    by auto
  from Cons.prems(1) st obtain A1 where
    rest: "(if points_found A1 \<ge> MinPoints
       then Inr (m1', A1, points_found A1)
       else search_stages sts IV VM (OutVeg, Lat, Lon) m1' (Some (A1, points_found A1)))
              = Inr (m', A, pf)"
    by (auto simp: s bindE_eq_Inr Let_def split: option.splits)
  show ?case
  proof (cases "points_found A1 \<ge> MinPoints")
    case True
    with rest st show ?thesis by auto
  next
    case False
    with rest have r:
      "search_stages sts IV VM (OutVeg, Lat, Lon) m1' (Some (A1, points_found A1))
         = Inr (m', A, pf)"
      by simp
    from Cons.IH [OF r] Cons.prems st show ?thesis
      by auto
  qed
qed

lemma staged_search_result:
  assumes "staged_search mc IV nLat nLon (OutVeg, Lat, Lon) = Inr (m', A, pf)"
    and "Lat < nLat" "Lon < nLon"
  shows "\<exists>vs. vegetation_map mc (int OutVeg) = Some vs \<and> find_active_tiles m' IV vs = Inr A
           \<and> length A = length vs \<and> pf = points_found A \<and> m0 m' = nLat \<and> m1 m' = nLon"
proof -
  from assms(1) have s: "search_stages (stages mc) IV (vegetation_map mc) (OutVeg, Lat, Lon)
       (full2 nLat nLon False) None = Inr (m', A, pf)"
    by (simp add: staged_search_def)
  from search_stages_found [OF s] obtain vs where
    vs: "vegetation_map mc (int OutVeg) = Some vs" "find_active_tiles m' IV vs = Inr A"
        "pf = points_found A"
    by auto
  have "m0 m' = m0 (full2 nLat nLon False) \<and> m1 m' = m1 (full2 nLat nLon False)"
    by (rule search_stages_shape [OF s]) (use assms in \<open>auto simp: full2_def\<close>)
  with vs find_active_tiles_length [OF vs(2)] show ?thesis
    by (auto simp: full2_def)
qed

text \<open>The total the inner loop accumulates is the sum over the matched pairs.\<close>

lemma masked_sum_pairs:
  assumes "plane Var InVeg = Inr VarData" "masked_sum VarData TileMask = Inr x"
  shows "x = sum_list (map (value_at Var)
               (map (Pair InVeg) (filter (\<lambda>(i, j). el2 TileMask i j) (indices2 TileMask))))"
proof -
  from assms(1) obtain v where v: "py_index (n0 Var) InVeg = Inr v" "el2 VarData = el3 Var v"
    by (auto simp: plane_def bindE_eq_Inr)
  have "(\<lambda>(i, j). el2 VarData i j) = value_at Var \<circ> Pair InVeg"
    by (auto simp: value_at_def v)
  with assms(2) show ?thesis
    by (auto simp: masked_sum_def split: if_splits)
qed

lemma total_over_tiles_pairs:
  assumes "total_over_tiles ID ds Variable zs T = Inr T'" "to_numpy ID ds Variable = Inr Var"
  shows "T' = T + sum_list (map (value_at Var)
            (concat (map (\<lambda>(InVeg, TileMask).
                map (Pair InVeg) (filter (\<lambda>(i, j). el2 TileMask i j) (indices2 TileMask))) zs)))"
  using assms(1)
proof (induction zs arbitrary: T)
  case Nil
  then show ?case by simp
next
  case (Cons z zs)
  obtain InVeg TileMask where z: "z = (InVeg, TileMask)"
    by (cases z)
  from Cons.prems assms(2) obtain VarData x where
    p: "plane Var InVeg = Inr VarData" "masked_sum VarData TileMask = Inr x"
    and r: "total_over_tiles ID ds Variable zs (T + x) = Inr T'"
    by (auto simp: z bindE_eq_Inr)
  from Cons.IH [OF r] masked_sum_pairs [OF p] show ?case
    by (simp add: z add.assoc)
qed

lemma points_found_pairs:
  "length vs = length A \<Longrightarrow> points_found A = int (length (matched_pairs vs A))"
proof (induction vs A rule: list_induct2)
  case Nil
  show ?case by (simp add: points_found_def matched_pairs_def)
next
  case (Cons v vs a A)
  then show ?case
    by (simp add: points_found_def matched_pairs_def count_true_def)
qed

text \<open>
  The value of lines 331 to 352 is the pooled mean over the array the input's variable
  is when the point is reached.
\<close>

lemma tile_value_mean:
  assumes "tile_value ID ds mp vs A pf Variable = Inr x" "\<not> pf < mp"
    and "to_numpy ID ds Variable = Inr Var"
    and "length A = length vs" "pf = points_found A"
  shows "x = spec_pooled_mean Var (matched_pairs vs A)"
proof -
  from assms(1,2) obtain T where
    T: "total_over_tiles ID ds Variable (zip vs A) 0 = Inr T"
    and d: "divide T pf (zip vs A = []) = Inr x"
    by (auto simp: tile_value_def bindE_eq_Inr)
  from total_over_tiles_pairs [OF T assms(3)]
  have T': "T = sum_list (map (value_at Var) (matched_pairs vs A))"
    by (simp add: matched_pairs_def)
  from assms(4,5) have pf: "pf = int (length (matched_pairs vs A))"
    by (simp add: points_found_pairs)
  show ?thesis
  proof (cases "matched_pairs vs A = []")
    case True
    with d pf show ?thesis
      by (auto simp: divide_def spec_pooled_mean_def split: if_splits)
  next
    case False
    with d pf T' show ?thesis
      by (auto simp: divide_def spec_pooled_mean_def split: if_splits flt.splits)
  qed
qed

subsection \<open>What the loop over the points writes\<close>

lemma setpoint_var_at:
  assumes "setpoint ds name idx x = Inr ds'"
  shows "var_at ds' name idx = Some x"
    and "q \<noteq> idx \<Longrightarrow> var_at ds' n q = var_at ds n q"
    and "n \<noteq> name \<Longrightarrow> var_at ds' n q = var_at ds n q"
  using assms
  by (cases idx; cases q;
      auto simp: setpoint_def var_at_def bindE_eq_Inr getitem_def
           split: if_splits option.splits)+

lemma fill_tile_var_at:
  assumes "fill_tile ID mp vs A pf idx ds V = Inr ds'"
  shows "\<exists>x. tile_value ID ds mp vs A pf V = Inr x \<and> var_at ds' V idx = Some x"
    and "q \<noteq> idx \<Longrightarrow> var_at ds' n q = var_at ds n q"
    and "n \<noteq> V \<Longrightarrow> var_at ds' n q = var_at ds n q"
proof -
  from assms obtain x where tv: "tile_value ID ds mp vs A pf V = Inr x"
    and sp: "setpoint ds V idx x = Inr ds'"
    by (auto simp: fill_tile_def bindE_eq_Inr)
  from tv setpoint_var_at(1) [OF sp]
  show "\<exists>x. tile_value ID ds mp vs A pf V = Inr x \<and> var_at ds' V idx = Some x"
    by simp
  show "q \<noteq> idx \<Longrightarrow> var_at ds' n q = var_at ds n q"
    by (rule setpoint_var_at(2) [OF sp])
  show "n \<noteq> V \<Longrightarrow> var_at ds' n q = var_at ds n q"
    by (rule setpoint_var_at(3) [OF sp])
qed

text \<open>
  Each per-tile variable ends with the value computed for it from the dataset \<open>ds0\<close> as
  it stood at the variable's turn.
\<close>

lemma fill_tiles_var_at:
  assumes "fill_tiles ID mp vs A pf idx vars ds = Inr ds'"
  shows "(\<forall>V \<in> set vars. \<exists>ds0 x. tile_value ID ds0 mp vs A pf V = Inr x
              \<and> var_at ds' V idx = Some x)
       \<and> (\<forall>n q. q \<noteq> idx \<longrightarrow> var_at ds' n q = var_at ds n q)
       \<and> (\<forall>n q. n \<notin> set vars \<longrightarrow> var_at ds' n q = var_at ds n q)"
  using assms
proof (induction vars arbitrary: ds)
  case Nil
  then show ?case by simp
next
  case (Cons V vars)
  then obtain ds1 where
    one: "fill_tile ID mp vs A pf idx ds V = Inr ds1"
    and rest: "fill_tiles ID mp vs A pf idx vars ds1 = Inr ds'"
    by (auto simp: bindE_eq_Inr)
  note IH = Cons.IH [OF rest]
  note ft = fill_tile_var_at [OF one]
  have "\<exists>ds0 x. tile_value ID ds0 mp vs A pf V = Inr x \<and> var_at ds' V idx = Some x"
  proof (cases "V \<in> set vars")
    case True
    with IH show ?thesis by blast
  next
    case False
    with IH have "var_at ds' V idx = var_at ds1 V idx" by blast
    with ft(1) show ?thesis by auto
  qed
  moreover have "\<forall>n q. q \<noteq> idx \<longrightarrow> var_at ds' n q = var_at ds n q"
    using IH ft(2) by simp
  moreover have "\<forall>n q. n \<notin> set (V # vars) \<longrightarrow> var_at ds' n q = var_at ds n q"
    using IH ft(3) by simp
  ultimately show ?case
    using IH by auto
qed

lemma resolve_point_var_at:
  assumes "resolve_point ID IV mc (ds, full2 nLat nLon False) (OutVeg, Lat, Lon) = Inr (ds', m')"
    and "Lat < nLat" "Lon < nLon"
  shows "m' = full2 nLat nLon False
       \<and> (\<forall>V \<in> set (per_tile mc). \<exists>ds0 x.
             episode_value ID ds0 IV mc nLat nLon (OutVeg, Lat, Lon) V = Inr x
           \<and> var_at ds' V (OutVeg, Lat, Lon) = Some x)
       \<and> (\<forall>n q. q \<noteq> (OutVeg, Lat, Lon) \<longrightarrow> var_at ds' n q = var_at ds n q)"
proof -
  let ?idx = "(OutVeg, Lat, Lon)"
  from assms(1) obtain sm A pf vs where
    s: "staged_search mc IV nLat nLon ?idx = Inr (sm, A, pf)"
    and vs: "vegetation_map mc (int OutVeg) = Some vs"
    and f: "fill_tiles ID (minimum_points mc) vs A pf ?idx (per_tile mc) ds = Inr ds'"
    and m': "m' = sm\<lparr>el2 := (\<lambda>_ _. False)\<rparr>"
    by (auto simp: resolve_point_def staged_search_def bindE_eq_Inr split: option.splits)
  from staged_search_result [OF s assms(2,3)] have "m0 sm = nLat" "m1 sm = nLon"
    by auto
  with m' have "m' = full2 nLat nLon False"
    by (cases sm) (simp add: full2_def)
  moreover have "episode_value ID ds0 IV mc nLat nLon ?idx V
      = tile_value ID ds0 (minimum_points mc) vs A pf V" for V ds0
    by (simp add: episode_value_def s vs)
  ultimately show ?thesis
    using fill_tiles_var_at [OF f] by simp
qed

lemma resolve_points_var_at:
  assumes "resolve_points ID IV mc pts (ds, full2 nLat nLon False) = Inr (ds', m')"
    and "\<forall>(OutVeg, Lat, Lon) \<in> set pts. Lat < nLat \<and> Lon < nLon"
    and "distinct pts"
  shows "(\<forall>p \<in> set pts. \<forall>V \<in> set (per_tile mc). \<exists>ds0 x.
             episode_value ID ds0 IV mc nLat nLon p V = Inr x \<and> var_at ds' V p = Some x)
       \<and> (\<forall>n q. q \<notin> set pts \<longrightarrow> var_at ds' n q = var_at ds n q)"
  using assms
proof (induction pts arbitrary: ds)
  case Nil
  then show ?case by simp
next
  case (Cons p pts)
  obtain OutVeg Lat Lon where p: "p = (OutVeg, Lat, Lon)"
    by (cases p)
  from Cons.prems(1) obtain ds1 m1' where
    one: "resolve_point ID IV mc (ds, full2 nLat nLon False) (OutVeg, Lat, Lon) = Inr (ds1, m1')"
    and rest: "resolve_points ID IV mc pts (ds1, m1') = Inr (ds', m')"
    by (auto simp: bindE_eq_Inr p)
  from Cons.prems(2) p have rng: "Lat < nLat" "Lon < nLon"
    by auto
  note rp = resolve_point_var_at [OF one rng]
  from rp rest have rest': "resolve_points ID IV mc pts (ds1, full2 nLat nLon False) = Inr (ds', m')"
    by simp
  from Cons.prems have "\<forall>(OutVeg, Lat, Lon) \<in> set pts. Lat < nLat \<and> Lon < nLon" "distinct pts"
    by auto
  note IH = Cons.IH [OF rest' this]
  from Cons.prems(3) have "p \<notin> set pts"
    by simp
  with IH have "var_at ds' V p = var_at ds1 V p" for V
    by blast
  with rp p have here: "\<forall>V \<in> set (per_tile mc). \<exists>ds0 x.
      episode_value ID ds0 IV mc nLat nLon p V = Inr x \<and> var_at ds' V p = Some x"
    by simp
  have frame: "\<forall>n q. q \<notin> set (p # pts) \<longrightarrow> var_at ds' n q = var_at ds n q"
    using IH rp p by simp
  from here IH frame show ?case
    by auto
qed

lemma indices3_set: "(i, j, k) \<in> set (indices3 a) \<longleftrightarrow> i < n0 a \<and> j < n1 a \<and> k < n2 a"
  by (auto simp: indices3_def)

lemma indices3_distinct: "distinct (indices3 a)"
  by (simp add: indices3_def distinct_product)

lemma ndenumerate_set:
  "(i, j, k) \<in> set (ndenumerate a msk) \<longleftrightarrow> i < n0 a \<and> j < n1 a \<and> k < n2 a \<and> \<not> el3 msk i j k"
  by (auto simp: ndenumerate_def indices3_set)

lemma ndenumerate_distinct: "distinct (ndenumerate a msk)"
  by (simp add: ndenumerate_def indices3_distinct)

subsection \<open>The value a filled point ends up with\<close>

lemma to_numpy_Inr:
  "to_numpy ID ds V = Inr a \<Longrightarrow> \<exists>Var. ID V = Some Var"
  by (auto simp: to_numpy_def split: option.splits)

lemma to_numpy_fresh:
  "V \<notin> views ds \<Longrightarrow> to_numpy ID ds V = getitem ID V"
  by (auto simp: to_numpy_def getitem_def split: option.splits)

lemma per_tile_loop_getitem:
  "per_tile_loop ID E vars ds = Inr ds' \<Longrightarrow> V \<in> set vars \<Longrightarrow> \<exists>Var. ID V = Some Var"
  by (induction vars arbitrary: ds)
     (auto simp: bindE_eq_Inr per_tile_variable_def per_tile_output_def dest: to_numpy_Inr)

lemma masked_array_same_shape: "shape3 msk = shape3 a \<Longrightarrow> masked_array a msk = Inr msk"
  by (simp add: masked_array_def)

lemma remap_vegetation_Inr:
  assumes "remap_vegetation G ID IV OV FillAll Config = Inr out"
  obtains NewVegetation ds1 F E ds2 ds3 msk m where
    "G = Some NewVegetation"
    "add_land_fractions G (setup_output_dataset OV ID (cfg_per_cell Config @ cfg_per_tile Config))
       = Inr ds1"
    "tiles_to_fill_and_empty FillAll IV OV = Inr (F, E)"
    "per_cell_loop ID IV (n0 OV) F E (cfg_per_cell Config) ds1 = Inr ds2"
    "per_tile_loop ID E (cfg_per_tile Config) ds2 = Inr ds3"
    "masked_array OV (map3 Not F) = Inr msk"
    "resolve_points ID IV (prepare_mapping (n0 OV) Config) (ndenumerate OV msk)
       (ds3, full2 (n1 OV) (n2 OV) False) = Inr (out, m)"
proof -
  from assms obtain NewVegetation where "G = Some NewVegetation"
    by (cases G) (auto simp: remap_vegetation_def Let_def add_land_fractions_def)
  with assms that show ?thesis
    by (auto simp: remap_vegetation_def Let_def bindE_eq_Inr)
qed

lemma remap_vegetation_episode:
  assumes run: "remap_vegetation G ID IV OV FillAll Config = Inr out"
    and fe: "tiles_to_fill_and_empty FillAll IV OV = Inr (TilesToFill, TilesToEmpty)"
    and shp: "shape3 TilesToFill = shape3 OV"
    and rng: "OutVeg < n0 OV" "Lat < n1 OV" "Lon < n2 OV"
    and fill: "el3 TilesToFill OutVeg Lat Lon"
    and V: "V \<in> set (cfg_per_tile Config)"
  shows "\<exists>ds0 x Var. ID V = Some Var
     \<and> episode_value ID ds0 IV (prepare_mapping (n0 OV) Config) (n1 OV) (n2 OV)
          (OutVeg, Lat, Lon) V = Inr x
     \<and> var_at out V (OutVeg, Lat, Lon) = Some x"
proof -
  let ?mc = "prepare_mapping (n0 OV) Config"
  from run obtain F E ds2 ds3 msk m where
    fe': "tiles_to_fill_and_empty FillAll IV OV = Inr (F, E)"
    and pt: "per_tile_loop ID E (cfg_per_tile Config) ds2 = Inr ds3"
    and ma: "masked_array OV (map3 Not F) = Inr msk"
    and rp: "resolve_points ID IV ?mc (ndenumerate OV msk)
       (ds3, full2 (n1 OV) (n2 OV) False) = Inr (out, m)"
    by (rule remap_vegetation_Inr)
  from fe fe' have F: "F = TilesToFill" by simp
  with shp have "shape3 (map3 Not F) = shape3 OV"
    by (simp add: map3_def shape3_def)
  from masked_array_same_shape [OF this] ma have msk: "msk = map3 Not TilesToFill"
    by (simp add: F)
  have inpts: "(OutVeg, Lat, Lon) \<in> set (ndenumerate OV msk)"
    using rng fill by (simp add: ndenumerate_set msk map3_def)
  have "\<forall>(OutVeg, Lat, Lon) \<in> set (ndenumerate OV msk). Lat < n1 OV \<and> Lon < n2 OV"
    by (auto simp: ndenumerate_set)
  from resolve_points_var_at [OF rp this ndenumerate_distinct] inpts V
  have "\<exists>ds0 x. episode_value ID ds0 IV ?mc (n1 OV) (n2 OV) (OutVeg, Lat, Lon) V = Inr x
     \<and> var_at out V (OutVeg, Lat, Lon) = Some x"
    by auto
  with per_tile_loop_getitem [OF pt V] show ?thesis
    by blast
qed

lemmas notion_defs =
  staged_search_def matched_pairs_def value_at_def spec_pooled_mean_def episode_value_def
  var_at_def true_cells_def pooled_config_def pooled_input_def pooled_output_def
  pooled_dataset_def

lemmas emptied_defs =
  emptied_config_def emptied_input_def emptied_output_def emptied_dataset_def

text \<open>
  C1 says that a filled point gets the pooled mean of the input variable's values over
  the matched pairs. The code takes the sum from the input's own array after line 276
  has zeroed in it the tiles that left existence (\<open>OutData\<close> is that array, where the
  comments speak of copying the original fields), so a matched tile that is emptied
  enters the mean as zero. Here the staged search at the point (0, 0, 0) matches the
  pairs (0, 0, 1) and (1, 0, 1); the input holds 6 and 4 there, whose pooled mean is 5;
  the tile (1, 0, 1) is absent from the output, and the run writes (6 + 0) / 2 = 3.
\<close>

theorem emptied_tile_enters_the_mean:
  "\<exists>OutDataset SearchMask ActiveTileMasks TilesToFill TilesToEmpty.
      remap_vegetation (Some emptied_output) emptied_dataset emptied_input emptied_output False
        emptied_config = Inr OutDataset
    \<and> tiles_to_fill_and_empty False emptied_input emptied_output
        = Inr (TilesToFill, TilesToEmpty)
    \<and> el3 TilesToFill 0 0 0 \<and> el3 TilesToEmpty 1 0 1
    \<and> staged_search (prepare_mapping 2 emptied_config) emptied_input 1 2 (0, 0, 0)
        = Inr (SearchMask, ActiveTileMasks, 2)
    \<and> minimum_points (prepare_mapping 2 emptied_config) = 1
    \<and> matched_pairs [0, 1] ActiveTileMasks = [(0, 0, 1), (1, 0, 1)]
    \<and> emptied_dataset ''t'' = Some (array3 [[[Fin 0, Fin 6]], [[Fin 0, Fin 4]]])
    \<and> spec_pooled_mean (array3 [[[Fin 0, Fin 6]], [[Fin 0, Fin 4]]]) [(0, 0, 1), (1, 0, 1)]
        = Fin 5
    \<and> var_at OutDataset ''t'' (0, 0, 0) = Some (Fin 3)"
  by (simp add: emptied_defs notion_defs model_defs Let_def)

subsection \<open>Zero fill\<close>

lemma setpoint_total:
  assumes "data_vars ds V = Some a" "OutVeg < n0 a" "Lat < n1 a" "Lon < n2 a"
  shows "\<exists>ds'. setpoint ds V (OutVeg, Lat, Lon) x = Inr ds'
       \<and> (\<forall>n b. data_vars ds n = Some b \<longrightarrow>
             (\<exists>b'. data_vars ds' n = Some b' \<and> shape3 b' = shape3 b))"
  using assms by (auto simp: setpoint_def getitem_def shape3_def)

text \<open>
  The loop over the per-tile variables at a point returns when each value is computed
  from every dataset that holds the per-tile variables \<open>pt\<close> in the grid's shape.
\<close>

lemma fill_tiles_total:
  assumes "\<And>ds0 V. V \<in> set vars \<Longrightarrow>
             \<forall>W \<in> set pt. \<exists>a. data_vars ds0 W = Some a \<and> shape3 a = (nVeg, nLat, nLon) \<Longrightarrow>
             \<exists>x. tile_value ID ds0 mp vs A pf V = Inr x"
    and "\<forall>W \<in> set pt. \<exists>a. data_vars ds W = Some a \<and> shape3 a = (nVeg, nLat, nLon)"
    and "set vars \<subseteq> set pt"
    and "OutVeg < nVeg" "Lat < nLat" "Lon < nLon"
  shows "\<exists>ds'. fill_tiles ID mp vs A pf (OutVeg, Lat, Lon) vars ds = Inr ds'"
  using assms(1,2,3)
proof (induction vars arbitrary: ds)
  case Nil
  show ?case by simp
next
  case (Cons V vars)
  from Cons.prems(1) [of V ds] Cons.prems(2) obtain x where
    x: "tile_value ID ds mp vs A pf V = Inr x"
    by auto
  from Cons.prems(2,3) obtain a where
    a: "data_vars ds V = Some a" "shape3 a = (nVeg, nLat, nLon)"
    by auto
  from a(2) assms(4-6) have "OutVeg < n0 a" "Lat < n1 a" "Lon < n2 a"
    by (auto simp: shape3_def)
  from setpoint_total [OF a(1) this] obtain ds1 where
    ds1: "setpoint ds V (OutVeg, Lat, Lon) x = Inr ds1"
      "\<forall>n b. data_vars ds n = Some b \<longrightarrow> (\<exists>b'. data_vars ds1 n = Some b' \<and> shape3 b' = shape3 b)"
    by blast
  from Cons.prems(2) ds1(2)
  have inv: "\<forall>W \<in> set pt. \<exists>a. data_vars ds1 W = Some a \<and> shape3 a = (nVeg, nLat, nLon)"
    by fastforce
  have "\<exists>ds'. fill_tiles ID mp vs A pf (OutVeg, Lat, Lon) vars ds1 = Inr ds'"
  proof (rule Cons.IH [OF _ inv])
    show "set vars \<subseteq> set pt"
      using Cons.prems(3) by simp
    show "\<exists>x. tile_value ID ds0 mp vs A pf W = Inr x"
      if "W \<in> set vars"
        "\<forall>W \<in> set pt. \<exists>a. data_vars ds0 W = Some a \<and> shape3 a = (nVeg, nLat, nLon)"
      for ds0 W
      using Cons.prems(1) [of W ds0] that by simp
  qed
  with x ds1(1) show ?case
    by (simp add: fill_tile_def)
qed

lemma resolve_point_total:
  assumes s: "staged_search mc IV nLat nLon (OutVeg, Lat, Lon) = Inr (sm, A, pf)"
    and vs: "vegetation_map mc (int OutVeg) = Some vs"
    and tv: "\<And>ds0 V. V \<in> set (per_tile mc) \<Longrightarrow>
               \<forall>W \<in> set (per_tile mc). \<exists>a. data_vars ds0 W = Some a
                  \<and> shape3 a = (nVeg, nLat, nLon) \<Longrightarrow>
               \<exists>x. tile_value ID ds0 (minimum_points mc) vs A pf V = Inr x"
    and ds: "\<forall>V \<in> set (per_tile mc). \<exists>a. data_vars ds V = Some a \<and> shape3 a = (nVeg, nLat, nLon)"
    and rng: "OutVeg < nVeg" "Lat < nLat" "Lon < nLon"
  shows "\<exists>ds'. resolve_point ID IV mc (ds, full2 nLat nLon False) (OutVeg, Lat, Lon)
           = Inr (ds', full2 nLat nLon False)"
proof -
  have "\<exists>ds'. fill_tiles ID (minimum_points mc) vs A pf (OutVeg, Lat, Lon) (per_tile mc) ds
          = Inr ds'"
    by (rule fill_tiles_total [where pt = "per_tile mc", OF tv ds _ rng]) simp_all
  then obtain ds' where
    f: "fill_tiles ID (minimum_points mc) vs A pf (OutVeg, Lat, Lon) (per_tile mc) ds = Inr ds'"
    by auto
  from s vs f obtain m' where
    r: "resolve_point ID IV mc (ds, full2 nLat nLon False) (OutVeg, Lat, Lon) = Inr (ds', m')"
    by (simp add: resolve_point_def staged_search_def)
  from resolve_point_var_at [OF r rng(2,3)] r show ?thesis
    by auto
qed

text \<open>
  C3. Take a run that returns, and a point that \<open>TilesToFill\<close> marks, at which the staged
  search ends with a \<open>PointsFound\<close> below the configured \<open>minimum_points\<close> (as it does
  when even the global stage finds too few points). Then every per-tile variable of the
  output is exactly zero at that point; and the episode of that point raises nothing:
  from any dataset that holds the per-tile variables in the output grid's shape, it
  returns, with the search mask reset and zero at the point.
\<close>

theorem zero_fill_when_too_few_points:
  assumes "remap_vegetation G InputDataset InputVegetation OutputVegetation FillAll Config
             = Inr OutDataset"
    and "tiles_to_fill_and_empty FillAll InputVegetation OutputVegetation
           = Inr (TilesToFill, TilesToEmpty)"
    and "shape3 TilesToFill = shape3 OutputVegetation"
    and "OutVeg < n0 OutputVegetation" "Lat < n1 OutputVegetation" "Lon < n2 OutputVegetation"
    and "el3 TilesToFill OutVeg Lat Lon"
    and "staged_search (prepare_mapping (n0 OutputVegetation) Config) InputVegetation
           (n1 OutputVegetation) (n2 OutputVegetation) (OutVeg, Lat, Lon)
           = Inr (SearchMask, ActiveTileMasks, PointsFound)"
    and "PointsFound < minimum_points (prepare_mapping (n0 OutputVegetation) Config)"
  shows "(\<forall>Variable \<in> set (cfg_per_tile Config).
            var_at OutDataset Variable (OutVeg, Lat, Lon) = Some (Fin 0))
       \<and> (\<forall>ds. (\<forall>Variable \<in> set (cfg_per_tile Config). \<exists>a.
                   data_vars ds Variable = Some a \<and> shape3 a = shape3 OutputVegetation) \<longrightarrow>
             (\<exists>ds'. resolve_point InputDataset InputVegetation
                       (prepare_mapping (n0 OutputVegetation) Config)
                       (ds, full2 (n1 OutputVegetation) (n2 OutputVegetation) False)
                       (OutVeg, Lat, Lon)
                     = Inr (ds', full2 (n1 OutputVegetation) (n2 OutputVegetation) False)
                  \<and> (\<forall>Variable \<in> set (cfg_per_tile Config).
                        var_at ds' Variable (OutVeg, Lat, Lon) = Some (Fin 0))))"
proof (intro conjI ballI allI impI)
  let ?mc = "prepare_mapping (n0 OutputVegetation) Config"
  let ?idx = "(OutVeg, Lat, Lon)"
  let ?init = "full2 (n1 OutputVegetation) (n2 OutputVegetation) False"
  from staged_search_result [OF assms(8,5,6)] obtain vs where
    vs: "vegetation_map ?mc (int OutVeg) = Some vs"
    by blast
  have tv: "tile_value InputDataset ds0 (minimum_points ?mc) vs ActiveTileMasks PointsFound V
      = Inr (Fin 0)" for V ds0
    using assms(9) by (simp add: tile_value_def zero_flt_def)
  then have ev: "episode_value InputDataset ds0 InputVegetation ?mc (n1 OutputVegetation)
      (n2 OutputVegetation) ?idx V = Inr (Fin 0)" for V ds0
    by (simp add: episode_value_def assms(8) vs)
  {
    fix Variable
    assume V: "Variable \<in> set (cfg_per_tile Config)"
    from remap_vegetation_episode [OF assms(1-7) V] ev
    show "var_at OutDataset Variable ?idx = Some (Fin 0)"
      by auto
  }
  {
    fix ds :: out_dataset
    assume ds: "\<forall>Variable \<in> set (cfg_per_tile Config). \<exists>a.
                   data_vars ds Variable = Some a \<and> shape3 a = shape3 OutputVegetation"
    have "\<exists>ds'. resolve_point InputDataset InputVegetation ?mc (ds, ?init) ?idx = Inr (ds', ?init)"
      by (rule resolve_point_total [OF assms(8) vs _ _ assms(4-6)])
         (use tv ds in \<open>auto simp: shape3_def\<close>)
    then obtain ds' where r:
      "resolve_point InputDataset InputVegetation ?mc (ds, ?init) ?idx = Inr (ds', ?init)"
      by blast
    from resolve_point_var_at [OF r assms(5,6)] ev
    have "\<forall>Variable \<in> set (cfg_per_tile Config). var_at ds' Variable ?idx = Some (Fin 0)"
      by auto
    with r show "\<exists>ds'. resolve_point InputDataset InputVegetation ?mc (ds, ?init) ?idx
                     = Inr (ds', ?init)
                  \<and> (\<forall>Variable \<in> set (cfg_per_tile Config).
                        var_at ds' Variable ?idx = Some (Fin 0))"
      by blast
  }
qed

theorem zero_fill_when_too_few_points_witness:
  "\<exists>OutDataset TilesToFill TilesToEmpty SearchMask ActiveTileMasks ds'.
      remap_vegetation (Some (array3 [[[Fin (1/2), Fin 0]]])) example_dataset
        (array3 [[[Fin 0, Fin 0]]]) (array3 [[[Fin (1/2), Fin 0]]]) False example_config
        = Inr OutDataset
    \<and> tiles_to_fill_and_empty False (array3 [[[Fin 0, Fin 0]]]) (array3 [[[Fin (1/2), Fin 0]]])
        = Inr (TilesToFill, TilesToEmpty)
    \<and> el3 TilesToFill 0 0 0
    \<and> staged_search (prepare_mapping 1 example_config) (array3 [[[Fin 0, Fin 0]]]) 1 2 (0, 0, 0)
        = Inr (SearchMask, ActiveTileMasks, 0)
    \<and> el2 SearchMask 0 0 \<and> el2 SearchMask 0 1
    \<and> var_at OutDataset ''t'' (0, 0, 0) = Some (Fin 0)
    \<and> resolve_point example_dataset (array3 [[[Fin 0, Fin 0]]])
          (prepare_mapping 1 example_config)
          (\<lparr>coord_lon = [], coord_lat = [], coord_veg = [], data_vars = example_dataset,
            views = {''c'', ''t''}\<rparr>,
           full2 1 2 False) (0, 0, 0) = Inr (ds', full2 1 2 False)
    \<and> var_at ds' ''t'' (0, 0, 0) = Some (Fin 0)"
proof -
  let ?iv = "array3 [[[Fin 0, Fin 0 :: flt]]]"
  let ?ov = "array3 [[[Fin (1/2), Fin 0 :: flt]]]"
  let ?ds = "\<lparr>coord_lon = [], coord_lat = [], coord_veg = [], data_vars = example_dataset,
              views = {''c'', ''t''}\<rparr>"
  have n: "n0 ?ov = 1" "n1 ?ov = 1" "n2 ?ov = 2"
    by (simp_all add: model_defs)
  obtain out where run:
    "remap_vegetation (Some ?ov) example_dataset ?iv ?ov False example_config = Inr out"
    by (simp add: notion_defs model_defs Let_def)
  obtain F E where fe: "tiles_to_fill_and_empty False ?iv ?ov = Inr (F, E)"
    and F: "shape3 F = shape3 ?ov" "el3 F 0 0 0"
    by (simp add: notion_defs model_defs)
  obtain sm A where s: "staged_search (prepare_mapping 1 example_config) ?iv 1 2 (0, 0, 0)
       = Inr (sm, A, 0)"
    and sm: "el2 sm 0 0" "el2 sm 0 1"
    by (auto simp: notion_defs model_defs Let_def)
  have few: "0 < minimum_points (prepare_mapping 1 example_config)"
    by (simp add: notion_defs model_defs)
  have rng: "(0::nat) < n0 ?ov" "(0::nat) < n1 ?ov" "(0::nat) < n2 ?ov"
    by (simp_all add: n)
  have t: "''t'' \<in> set (cfg_per_tile example_config)"
    by (simp add: example_config_def)
  have ds: "\<forall>Variable \<in> set (cfg_per_tile example_config). \<exists>a.
      data_vars ?ds Variable = Some a \<and> shape3 a = shape3 ?ov"
    by (simp add: model_defs)
  note inst = zero_fill_when_too_few_points [OF run fe F(1) rng F(2), unfolded n, OF s few]
  from inst t have "var_at out ''t'' (0, 0, 0) = Some (Fin 0)"
    by blast
  moreover from inst ds t obtain ds' where
    "resolve_point example_dataset ?iv (prepare_mapping 1 example_config)
       (?ds, full2 1 2 False) (0, 0, 0) = Inr (ds', full2 1 2 False)"
    "var_at ds' ''t'' (0, 0, 0) = Some (Fin 0)"
    by blast
  ultimately show ?thesis
    using run fe F(2) s sm by blast
qed

subsection \<open>Per-cell variables\<close>

lemma setvar_coords:
  "setvar ds name a shared = Inr ds' \<Longrightarrow>
     coord_veg ds' = coord_veg ds \<and> coord_lat ds' = coord_lat ds \<and> coord_lon ds' = coord_lon ds"
  by (auto simp: setvar_Inr)

lemma add_land_fractions_views:
  "add_land_fractions G ds = Inr ds' \<Longrightarrow> views ds' \<subseteq> views ds"
  by (cases G) (auto simp: add_land_fractions_def bindE_eq_Inr setvar_Inr)

lemma setup_output_dataset_views [simp]: "views (setup_output_dataset OV ID vl) = {}"
  by (simp add: setup_output_dataset_def Let_def)

lemma per_cell_variable_views:
  "per_cell_variable ID IV n F E ds V = Inr ds' \<Longrightarrow> views ds' = insert V (views ds)"
  by (auto simp: per_cell_variable_def bindE_eq_Inr setvar_Inr)

lemma per_tile_variable_views:
  "per_tile_variable ID E ds V = Inr ds' \<Longrightarrow> views ds' = insert V (views ds)"
  by (auto simp: per_tile_variable_def bindE_eq_Inr setvar_Inr)

text \<open>
  A per-cell variable listed once is computed from the input's array as it was at the
  call, and the later passes leave it alone.
\<close>

lemma per_cell_loop_once:
  assumes "per_cell_loop ID IV n F E vars ds = Inr ds'" "count_list vars V = 1"
    and "V \<notin> views ds"
  shows "\<exists>ds0 a. V \<notin> views ds0 \<and> per_cell_output ID IV n F E ds0 V = Inr a
           \<and> data_vars ds' V = Some a"
  using assms
proof (induction vars arbitrary: ds)
  case Nil
  then show ?case by simp
next
  case (Cons W vars)
  then obtain ds1 where
    one: "per_cell_variable ID IV n F E ds W = Inr ds1"
    and rest: "per_cell_loop ID IV n F E vars ds1 = Inr ds'"
    by (auto simp: bindE_eq_Inr)
  show ?case
  proof (cases "W = V")
    case True
    with Cons.prems(2) have "count_list vars V = 0"
      by simp
    then have notin: "V \<notin> set vars"
      by (simp add: count_list_0_iff)
    from one obtain a where "per_cell_output ID IV n F E ds V = Inr a" "data_vars ds1 V = Some a"
      by (auto simp: True per_cell_variable_def bindE_eq_Inr setvar_Inr)
    with per_cell_loop_other [OF rest notin] Cons.prems(3) show ?thesis
      by auto
  next
    case False
    with Cons.prems(2) have c: "count_list vars V = 1"
      by simp
    from per_cell_variable_views [OF one] False Cons.prems(3) have "V \<notin> views ds1"
      by auto
    from Cons.IH [OF rest c this] show ?thesis .
  qed
qed

lemma sum_list_unmasked:
  "sum_list (map (\<lambda>x. if le0 (g x) \<or> isnan (g x) then (0::flt) else f x) xs)
     = sum_list (map f (filter (\<lambda>x. \<not> isnan (g x) \<and> \<not> le0 (g x)) xs))"
  by (induction xs) auto

lemma zip3_same_shape:
  assumes "shape3 a = shape3 b"
  shows "\<exists>c. zip3 f a b = Inr c \<and> shape3 c = shape3 a
     \<and> (\<forall>i<n0 a. \<forall>j<n1 a. \<forall>k<n2 a. el3 c i j k = f (el3 a i j k) (el3 b i j k))"
  using assms by (auto simp: zip3_def shape3_def bidx_in_range)

lemma AreaWeightedMean_same_shape:
  assumes "shape3 Var = shape3 IV" "AreaWeightedMean Var (MaskedInputVegetation IV) n = Inr Mean"
  shows "shape3 Mean = (n, n1 IV, n2 IV)
     \<and> (\<forall>i. \<forall>j<n1 IV. \<forall>k<n2 IV. el3 Mean i j k = spec_weighted_sum Var IV j k)"
proof -
  let ?M = "MaskedInputVegetation IV"
  have shp: "shape3 Var = shape3 ?M"
    using assms(1) by (simp add: MaskedInputVegetation_def map3_def shape3_def)
  from zip3_same_shape [OF shp, of "\<lambda>x fm. (fmul x (fst fm), snd fm)"] obtain c where
    c: "zip3 (\<lambda>x fm. (fmul x (fst fm), snd fm)) Var ?M = Inr c" "shape3 c = shape3 Var"
       "\<forall>i<n0 Var. \<forall>j<n1 Var. \<forall>k<n2 Var.
          el3 c i j k = (fmul (el3 Var i j k) (fst (el3 ?M i j k)), snd (el3 ?M i j k))"
    by blast
  from assms(2) c(1) have stk: "stack n (sum_axis0 c) = Inr Mean"
    by (simp add: AreaWeightedMean_def)
  then have Mean: "Mean = \<lparr>n0 = n, n1 = m0 (sum_axis0 c), n2 = m1 (sum_axis0 c),
                          el3 = (\<lambda>_. el2 (sum_axis0 c))\<rparr>"
    by (auto simp: stack_def split: if_splits)
  from c(2) assms(1) have dims: "n0 c = n0 IV" "n1 c = n1 IV" "n2 c = n2 IV"
    "n0 Var = n0 IV" "n1 Var = n1 IV" "n2 Var = n2 IV"
    by (auto simp: shape3_def)
  have "el2 (sum_axis0 c) j k = spec_weighted_sum Var IV j k" if "j < n1 IV" "k < n2 IV" for j k
  proof -
    have "map (\<lambda>i. if snd (el3 c i j k) then 0 else fst (el3 c i j k)) [0..<n0 IV]
        = map (\<lambda>i. if le0 (el3 IV i j k) \<or> isnan (el3 IV i j k) then 0
                     else fmul (el3 Var i j k) (el3 IV i j k)) [0..<n0 IV]"
      using c(3) that dims by (auto simp: MaskedInputVegetation_def map3_def)
    then have "sum_list (map (\<lambda>i. if snd (el3 c i j k) then 0 else fst (el3 c i j k)) [0..<n0 IV])
        = sum_list (map (\<lambda>i. if le0 (el3 IV i j k) \<or> isnan (el3 IV i j k) then 0
                     else fmul (el3 Var i j k) (el3 IV i j k)) [0..<n0 IV])"
      by (rule arg_cong)
    then have "el2 (sum_axis0 c) j k
        = sum_list (map (\<lambda>i. if le0 (el3 IV i j k) \<or> isnan (el3 IV i j k) then 0
                     else fmul (el3 Var i j k) (el3 IV i j k)) [0..<n0 IV])"
      by (simp only: sum_axis0_def dims ndarray2.simps)
    also have "\<dots> = spec_weighted_sum Var IV j k"
      unfolding spec_weighted_sum_def by (rule sum_list_unmasked)
    finally show ?thesis .
  qed
  with Mean dims show ?thesis
    by (simp add: shape3_def sum_axis0_def)
qed

lemma tiles_same_shape:
  assumes "shape3 IV = shape3 OV" "tiles_to_fill_and_empty FillAll IV OV = Inr (F, E)"
  shows "shape3 F = shape3 IV \<and> shape3 E = shape3 IV
     \<and> (\<forall>i<n0 IV. \<forall>j<n1 IV. \<forall>k<n2 IV.
          el3 F i j k = (le0 (el3 IV i j k) \<and> (FillAll \<or> gt0 (el3 OV i j k)))
        \<and> el3 E i j k = (\<not> FillAll \<and> le0 (el3 OV i j k)))"
proof (cases FillAll)
  case True
  with assms(2) show ?thesis
    by (auto simp: tiles_to_fill_and_empty_def map3_def shape3_def)
next
  case False
  have "shape3 (map3 le0 IV) = shape3 (map3 gt0 OV)"
    using assms(1) by (simp add: map3_def shape3_def)
  from zip3_same_shape [OF this, of "(\<and>)"] assms False show ?thesis
    by (auto simp: tiles_to_fill_and_empty_def map3_def shape3_def)
qed

lemma per_cell_output_same_shape:
  assumes shp: "shape3 IV = shape3 OV"
    and fe: "tiles_to_fill_and_empty FillAll IV OV = Inr (F, E)"
    and out: "per_cell_output ID IV n F E ds V = Inr a"
  shows "\<exists>Var. to_numpy ID ds V = Inr Var \<and> shape3 Var = shape3 OV \<and> shape3 a = shape3 OV
     \<and> (\<forall>i<n0 OV. \<forall>j<n1 OV. \<forall>k<n2 OV.
          el3 a i j k = (if el3 E i j k then Fin 0
                         else if el3 F i j k then spec_weighted_sum Var IV j k
                         else el3 Var i j k))"
proof -
  from out obtain Var Mean OutData where
    Var: "to_numpy ID ds V = Inr Var"
    and Mean: "AreaWeightedMean Var (MaskedInputVegetation IV) n = Inr Mean"
    and aw: "assign_where Var F Mean = Inr OutData"
    and fw: "fill_where OutData E 0 = Inr a"
    by (auto simp: per_cell_output_def bindE_eq_Inr)
  note ts = tiles_same_shape [OF shp fe]
  from aw have s1: "shape3 Var = shape3 F"
    and OutData: "OutData = Var\<lparr>el3 := (\<lambda>i j k. if el3 F i j k then el3 Mean i j k
                                               else el3 Var i j k)\<rparr>"
    by (auto simp: assign_where_def split: if_splits)
  from fw have a: "a = OutData\<lparr>el3 := (\<lambda>i j k. if el3 E i j k then 0 else el3 OutData i j k)\<rparr>"
    by (auto simp: fill_where_def split: if_splits)
  from s1 ts have sv: "shape3 Var = shape3 IV"
    by simp
  note M = AreaWeightedMean_same_shape [OF sv Mean]
  from shp have dims: "n0 IV = n0 OV" "n1 IV = n1 OV" "n2 IV = n2 OV"
    by (auto simp: shape3_def)
  have "shape3 a = shape3 Var"
    by (simp add: a OutData shape3_def)
  with Var sv shp M dims show ?thesis
    by (auto simp: a OutData zero_flt_def)
qed

lemmas scenario_defs =
  cell_config_def cell_input_def cell_output_def cell_dataset_def

text \<open>
  C5. Take a run that returns on fraction grids of one shape, and a per-cell variable
  that the configuration lists once (and not also per-tile). Its output array has the
  grid's shape and, at every position: where \<open>TilesToFill\<close> holds, the weighted sum of
  that grid cell, that is the sum over the input vegetation indices whose fraction is
  neither missing nor non-positive of the variable's value times the fraction, the same
  for every vegetation slot; where neither mask holds, the input's value; where only
  \<open>TilesToEmpty\<close> holds, zero. The values are those the input had at the call.
\<close>

theorem per_cell_weighted_sum:
  assumes "remap_vegetation G InputDataset InputVegetation OutputVegetation FillAll Config
             = Inr OutDataset"
    and "tiles_to_fill_and_empty FillAll InputVegetation OutputVegetation
           = Inr (TilesToFill, TilesToEmpty)"
    and "shape3 InputVegetation = shape3 OutputVegetation"
    and "Variable \<in> set (cfg_per_cell Config)"
    and "count_list (cfg_per_cell Config) Variable = 1"
    and "Variable \<notin> set (cfg_per_tile Config)"
  shows "\<exists>Var OutData.
      InputDataset Variable = Some Var \<and> data_vars OutDataset Variable = Some OutData
    \<and> shape3 Var = shape3 OutputVegetation \<and> shape3 OutData = shape3 OutputVegetation
    \<and> (\<forall>i<n0 OutputVegetation. \<forall>j<n1 OutputVegetation. \<forall>k<n2 OutputVegetation.
          (el3 TilesToFill i j k \<longrightarrow>
             el3 OutData i j k = spec_weighted_sum Var InputVegetation j k)
        \<and> (\<not> el3 TilesToFill i j k \<and> \<not> el3 TilesToEmpty i j k \<longrightarrow>
             el3 OutData i j k = el3 Var i j k)
        \<and> (\<not> el3 TilesToFill i j k \<and> el3 TilesToEmpty i j k \<longrightarrow>
             el3 OutData i j k = Fin 0))"
proof -
  from assms(1) obtain ds1 F E ds2 ds3 msk m where
    al: "add_land_fractions G (setup_output_dataset OutputVegetation InputDataset
           (cfg_per_cell Config @ cfg_per_tile Config)) = Inr ds1"
    and fe': "tiles_to_fill_and_empty FillAll InputVegetation OutputVegetation = Inr (F, E)"
    and pc: "per_cell_loop InputDataset InputVegetation (n0 OutputVegetation) F E
               (cfg_per_cell Config) ds1 = Inr ds2"
    and pt: "per_tile_loop InputDataset E (cfg_per_tile Config) ds2 = Inr ds3"
    and rp: "resolve_points InputDataset InputVegetation
               (prepare_mapping (n0 OutputVegetation) Config) (ndenumerate OutputVegetation msk)
               (ds3, full2 (n1 OutputVegetation) (n2 OutputVegetation) False)
             = Inr (OutDataset, m)"
    by (rule remap_vegetation_Inr)
  from assms(2) fe' have FE: "F = TilesToFill" "E = TilesToEmpty"
    by simp_all
  from add_land_fractions_views [OF al] have "Variable \<notin> views ds1"
    by simp
  from per_cell_loop_once [OF pc assms(5) this] obtain ds0 a where
    a: "Variable \<notin> views ds0"
       "per_cell_output InputDataset InputVegetation (n0 OutputVegetation) F E ds0 Variable
          = Inr a"
       "data_vars ds2 Variable = Some a"
    by blast
  have "data_vars OutDataset Variable = data_vars ds3 Variable"
    using resolve_points_other [OF rp] assms(6) by simp
  also have "\<dots> = data_vars ds2 Variable"
    using per_tile_loop_other [OF pt] assms(6) by simp
  finally have out: "data_vars OutDataset Variable = Some a"
    using a(3) by simp
  from assms(3) have dims: "n0 InputVegetation = n0 OutputVegetation"
    "n1 InputVegetation = n1 OutputVegetation" "n2 InputVegetation = n2 OutputVegetation"
    by (auto simp: shape3_def)
  have disj: "\<not> (el3 F i j k \<and> el3 E i j k)"
    if "i < n0 OutputVegetation" "j < n1 OutputVegetation" "k < n2 OutputVegetation" for i j k
    using tiles_same_shape [OF assms(3) fe'] that dims not_gt0_le0 by auto
  from per_cell_output_same_shape [OF assms(3) fe' a(2)] obtain Var where
    Var: "to_numpy InputDataset ds0 Variable = Inr Var" "shape3 Var = shape3 OutputVegetation"
      "shape3 a = shape3 OutputVegetation"
      "\<forall>i<n0 OutputVegetation. \<forall>j<n1 OutputVegetation. \<forall>k<n2 OutputVegetation.
          el3 a i j k = (if el3 E i j k then Fin 0
                         else if el3 F i j k then spec_weighted_sum Var InputVegetation j k
                         else el3 Var i j k)"
    by blast
  from Var(1) a(1) have orig: "InputDataset Variable = Some Var"
    by (auto simp: to_numpy_fresh getitem_def split: option.splits)
  from Var(4) disj have "\<forall>i<n0 OutputVegetation. \<forall>j<n1 OutputVegetation. \<forall>k<n2 OutputVegetation.
          (el3 F i j k \<longrightarrow> el3 a i j k = spec_weighted_sum Var InputVegetation j k)
        \<and> (\<not> el3 F i j k \<and> \<not> el3 E i j k \<longrightarrow> el3 a i j k = el3 Var i j k)
        \<and> (\<not> el3 F i j k \<and> el3 E i j k \<longrightarrow> el3 a i j k = Fin 0)"
    by auto
  with orig Var(2,3) out show ?thesis
    unfolding FE by blast
qed

theorem per_cell_weighted_sum_witness:
  "\<exists>OutDataset OutData TilesToFill TilesToEmpty.
      remap_vegetation (Some cell_output) cell_dataset cell_input cell_output False cell_config
        = Inr OutDataset
    \<and> tiles_to_fill_and_empty False cell_input cell_output = Inr (TilesToFill, TilesToEmpty)
    \<and> count_list (cfg_per_cell cell_config) ''c'' = 1
    \<and> el3 TilesToFill 0 0 0 \<and> el3 TilesToEmpty 1 0 1
    \<and> \<not> el3 TilesToFill 0 0 1 \<and> \<not> el3 TilesToEmpty 0 0 1
    \<and> data_vars OutDataset ''c'' = Some OutData
    \<and> el3 OutData 0 0 0 = Fin 2 \<and> el3 OutData 1 0 1 = Fin 0 \<and> el3 OutData 0 0 1 = Fin 4"
proof -
  obtain out where run:
    "remap_vegetation (Some cell_output) cell_dataset cell_input cell_output False cell_config
       = Inr out"
    by (simp add: scenario_defs notion_defs model_defs Let_def)
  obtain F E where fe: "tiles_to_fill_and_empty False cell_input cell_output = Inr (F, E)"
    and F: "el3 F 0 0 0" "\<not> el3 F 0 0 1" "\<not> el3 F 1 0 1"
    and E: "el3 E 1 0 1" "\<not> el3 E 0 0 1"
    by (simp add: scenario_defs notion_defs model_defs)
  have shp: "shape3 cell_input = shape3 cell_output"
    and c: "''c'' \<in> set (cfg_per_cell cell_config)"
      "count_list (cfg_per_cell cell_config) ''c'' = 1"
      "''c'' \<notin> set (cfg_per_tile cell_config)"
    and n: "(0::nat) < n0 cell_output" "(1::nat) < n0 cell_output" "(0::nat) < n1 cell_output"
       "(0::nat) < n2 cell_output" "(1::nat) < n2 cell_output"
    by (simp_all add: scenario_defs model_defs)
  from per_cell_weighted_sum [OF run fe shp c] obtain Var a where
    Var: "cell_dataset ''c'' = Some Var" and a: "data_vars out ''c'' = Some a"
    and el: "\<forall>i<n0 cell_output. \<forall>j<n1 cell_output. \<forall>k<n2 cell_output.
          (el3 F i j k \<longrightarrow> el3 a i j k = spec_weighted_sum Var cell_input j k)
        \<and> (\<not> el3 F i j k \<and> \<not> el3 E i j k \<longrightarrow> el3 a i j k = el3 Var i j k)
        \<and> (\<not> el3 F i j k \<and> el3 E i j k \<longrightarrow> el3 a i j k = Fin 0)"
    by blast
  from Var have Var': "Var = array3 [[[Fin 3, Fin 4]], [[Fin 8, Fin 5]]]"
    by (simp add: cell_dataset_def)
  from el n F E have "el3 a 0 0 0 = spec_weighted_sum Var cell_input 0 0"
    "el3 a 1 0 1 = Fin 0" "el3 a 0 0 1 = el3 Var 0 0 1"
    by blast+
  then have "el3 a 0 0 0 = Fin 2" "el3 a 1 0 1 = Fin 0" "el3 a 0 0 1 = Fin 4"
    by (simp_all add: Var' spec_weighted_sum_def scenario_defs model_defs)
  with run fe F E a c(2) show ?thesis
    by blast
qed

subsection \<open>Fill-all on a fully populated input\<close>

lemma setup_output_dataset_dims:
  "dims (setup_output_dataset OV ID vl) = shape3 OV"
  by (simp add: dims_def setup_output_dataset_def linspace_def Let_def shape3_def)

lemma setvar_dims:
  "setvar ds name a shared = Inr ds' \<Longrightarrow> dims ds' = dims ds \<and> shape3 a = dims ds"
  by (auto simp: setvar_Inr dims_def)

lemma add_land_fractions_dims: "add_land_fractions G ds = Inr ds' \<Longrightarrow> dims ds' = dims ds"
  by (cases G) (auto simp: add_land_fractions_def bindE_eq_Inr dest!: setvar_dims)

lemma per_cell_loop_dims:
  "per_cell_loop ID IV n F E vars ds = Inr ds' \<Longrightarrow> dims ds' = dims ds"
  by (induction vars arbitrary: ds)
     (auto simp: bindE_eq_Inr per_cell_variable_def dest!: setvar_dims)

lemma per_tile_loop_dims:
  "per_tile_loop ID E vars ds = Inr ds' \<Longrightarrow> dims ds' = dims ds"
  by (induction vars arbitrary: ds)
     (auto simp: bindE_eq_Inr per_tile_variable_def dest!: setvar_dims)

lemma per_tile_output_InrD:
  assumes "per_tile_output ID E ds V = Inr a"
  shows "\<exists>Var. to_numpy ID ds V = Inr Var \<and> shape3 Var = shape3 E \<and> shape3 a = shape3 Var
        \<and> el3 a = (\<lambda>i j k. if el3 E i j k then 0 else el3 Var i j k)"
  using assms
  by (auto simp: per_tile_output_def bindE_eq_Inr fill_where_def shape3_def split: if_splits)

lemma per_cell_output_InrD:
  assumes "per_cell_output ID IV n F E ds V = Inr a"
  shows "\<exists>Var (Mean :: flt ndarray3).
          to_numpy ID ds V = Inr Var \<and> shape3 Var = shape3 F \<and> shape3 Var = shape3 E
        \<and> shape3 a = shape3 Var
        \<and> el3 a = (\<lambda>i j k. if el3 E i j k then 0
                             else if el3 F i j k then el3 Mean i j k
                             else el3 Var i j k)"
proof -
  from assms obtain Var Mean OutData where
    Var: "to_numpy ID ds V = Inr Var"
    and aw: "assign_where Var F Mean = Inr OutData"
    and fw: "fill_where OutData E 0 = Inr a"
    by (auto simp: per_cell_output_def bindE_eq_Inr)
  from aw have s1: "shape3 Var = shape3 F"
    and OutData: "OutData = Var\<lparr>el3 := (\<lambda>i j k. if el3 F i j k then el3 Mean i j k
                                               else el3 Var i j k)\<rparr>"
    by (auto simp: assign_where_def split: if_splits)
  from fw have s2: "shape3 OutData = shape3 E"
    and a: "a = OutData\<lparr>el3 := (\<lambda>i j k. if el3 E i j k then 0 else el3 OutData i j k)\<rparr>"
    by (auto simp: fill_where_def split: if_splits)
  have s3: "shape3 OutData = shape3 Var" "shape3 a = shape3 Var"
    by (simp_all add: a OutData shape3_def)
  have el: "el3 a = (\<lambda>i j k. if el3 E i j k then 0
                             else if el3 F i j k then el3 Mean i j k
                             else el3 Var i j k)"
    by (simp add: a OutData cong: if_cong)
  from s1 s2 s3 have "shape3 Var = shape3 E"
    by simp
  with Var s1 s3(2) el show ?thesis
    by blast
qed

lemma ndenumerate_empty:
  assumes "\<forall>i<n0 a. \<forall>j<n1 a. \<forall>k<n2 a. el3 msk i j k"
  shows "ndenumerate a msk = []"
  using assms by (auto simp: ndenumerate_def indices3_def filter_empty_conv)

text \<open>
  The array a pass reads is the input's own: the one the output dataset holds once the
  variable has been through a pass, which under the invariant still has the values of
  the call.
\<close>

lemma to_numpy_kept:
  assumes "to_numpy ID ds V = Inr Var0" "keeps_input ID IV ds"
  shows "\<exists>Var. ID V = Some Var \<and> shape3 Var0 = shape3 Var
     \<and> (\<forall>i<n0 Var. \<forall>j<n1 Var. \<forall>k<n2 Var. el3 Var0 i j k = el3 Var i j k)"
proof (cases "V \<in> views ds")
  case True
  with assms(2) obtain Var a where
    "ID V = Some Var" "data_vars ds V = Some a" "shape3 a = shape3 Var"
    "\<forall>i<n0 Var. \<forall>j<n1 Var. \<forall>k<n2 Var. el3 a i j k = el3 Var i j k"
    unfolding keeps_input_def by blast
  with assms(1) True show ?thesis
    by (simp add: to_numpy_def)
next
  case False
  with assms(1) show ?thesis
    by (auto simp: to_numpy_def split: option.splits)
qed

lemma setvar_keeps:
  assumes sv: "setvar ds V a True = Inr ds1"
    and inv: "keeps_input ID IV ds"
    and Var: "ID V = Some Var" "shape3 a = shape3 Var" "shape3 a = shape3 IV"
      "\<forall>i<n0 Var. \<forall>j<n1 Var. \<forall>k<n2 Var. el3 a i j k = el3 Var i j k"
  shows "keeps_input ID IV ds1 \<and> views ds1 = insert V (views ds)"
proof -
  from sv have ds1: "data_vars ds1 = (data_vars ds)(V \<mapsto> a)"
    "views ds1 = insert V (views ds)" "dims ds1 = dims ds" "shape3 a = dims ds"
    by (auto simp: setvar_Inr dims_def)
  have "\<exists>Var a. ID W = Some Var \<and> data_vars ds1 W = Some a
      \<and> shape3 a = shape3 Var \<and> shape3 a = shape3 IV \<and> shape3 a = dims ds1
      \<and> (\<forall>i<n0 Var. \<forall>j<n1 Var. \<forall>k<n2 Var. el3 a i j k = el3 Var i j k)"
    if W: "W \<in> views ds1" for W
  proof (cases "W = V")
    case True
    with Var ds1 show ?thesis
      by simp
  next
    case False
    with W ds1(2) have "W \<in> views ds"
      by simp
    with inv False ds1(1,3) show ?thesis
      unfolding keeps_input_def by simp
  qed
  with ds1(2) show ?thesis
    unfolding keeps_input_def by blast
qed

lemma per_cell_variable_keeps:
  assumes one: "per_cell_variable ID IV n F E ds V = Inr ds1"
    and F: "F = map3 le0 IV" and E: "E = map3 (\<lambda>_. False) IV"
    and full: "\<forall>i<n0 IV. \<forall>j<n1 IV. \<forall>k<n2 IV. \<not> le0 (el3 IV i j k)"
    and inv: "keeps_input ID IV ds"
  shows "keeps_input ID IV ds1 \<and> views ds1 = insert V (views ds)"
proof -
  from one obtain a where
    out: "per_cell_output ID IV n F E ds V = Inr a" and sv: "setvar ds V a True = Inr ds1"
    by (auto simp: per_cell_variable_def bindE_eq_Inr)
  from per_cell_output_InrD [OF out] obtain Var0 and Mean :: "flt ndarray3" where
    Var0: "to_numpy ID ds V = Inr Var0" "shape3 Var0 = shape3 F" "shape3 a = shape3 Var0"
      "el3 a = (\<lambda>i j k. if el3 E i j k then 0
                          else if el3 F i j k then el3 Mean i j k
                          else el3 Var0 i j k)"
    by blast
  from to_numpy_kept [OF Var0(1) inv] obtain Var where
    Var: "ID V = Some Var" "shape3 Var0 = shape3 Var"
      "\<forall>i<n0 Var. \<forall>j<n1 Var. \<forall>k<n2 Var. el3 Var0 i j k = el3 Var i j k"
    by blast
  have sF: "shape3 F = shape3 IV"
    by (simp add: F map3_def shape3_def)
  with Var0(2) Var(2) have d: "n0 Var = n0 IV" "n1 Var = n1 IV" "n2 Var = n2 IV"
    by (auto simp: shape3_def)
  have "el3 a i j k = el3 Var i j k" if "i < n0 Var" "j < n1 Var" "k < n2 Var" for i j k
    using that full d Var(3) by (simp add: Var0(4) E F map3_def)
  with setvar_keeps [OF sv inv Var(1)] Var0(2,3) Var(2) sF show ?thesis
    by simp
qed

lemma per_tile_variable_keeps:
  assumes one: "per_tile_variable ID E ds V = Inr ds1"
    and E: "E = map3 (\<lambda>_. False) IV"
    and inv: "keeps_input ID IV ds"
  shows "keeps_input ID IV ds1 \<and> views ds1 = insert V (views ds)"
proof -
  from one obtain a where
    out: "per_tile_output ID E ds V = Inr a" and sv: "setvar ds V a True = Inr ds1"
    by (auto simp: per_tile_variable_def bindE_eq_Inr)
  from per_tile_output_InrD [OF out] obtain Var0 where
    Var0: "to_numpy ID ds V = Inr Var0" "shape3 Var0 = shape3 E" "shape3 a = shape3 Var0"
      "el3 a = (\<lambda>i j k. if el3 E i j k then 0 else el3 Var0 i j k)"
    by blast
  from to_numpy_kept [OF Var0(1) inv] obtain Var where
    Var: "ID V = Some Var" "shape3 Var0 = shape3 Var"
      "\<forall>i<n0 Var. \<forall>j<n1 Var. \<forall>k<n2 Var. el3 Var0 i j k = el3 Var i j k"
    by blast
  have sE: "shape3 E = shape3 IV"
    by (simp add: E map3_def shape3_def)
  have "el3 a i j k = el3 Var i j k" if "i < n0 Var" "j < n1 Var" "k < n2 Var" for i j k
    using that Var(3) by (simp add: Var0(4) E map3_def)
  with setvar_keeps [OF sv inv Var(1)] Var0(2,3) Var(2) sE show ?thesis
    by simp
qed

lemma per_cell_loop_keeps:
  assumes "per_cell_loop ID IV n F E vars ds = Inr ds'"
    and "F = map3 le0 IV" "E = map3 (\<lambda>_. False) IV"
    and "\<forall>i<n0 IV. \<forall>j<n1 IV. \<forall>k<n2 IV. \<not> le0 (el3 IV i j k)"
    and "keeps_input ID IV ds"
  shows "keeps_input ID IV ds' \<and> views ds' = views ds \<union> set vars"
  using assms(1,5)
proof (induction vars arbitrary: ds)
  case Nil
  then show ?case by simp
next
  case (Cons V vars)
  then obtain ds1 where
    one: "per_cell_variable ID IV n F E ds V = Inr ds1"
    and rest: "per_cell_loop ID IV n F E vars ds1 = Inr ds'"
    by (auto simp: bindE_eq_Inr)
  from per_cell_variable_keeps [OF one assms(2-4) Cons.prems(2)]
  have k: "keeps_input ID IV ds1" "views ds1 = insert V (views ds)"
    by simp_all
  from Cons.IH [OF rest k(1)] k(2) show ?case
    by auto
qed

lemma per_tile_loop_keeps:
  assumes "per_tile_loop ID E vars ds = Inr ds'"
    and "E = map3 (\<lambda>_. False) IV"
    and "keeps_input ID IV ds"
  shows "keeps_input ID IV ds' \<and> views ds' = views ds \<union> set vars"
  using assms(1,3)
proof (induction vars arbitrary: ds)
  case Nil
  then show ?case by simp
next
  case (Cons V vars)
  then obtain ds1 where
    one: "per_tile_variable ID E ds V = Inr ds1"
    and rest: "per_tile_loop ID E vars ds1 = Inr ds'"
    by (auto simp: bindE_eq_Inr)
  from per_tile_variable_keeps [OF one assms(2) Cons.prems(2)]
  have k: "keeps_input ID IV ds1" "views ds1 = insert V (views ds)"
    by simp_all
  from Cons.IH [OF rest k(1)] k(2) show ?case
    by auto
qed

text \<open>
  C9. Take a run in fill-all mode that returns, on an input fraction grid with no entry
  less than or equal to zero. Then every per-cell and every per-tile variable of the
  output has the shape and, inside it, the values of the input variable of that name.
\<close>

theorem fill_all_idempotent:
  assumes "remap_vegetation G InputDataset InputVegetation OutputVegetation True Config
             = Inr OutDataset"
    and "\<forall>i<n0 InputVegetation. \<forall>j<n1 InputVegetation. \<forall>k<n2 InputVegetation.
           \<not> le0 (el3 InputVegetation i j k)"
    and "Variable \<in> set (cfg_per_cell Config @ cfg_per_tile Config)"
  shows "\<exists>Var OutData.
      InputDataset Variable = Some Var \<and> data_vars OutDataset Variable = Some OutData
    \<and> shape3 OutData = shape3 Var
    \<and> (\<forall>i<n0 Var. \<forall>j<n1 Var. \<forall>k<n2 Var. el3 OutData i j k = el3 Var i j k)"
proof -
  let ?IV = InputVegetation and ?OV = OutputVegetation
  let ?vl = "cfg_per_cell Config @ cfg_per_tile Config"
  from assms(1) obtain ds1 F E ds2 ds3 msk m where
    al: "add_land_fractions G (setup_output_dataset ?OV InputDataset ?vl) = Inr ds1"
    and fe: "tiles_to_fill_and_empty True ?IV ?OV = Inr (F, E)"
    and pc: "per_cell_loop InputDataset ?IV (n0 ?OV) F E (cfg_per_cell Config) ds1 = Inr ds2"
    and pt: "per_tile_loop InputDataset E (cfg_per_tile Config) ds2 = Inr ds3"
    and ma: "masked_array ?OV (map3 Not F) = Inr msk"
    and rp: "resolve_points InputDataset ?IV (prepare_mapping (n0 ?OV) Config)
               (ndenumerate ?OV msk) (ds3, full2 (n1 ?OV) (n2 ?OV) False)
             = Inr (OutDataset, m)"
    by (rule remap_vegetation_Inr)
  from fe have F: "F = map3 le0 ?IV" and E: "E = map3 (\<lambda>_. False) ?IV"
    by (simp_all add: tiles_to_fill_and_empty_def)
  have sF: "shape3 F = shape3 ?IV"
    by (simp add: F map3_def shape3_def)
  have d3: "dims ds3 = shape3 ?OV"
    using per_tile_loop_dims [OF pt] per_cell_loop_dims [OF pc] add_land_fractions_dims [OF al]
    by (simp add: setup_output_dataset_dims)
  from add_land_fractions_views [OF al] have v1: "views ds1 = {}"
    by simp
  then have "keeps_input InputDataset ?IV ds1"
    by (simp add: keeps_input_def)
  from per_cell_loop_keeps [OF pc F E assms(2) this] v1
  have k2: "keeps_input InputDataset ?IV ds2" "views ds2 = set (cfg_per_cell Config)"
    by simp_all
  from per_tile_loop_keeps [OF pt E k2(1)] k2(2)
  have k3: "keeps_input InputDataset ?IV ds3"
    "views ds3 = set (cfg_per_cell Config) \<union> set (cfg_per_tile Config)"
    by simp_all
  from k3(2) assms(3) have "Variable \<in> views ds3"
    by auto
  with k3(1) obtain Var a where
    Var: "InputDataset Variable = Some Var" "data_vars ds3 Variable = Some a"
      "shape3 a = shape3 Var" "shape3 a = shape3 ?IV" "shape3 a = dims ds3"
      "\<forall>i<n0 Var. \<forall>j<n1 Var. \<forall>k<n2 Var. el3 a i j k = el3 Var i j k"
    unfolding keeps_input_def by blast
  from Var(4,5) d3 have same: "shape3 ?IV = shape3 ?OV"
    by simp
  with sF have "shape3 (map3 Not F) = shape3 ?OV"
    by (simp add: map3_def shape3_def)
  from masked_array_same_shape [OF this] ma have msk: "msk = map3 Not F"
    by simp
  from same have "n0 ?OV = n0 ?IV" "n1 ?OV = n1 ?IV" "n2 ?OV = n2 ?IV"
    by (auto simp: shape3_def)
  with assms(2) have "ndenumerate ?OV msk = []"
    by (intro ndenumerate_empty) (simp add: msk F map3_def)
  with rp have "OutDataset = ds3"
    by simp
  with Var show ?thesis
    by blast
qed

lemmas mismatch_defs =
  mismatch_config_def mismatch_input_def mismatch_output_def mismatch_dataset_def
  empty_dataset_def plain_config_def

theorem fill_all_idempotent_witness:
  "\<exists>OutDataset OutData.
      remap_vegetation (Some (array3 [[[Fin 1, Fin 0]]])) example_dataset
        (array3 [[[Fin (1/2), NaN]]]) (array3 [[[Fin 1, Fin 0]]]) True example_config
        = Inr OutDataset
    \<and> data_vars OutDataset ''t'' = Some OutData
    \<and> shape3 OutData = (1, 1, 2) \<and> el3 OutData 0 0 0 = Fin 0 \<and> el3 OutData 0 0 1 = Fin 7"
proof -
  let ?iv = "array3 [[[Fin (1/2), NaN]]]"
  let ?ov = "array3 [[[Fin 1, Fin 0 :: flt]]]"
  obtain out where run:
    "remap_vegetation (Some ?ov) example_dataset ?iv ?ov True example_config = Inr out"
    by (simp add: notion_defs model_defs Let_def)
  have full: "\<forall>i<n0 ?iv. \<forall>j<n1 ?iv. \<forall>k<n2 ?iv. \<not> le0 (el3 ?iv i j k)"
    by (simp add: model_defs less_Suc_eq)
  have t: "''t'' \<in> set (cfg_per_cell example_config @ cfg_per_tile example_config)"
    by (simp add: example_config_def)
  from fill_all_idempotent [OF run full t] obtain Var a where
    Var: "example_dataset ''t'' = Some Var" and a: "data_vars out ''t'' = Some a"
    and s: "shape3 a = shape3 Var"
    and el: "\<forall>i<n0 Var. \<forall>j<n1 Var. \<forall>k<n2 Var. el3 a i j k = el3 Var i j k"
    by blast
  from Var have Var': "Var = array3 [[[Fin 0, Fin 7]]]"
    by (simp add: example_dataset_def)
  have n: "(0::nat) < n0 Var" "(0::nat) < n1 Var" "(0::nat) < n2 Var" "(1::nat) < n2 Var"
    by (simp_all add: Var' array3_def)
  from el n have "el3 a 0 0 0 = el3 Var 0 0 0" "el3 a 0 0 1 = el3 Var 0 0 1"
    by blast+
  with s have "shape3 a = (1, 1, 2)" "el3 a 0 0 0 = Fin 0" "el3 a 0 0 1 = Fin 7"
    by (simp_all add: Var' array3_def shape3_def)
  with run a show ?thesis
    by blast
qed

subsection \<open>Shapes that do not match\<close>

text \<open>
  C7 says that mismatched shapes are caught by explicit dimension checks before any
  synthesis. The code has no such check: \<open>setup_output_dataset\<close> only unpacks the output
  shape. Here the input fraction grid has shape (2, 1, 1) against (2, 1, 2) for the output
  grid and the variables; numpy broadcasts it silently, the run returns, and both points
  of the first output type are synthesised from the one cell of the input grid.
\<close>

theorem mismatched_shapes_accepted:
  "shape3 mismatch_input = (2, 1, 1) \<and> shape3 mismatch_output = (2, 1, 2)
   \<and> (\<exists>OutDataset OutData.
         remap_vegetation (Some mismatch_output) mismatch_dataset mismatch_input
           mismatch_output False mismatch_config = Inr OutDataset
       \<and> data_vars OutDataset ''t'' = Some OutData
       \<and> el3 OutData 0 0 0 = Fin 6 \<and> el3 OutData 0 0 1 = Fin 8)"
  by (simp add: mismatch_defs notion_defs model_defs Let_def)

text \<open>
  C8 as stated fails: with two input and three output vegetation types the fill policy
  of fill-new-only mode raises a broadcast \<open>ValueError\<close>, and in fill-all mode the mask
  handed to \<open>masked_array\<close> does not fit the output grid.
\<close>

theorem differing_vegetation_axes_fail:
  "remap_vegetation (Some (array3 [[[Fin (1/2)]], [[Fin (1/2)]], [[Fin (1/2)]]]))
     empty_dataset (array3 [[[Fin 0]], [[Fin (1/2)]]])
     (array3 [[[Fin (1/2)]], [[Fin (1/2)]], [[Fin (1/2)]]]) False plain_config
     = Inl ValueError
   \<and> remap_vegetation (Some (array3 [[[Fin (1/2)]], [[Fin (1/2)]], [[Fin (1/2)]]]))
     empty_dataset (array3 [[[Fin 0]], [[Fin (1/2)]]])
     (array3 [[[Fin (1/2)]], [[Fin (1/2)]], [[Fin (1/2)]]]) True plain_config
     = Inl MaskError"
  by (simp add: mismatch_defs notion_defs model_defs Let_def)

subsection \<open>When the remapping returns\<close>

lemma setvar_total:
  assumes "shape3 a = dims ds" "\<forall>n b. data_vars ds n = Some b \<longrightarrow> shape3 b = dims ds"
  shows "\<exists>ds'. setvar ds name a shared = Inr ds' \<and> dims ds' = dims ds
     \<and> data_vars ds' name = Some a
     \<and> (\<forall>n b. data_vars ds' n = Some b \<longrightarrow> shape3 b = dims ds')
     \<and> (\<forall>n. data_vars ds n \<noteq> None \<longrightarrow> data_vars ds' n \<noteq> None)"
  using assms by (auto simp: setvar_def dims_def)

lemma add_land_fractions_total:
  assumes "shape3 NV = dims ds" "\<forall>n b. data_vars ds n = Some b \<longrightarrow> shape3 b = dims ds"
  shows "\<exists>ds'. add_land_fractions (Some NV) ds = Inr ds' \<and> dims ds' = dims ds
     \<and> (\<forall>n b. data_vars ds' n = Some b \<longrightarrow> shape3 b = dims ds')"
proof -
  from setvar_total [OF assms, of "''FRACTIONS OF SURFACE TYPES''" False] obtain ds1 where
    1: "setvar ds ''FRACTIONS OF SURFACE TYPES'' NV False = Inr ds1" "dims ds1 = dims ds"
       "\<forall>n b. data_vars ds1 n = Some b \<longrightarrow> shape3 b = dims ds1"
    by blast
  from assms(1) 1(2) have "shape3 NV = dims ds1"
    by simp
  from setvar_total [OF this 1(3), of "''PREVIOUS YEAR SURF FRACTIONS (TILES)''" False]
  obtain ds2 where
    "setvar ds1 ''PREVIOUS YEAR SURF FRACTIONS (TILES)'' NV False = Inr ds2"
    "dims ds2 = dims ds1" "\<forall>n b. data_vars ds2 n = Some b \<longrightarrow> shape3 b = dims ds2"
    by blast
  with 1 show ?thesis
    by (simp add: add_land_fractions_def)
qed

text \<open>
  Broadcasting along the vegetation axis: an operand with a single vegetation type is
  stretched to the other operand's.
\<close>

lemma zip3_veg_left:
  assumes "n1 b = n1 a" "n2 b = n2 a" "n0 b = n0 a \<or> n0 b = 1"
  shows "\<exists>c. zip3 f a b = Inr c \<and> shape3 c = shape3 a"
  using assms by (auto simp: zip3_def bdim_def shape3_def)

lemma zip3_veg_right:
  assumes "n1 a = n1 b" "n2 a = n2 b" "n0 a = n0 b \<or> n0 a = 1"
  shows "\<exists>c. zip3 f a b = Inr c \<and> shape3 c = shape3 b"
  using assms by (auto simp: zip3_def bdim_def shape3_def)

lemma tiles_total:
  assumes "n1 IV = n1 OV" "n2 IV = n2 OV" "n0 IV = n0 OV \<or> (n0 IV = 1 \<and> \<not> FillAll)"
  shows "\<exists>F E. tiles_to_fill_and_empty FillAll IV OV = Inr (F, E)
     \<and> shape3 F = shape3 OV \<and> shape3 E = shape3 OV"
proof (cases FillAll)
  case True
  with assms show ?thesis
    by (simp add: tiles_to_fill_and_empty_def map3_def shape3_def)
next
  case False
  have "\<exists>c. zip3 (\<and>) (map3 le0 IV) (map3 gt0 OV) = Inr c \<and> shape3 c = shape3 (map3 gt0 OV)"
    by (rule zip3_veg_right) (use assms in \<open>auto simp: map3_def\<close>)
  with False show ?thesis
    by (auto simp: tiles_to_fill_and_empty_def map3_def shape3_def)
qed

lemma to_numpy_shaped:
  assumes "ID V = Some Var" "shape3 Var = S" "\<forall>b. data_vars ds V = Some b \<longrightarrow> shape3 b = S"
  shows "\<exists>c. to_numpy ID ds V = Inr c \<and> shape3 c = S"
  using assms by (auto simp: to_numpy_def split: option.splits)

lemma per_cell_output_total:
  assumes Var: "to_numpy ID ds V = Inr Var" "shape3 Var = shape3 OV"
    and FE: "shape3 F = shape3 OV" "shape3 E = shape3 OV"
    and n: "0 < n0 OV"
    and g: "n1 IV = n1 OV" "n2 IV = n2 OV" "n0 IV = n0 OV \<or> n0 IV = 1"
  shows "\<exists>a. per_cell_output ID IV (n0 OV) F E ds V = Inr a \<and> shape3 a = shape3 OV"
proof -
  let ?M = "MaskedInputVegetation IV"
  from Var(2) have d: "n0 Var = n0 OV" "n1 Var = n1 OV" "n2 Var = n2 OV"
    by (auto simp: shape3_def)
  have "\<exists>c. zip3 (\<lambda>x fm. (fmul x (fst fm), snd fm)) Var ?M = Inr c \<and> shape3 c = shape3 Var"
    by (rule zip3_veg_left) (use g d in \<open>auto simp: MaskedInputVegetation_def map3_def\<close>)
  then obtain c where
    c: "zip3 (\<lambda>x fm. (fmul x (fst fm), snd fm)) Var ?M = Inr c" "shape3 c = shape3 Var"
    by blast
  define Mean where "Mean = \<lparr>n0 = n0 OV, n1 = m0 (sum_axis0 c), n2 = m1 (sum_axis0 c),
                               el3 = (\<lambda>_. el2 (sum_axis0 c))\<rparr>"
  have Mean: "AreaWeightedMean Var ?M (n0 OV) = Inr Mean"
    using n by (simp add: AreaWeightedMean_def c(1) stack_def Mean_def)
  have sM: "shape3 Mean = shape3 OV"
    using c(2) Var(2) by (auto simp: Mean_def sum_axis0_def shape3_def)
  define OutData where "OutData = Var\<lparr>el3 := (\<lambda>i j k. if el3 F i j k then el3 Mean i j k
                                                      else el3 Var i j k)\<rparr>"
  have aw: "assign_where Var F Mean = Inr OutData"
    using sM FE(1) Var(2) by (simp add: assign_where_def OutData_def)
  have sO: "shape3 OutData = shape3 OV"
    using Var(2) by (simp add: OutData_def shape3_def)
  then obtain a where fw: "fill_where OutData E 0 = Inr a" and sa: "shape3 a = shape3 OV"
    using FE(2) by (simp add: fill_where_def shape3_def)
  from Var(1) Mean aw fw have "per_cell_output ID IV (n0 OV) F E ds V = Inr a"
    by (simp add: per_cell_output_def)
  with sa show ?thesis
    by blast
qed

lemma per_cell_loop_total:
  assumes "\<forall>V \<in> set vars. \<exists>Var. ID V = Some Var \<and> shape3 Var = shape3 OV"
    and "shape3 F = shape3 OV" "shape3 E = shape3 OV" "0 < n0 OV"
    and "n1 IV = n1 OV" "n2 IV = n2 OV" "n0 IV = n0 OV \<or> n0 IV = 1"
    and "dims ds = shape3 OV" "\<forall>n b. data_vars ds n = Some b \<longrightarrow> shape3 b = dims ds"
  shows "\<exists>ds'. per_cell_loop ID IV (n0 OV) F E vars ds = Inr ds' \<and> dims ds' = shape3 OV
     \<and> (\<forall>n b. data_vars ds' n = Some b \<longrightarrow> shape3 b = dims ds')"
  using assms(1,8,9)
proof (induction vars arbitrary: ds)
  case Nil
  then show ?case by simp
next
  case (Cons V vars)
  then obtain Var where Var: "ID V = Some Var" "shape3 Var = shape3 OV"
    by auto
  from Cons.prems(2,3) have "\<forall>b. data_vars ds V = Some b \<longrightarrow> shape3 b = shape3 OV"
    by simp
  from to_numpy_shaped [where ID = ID and V = V, OF Var this] obtain c where
    c: "to_numpy ID ds V = Inr c" "shape3 c = shape3 OV"
    by blast
  from per_cell_output_total [OF c assms(2-7)] obtain a where
    a: "per_cell_output ID IV (n0 OV) F E ds V = Inr a" "shape3 a = shape3 OV"
    by blast
  from a(2) Cons.prems(2) have "shape3 a = dims ds"
    by simp
  from setvar_total [OF this Cons.prems(3), of V True] obtain ds1 where
    ds1: "setvar ds V a True = Inr ds1" "dims ds1 = dims ds"
      "\<forall>n b. data_vars ds1 n = Some b \<longrightarrow> shape3 b = dims ds1"
    by blast
  from Cons.IH [of ds1] Cons.prems(1,2) ds1(2,3) obtain ds' where
    "per_cell_loop ID IV (n0 OV) F E vars ds1 = Inr ds'" "dims ds' = shape3 OV"
    "\<forall>n b. data_vars ds' n = Some b \<longrightarrow> shape3 b = dims ds'"
    by auto
  with a(1) ds1(1) show ?case
    by (simp add: per_cell_variable_def)
qed

lemma per_tile_variable_present:
  "per_tile_variable ID E ds V = Inr ds' \<Longrightarrow>
     data_vars ds' V \<noteq> None \<and> (\<forall>n. data_vars ds n \<noteq> None \<longrightarrow> data_vars ds' n \<noteq> None)"
  by (auto simp: per_tile_variable_def bindE_eq_Inr setvar_Inr)

lemma per_tile_loop_present:
  "per_tile_loop ID E vars ds = Inr ds' \<Longrightarrow>
     (\<forall>V \<in> set vars. data_vars ds' V \<noteq> None)
     \<and> (\<forall>n. data_vars ds n \<noteq> None \<longrightarrow> data_vars ds' n \<noteq> None)"
proof (induction vars arbitrary: ds)
  case Nil
  then show ?case by simp
next
  case (Cons V vars)
  then obtain ds1 where
    one: "per_tile_variable ID E ds V = Inr ds1"
    and rest: "per_tile_loop ID E vars ds1 = Inr ds'"
    by (auto simp: bindE_eq_Inr)
  from per_tile_variable_present [OF one] Cons.IH [OF rest] show ?case
    by auto
qed

lemma per_tile_loop_total:
  assumes "\<forall>V \<in> set vars. \<exists>Var. ID V = Some Var \<and> shape3 Var = shape3 OV"
    and "shape3 E = shape3 OV"
    and "dims ds = shape3 OV" "\<forall>n b. data_vars ds n = Some b \<longrightarrow> shape3 b = dims ds"
  shows "\<exists>ds'. per_tile_loop ID E vars ds = Inr ds' \<and> dims ds' = shape3 OV
     \<and> (\<forall>n b. data_vars ds' n = Some b \<longrightarrow> shape3 b = dims ds')"
  using assms(1,3,4)
proof (induction vars arbitrary: ds)
  case Nil
  then show ?case by simp
next
  case (Cons V vars)
  then obtain Var where Var: "ID V = Some Var" "shape3 Var = shape3 OV"
    by auto
  from Cons.prems(2,3) have "\<forall>b. data_vars ds V = Some b \<longrightarrow> shape3 b = shape3 OV"
    by simp
  from to_numpy_shaped [where ID = ID and V = V, OF Var this] obtain c where
    c: "to_numpy ID ds V = Inr c" "shape3 c = shape3 OV"
    by blast
  then obtain a where a: "per_tile_output ID E ds V = Inr a" "shape3 a = shape3 OV"
    using assms(2) by (simp add: per_tile_output_def fill_where_def shape3_def)
  from a(2) Cons.prems(2) have "shape3 a = dims ds"
    by simp
  from setvar_total [OF this Cons.prems(3), of V True] obtain ds1 where
    ds1: "setvar ds V a True = Inr ds1" "dims ds1 = dims ds"
      "\<forall>n b. data_vars ds1 n = Some b \<longrightarrow> shape3 b = dims ds1"
    by blast
  from Cons.IH [of ds1] Cons.prems(1,2) ds1(2,3) obtain ds' where
    "per_tile_loop ID E vars ds1 = Inr ds'" "dims ds' = shape3 OV"
    "\<forall>n b. data_vars ds' n = Some b \<longrightarrow> shape3 b = dims ds'"
    by auto
  with a(1) ds1(1) show ?case
    by (simp add: per_tile_variable_def)
qed

lemma search_stages_total:
  assumes "set sts \<subseteq> set (stages mc)" "Lat < m0 m" "Lon < m1 m"
    and VM: "VM (int OutVeg) = Some vs"
    and fat: "\<And>m'. m0 m' = m0 m \<Longrightarrow> m1 m' = m1 m \<Longrightarrow> \<exists>A. find_active_tiles m' IV vs = Inr A"
    and "sts \<noteq> [] \<or> found \<noteq> None"
  shows "\<exists>r. search_stages sts IV VM (OutVeg, Lat, Lon) m found = Inr r"
  using assms(1,2,3,5,6)
proof (induction sts arbitrary: m found)
  case Nil
  then show ?case by (auto split: option.splits)
next
  case (Cons s sts)
  obtain Method Param MinPoints where s: "s = (Method, Param, MinPoints)"
    by (cases s)
  with Cons.prems have "(Method, Param, MinPoints) \<in> set (stages mc)" by simp
  from stages_grow [OF this Cons.prems(2,3)] obtain m1' where
    st: "Method m Param (int Lon, int Lat) = Inr m1'" "m0 m1' = m0 m" "m1 m1' = m1 m"
    by auto
  from Cons.prems(4) [OF st(2,3)] obtain A where A: "find_active_tiles m1' IV vs = Inr A"
    by blast
  show ?case
  proof (cases "points_found A \<ge> MinPoints")
    case True
    with st A VM show ?thesis
      by (simp add: s)
  next
    case False
    have "\<exists>r. search_stages sts IV VM (OutVeg, Lat, Lon) m1' (Some (A, points_found A)) = Inr r"
    proof (rule Cons.IH)
      show "set sts \<subseteq> set (stages mc)" using Cons.prems(1) by simp
      show "Lat < m0 m1'" "Lon < m1 m1'" using Cons.prems(2,3) st by simp_all
      show "\<exists>A. find_active_tiles m' IV vs = Inr A" if "m0 m' = m0 m1'" "m1 m' = m1 m1'" for m'
        using Cons.prems(4) [of m'] that st by simp
      show "sts \<noteq> [] \<or> Some (A, points_found A) \<noteq> None" by simp
    qed
    with False st A VM show ?thesis
      by (simp add: s)
  qed
qed

lemma staged_search_total:
  assumes "Lat < nLat" "Lon < nLon" "n1 IV = nLat" "n2 IV = nLon"
    and "vegetation_map mc (int OutVeg) = Some vs"
    and "\<forall>v \<in> set vs. - int (n0 IV) \<le> v \<and> v < int (n0 IV)"
  shows "\<exists>sm A pf. staged_search mc IV nLat nLon (OutVeg, Lat, Lon) = Inr (sm, A, pf)"
proof -
  let ?init = "full2 nLat nLon False"
  have "\<exists>r. search_stages (stages mc) IV (vegetation_map mc) (OutVeg, Lat, Lon) ?init None = Inr r"
  proof (rule search_stages_total [where VM = "vegetation_map mc" and vs = vs and mc = mc])
    show "set (stages mc) \<subseteq> set (stages mc)" by simp
    show "vegetation_map mc (int OutVeg) = Some vs" by (rule assms(5))
    show "Lat < m0 ?init" "Lon < m1 ?init" using assms(1,2) by (simp_all add: full2_def)
    show "\<exists>A. find_active_tiles m' IV vs = Inr A" if "m0 m' = m0 ?init" "m1 m' = m1 ?init" for m'
    proof -
      from that assms(3,4) have "shape2 m' = (n1 IV, n2 IV)"
        by (simp add: shape2_def full2_def)
      from find_active_tiles_in_range [OF this assms(6)] show ?thesis
        by blast
    qed
    show "stages mc \<noteq> [] \<or> None \<noteq> None" by (simp add: stages_def)
  qed
  then show ?thesis
    by (auto simp: staged_search_def)
qed

lemma total_over_tiles_total:
  assumes "to_numpy ID ds V = Inr Var"
    and "\<forall>(v, M) \<in> set zs. - int (n0 Var) \<le> v \<and> v < int (n0 Var) \<and> shape2 M = (n1 Var, n2 Var)"
  shows "\<exists>T'. total_over_tiles ID ds V zs T = Inr T'"
  using assms(2)
proof (induction zs arbitrary: T)
  case Nil
  show ?case by simp
next
  case (Cons z zs)
  obtain v M where z: "z = (v, M)"
    by (cases z)
  with Cons.prems have v: "- int (n0 Var) \<le> v" "v < int (n0 Var)"
    and M: "shape2 M = (n1 Var, n2 Var)"
    by auto
  from py_index_total [OF v] obtain w where "py_index (n0 Var) v = Inr w"
    by blast
  then obtain VarData where p: "plane Var v = Inr VarData" "shape2 VarData = (n1 Var, n2 Var)"
    by (simp add: plane_def shape2_def)
  with M obtain x where x: "masked_sum VarData M = Inr x"
    by (simp add: masked_sum_def)
  from Cons.IH [of "T + x"] Cons.prems obtain T' where
    "total_over_tiles ID ds V zs (T + x) = Inr T'"
    by auto
  with assms(1) p(1) x show ?case
    by (simp add: z)
qed

lemma tile_value_total:
  assumes "to_numpy ID ds V = Inr Var"
    and "\<forall>(v, M) \<in> set (zip vs A). - int (n0 Var) \<le> v \<and> v < int (n0 Var)
           \<and> shape2 M = (n1 Var, n2 Var)"
    and "0 < mp"
  shows "\<exists>x. tile_value ID ds mp vs A pf V = Inr x"
proof (cases "pf < mp")
  case True
  then show ?thesis by (simp add: tile_value_def)
next
  case False
  with assms(3) have "pf \<noteq> 0" by simp
  moreover from total_over_tiles_total [OF assms(1,2)] obtain T where
    "total_over_tiles ID ds V (zip vs A) 0 = Inr T"
    by blast
  ultimately show ?thesis
    using False by (simp add: tile_value_def divide_def)
qed

lemma setpoint_shapes:
  assumes "setpoint ds V idx x = Inr ds'" "data_vars ds n = Some b"
  shows "\<exists>b'. data_vars ds' n = Some b' \<and> shape3 b' = shape3 b"
  using assms
  by (cases idx) (auto simp: setpoint_def bindE_eq_Inr getitem_def shape3_def
                       split: option.splits if_splits)

lemma fill_tiles_shapes:
  assumes "fill_tiles ID mp vs A pf idx vars ds = Inr ds'" "data_vars ds n = Some b"
  shows "\<exists>b'. data_vars ds' n = Some b' \<and> shape3 b' = shape3 b"
  using assms
proof (induction vars arbitrary: ds b)
  case Nil
  then show ?case by simp
next
  case (Cons V vars)
  then obtain x ds1 where
    sp: "setpoint ds V idx x = Inr ds1"
    and rest: "fill_tiles ID mp vs A pf idx vars ds1 = Inr ds'"
    by (auto simp: bindE_eq_Inr fill_tile_def)
  from setpoint_shapes [OF sp Cons.prems(2)] obtain b1 where
    b1: "data_vars ds1 n = Some b1" "shape3 b1 = shape3 b"
    by blast
  from Cons.IH [OF rest b1(1)] b1(2) show ?case
    by simp
qed

lemma resolve_point_shapes:
  assumes "resolve_point ID IV mc (ds, m) idx = Inr (ds', m')" "data_vars ds n = Some b"
  shows "\<exists>b'. data_vars ds' n = Some b' \<and> shape3 b' = shape3 b"
proof -
  from assms(1) obtain vs A pf where
    "fill_tiles ID (minimum_points mc) vs A pf idx (per_tile mc) ds = Inr ds'"
    by (auto simp: resolve_point_def bindE_eq_Inr)
  from fill_tiles_shapes [OF this assms(2)] show ?thesis .
qed

lemma resolve_point_returns:
  assumes rng: "OutVeg < n0 OV" "Lat < n1 OV" "Lon < n2 OV"
    and g: "n1 IV = n1 OV" "n2 IV = n2 OV" "n0 IV \<le> n0 OV"
    and vm: "vegetation_map mc (int OutVeg) = Some vs"
            "\<forall>v \<in> set vs. - int (n0 IV) \<le> v \<and> v < int (n0 IV)"
    and vars: "\<forall>V \<in> set (per_tile mc). \<exists>Var. ID V = Some Var \<and> shape3 Var = shape3 OV"
    and mp: "0 < minimum_points mc"
    and ds: "\<forall>V \<in> set (per_tile mc). \<exists>a. data_vars ds V = Some a \<and> shape3 a = shape3 OV"
  shows "\<exists>ds'. resolve_point ID IV mc (ds, full2 (n1 OV) (n2 OV) False) (OutVeg, Lat, Lon)
           = Inr (ds', full2 (n1 OV) (n2 OV) False)"
proof -
  from staged_search_total [OF rng(2,3) g(1,2) vm] obtain sm A pf where
    s: "staged_search mc IV (n1 OV) (n2 OV) (OutVeg, Lat, Lon) = Inr (sm, A, pf)"
    by blast
  from staged_search_result [OF s rng(2,3)] vm(1) have
    A: "find_active_tiles sm IV vs = Inr A" and sm: "m0 sm = n1 OV" "m1 sm = n2 OV"
    by auto
  from sm g have ssm: "shape2 sm = (n1 IV, n2 IV)"
    by (simp add: shape2_def)
  from find_active_tiles_in_range [OF ssm vm(2)] A have
    len: "length A = length vs"
    and shp: "\<forall>n<length vs. shape2 (A ! n) = (n1 OV, n2 OV)"
    using ssm g by auto
  have zs: "\<forall>(v, M) \<in> set (zip vs A). - int (n0 OV) \<le> v \<and> v < int (n0 OV)
      \<and> shape2 M = (n1 OV, n2 OV)"
  proof (clarify, intro conjI)
    fix v M
    assume "(v, M) \<in> set (zip vs A)"
    then obtain n where n: "n < length vs" "vs ! n = v" "A ! n = M"
      using len by (auto simp: in_set_zip)
    then have "v \<in> set vs"
      by auto
    with vm(2) g(3) show "- int (n0 OV) \<le> v" "v < int (n0 OV)"
      by auto
    from shp n show "shape2 M = (n1 OV, n2 OV)"
      by auto
  qed
  have tv: "\<exists>x. tile_value ID ds0 (minimum_points mc) vs A pf V = Inr x"
    if V: "V \<in> set (per_tile mc)"
      and ds0: "\<forall>W \<in> set (per_tile mc). \<exists>a. data_vars ds0 W = Some a
                  \<and> shape3 a = (n0 OV, n1 OV, n2 OV)"
    for ds0 V
  proof -
    from vars V obtain Var where Var: "ID V = Some Var" "shape3 Var = shape3 OV"
      by blast
    from ds0 V have "\<forall>b. data_vars ds0 V = Some b \<longrightarrow> shape3 b = shape3 OV"
      by (auto simp: shape3_def)
    from to_numpy_shaped [where ID = ID and V = V, OF Var this] obtain c where
      c: "to_numpy ID ds0 V = Inr c" "shape3 c = shape3 OV"
      by blast
    from c(2) have d: "n0 c = n0 OV" "n1 c = n1 OV" "n2 c = n2 OV"
      by (auto simp: shape3_def)
    show ?thesis
      by (rule tile_value_total [OF c(1) _ mp]) (use zs d in auto)
  qed
  from ds have ds': "\<forall>V \<in> set (per_tile mc). \<exists>a. data_vars ds V = Some a
      \<and> shape3 a = (n0 OV, n1 OV, n2 OV)"
    by (simp add: shape3_def)
  from resolve_point_total [OF s vm(1) tv ds' rng] show ?thesis .
qed

lemma resolve_points_returns:
  assumes pts: "\<forall>(OutVeg, Lat, Lon) \<in> set pts. OutVeg < n0 OV \<and> Lat < n1 OV \<and> Lon < n2 OV"
    and g: "n1 IV = n1 OV" "n2 IV = n2 OV" "n0 IV \<le> n0 OV"
    and vm: "\<forall>OutVeg<n0 OV. \<exists>vs. vegetation_map mc (int OutVeg) = Some vs
               \<and> (\<forall>v \<in> set vs. - int (n0 IV) \<le> v \<and> v < int (n0 IV))"
    and vars: "\<forall>V \<in> set (per_tile mc). \<exists>Var. ID V = Some Var \<and> shape3 Var = shape3 OV"
    and mp: "0 < minimum_points mc"
    and ds: "\<forall>V \<in> set (per_tile mc). \<exists>a. data_vars ds V = Some a \<and> shape3 a = shape3 OV"
  shows "\<exists>r. resolve_points ID IV mc pts (ds, full2 (n1 OV) (n2 OV) False) = Inr r"
  using pts ds
proof (induction pts arbitrary: ds)
  case Nil
  show ?case by simp
next
  case (Cons p pts)
  obtain OutVeg Lat Lon where p: "p = (OutVeg, Lat, Lon)"
    by (cases p)
  with Cons.prems(1) have rng: "OutVeg < n0 OV" "Lat < n1 OV" "Lon < n2 OV"
    by auto
  with vm obtain vs where vs: "vegetation_map mc (int OutVeg) = Some vs"
    "\<forall>v \<in> set vs. - int (n0 IV) \<le> v \<and> v < int (n0 IV)"
    by blast
  from resolve_point_returns [OF rng g vs vars mp Cons.prems(2)] obtain ds1 where
    one: "resolve_point ID IV mc (ds, full2 (n1 OV) (n2 OV) False) (OutVeg, Lat, Lon)
           = Inr (ds1, full2 (n1 OV) (n2 OV) False)"
    by blast
  have "\<forall>V \<in> set (per_tile mc). \<exists>a. data_vars ds1 V = Some a \<and> shape3 a = shape3 OV"
  proof
    fix V
    assume "V \<in> set (per_tile mc)"
    with Cons.prems(2) obtain a where "data_vars ds V = Some a" "shape3 a = shape3 OV"
      by blast
    with resolve_point_shapes [OF one] show "\<exists>a. data_vars ds1 V = Some a \<and> shape3 a = shape3 OV"
      by fastforce
  qed
  with Cons.IH [of ds1] Cons.prems(1) obtain r where
    "resolve_points ID IV mc pts (ds1, full2 (n1 OV) (n2 OV) False) = Inr r"
    by auto
  with one show ?case
    by (simp add: p)
qed

text \<open>
  Conversely, on a grid with at least one cell, a run that returns has vegetation axes
  of one length, or a single input vegetation type in fill-new-only mode (in fill-all
  mode, as soon as the configuration lists a variable).
\<close>

lemma per_cell_loop_pass:
  "per_cell_loop ID IV n F E vars ds = Inr ds' \<Longrightarrow> V \<in> set vars \<Longrightarrow>
     \<exists>ds0 a. per_cell_output ID IV n F E ds0 V = Inr a \<and> shape3 a = dims ds"
proof (induction vars arbitrary: ds)
  case Nil
  then show ?case by simp
next
  case (Cons W vars)
  then obtain a ds1 where
    one: "per_cell_output ID IV n F E ds W = Inr a" "setvar ds W a True = Inr ds1"
    and rest: "per_cell_loop ID IV n F E vars ds1 = Inr ds'"
    by (auto simp: bindE_eq_Inr per_cell_variable_def)
  from setvar_dims [OF one(2)] have d: "dims ds1 = dims ds" "shape3 a = dims ds"
    by simp_all
  show ?case
  proof (cases "V = W")
    case True
    with one d show ?thesis by auto
  next
    case False
    with Cons.prems have "V \<in> set vars" by simp
    from Cons.IH [OF rest this] d show ?thesis by simp
  qed
qed

lemma per_tile_loop_pass:
  "per_tile_loop ID E vars ds = Inr ds' \<Longrightarrow> V \<in> set vars \<Longrightarrow>
     \<exists>ds0 a. per_tile_output ID E ds0 V = Inr a \<and> shape3 a = dims ds"
proof (induction vars arbitrary: ds)
  case Nil
  then show ?case by simp
next
  case (Cons W vars)
  then obtain a ds1 where
    one: "per_tile_output ID E ds W = Inr a" "setvar ds W a True = Inr ds1"
    and rest: "per_tile_loop ID E vars ds1 = Inr ds'"
    by (auto simp: bindE_eq_Inr per_tile_variable_def)
  from setvar_dims [OF one(2)] have d: "dims ds1 = dims ds" "shape3 a = dims ds"
    by simp_all
  show ?case
  proof (cases "V = W")
    case True
    with one d show ?thesis by auto
  next
    case False
    with Cons.prems have "V \<in> set vars" by simp
    from Cons.IH [OF rest this] d show ?thesis by simp
  qed
qed

lemma returning_run_broadcasts:
  assumes run: "remap_vegetation G ID IV OV FillAll Config = Inr out"
    and g: "n1 IV = n1 OV" "n2 IV = n2 OV" "0 < n1 OV" "0 < n2 OV"
    and v: "FillAll \<longrightarrow> cfg_per_cell Config @ cfg_per_tile Config \<noteq> []"
  shows "n0 IV = n0 OV \<or> (n0 IV = 1 \<and> \<not> FillAll)"
proof (cases FillAll)
  case True
  from run obtain ds1 F E ds2 ds3 where
    al: "add_land_fractions G (setup_output_dataset OV ID
           (cfg_per_cell Config @ cfg_per_tile Config)) = Inr ds1"
    and fe: "tiles_to_fill_and_empty FillAll IV OV = Inr (F, E)"
    and pc: "per_cell_loop ID IV (n0 OV) F E (cfg_per_cell Config) ds1 = Inr ds2"
    and pt: "per_tile_loop ID E (cfg_per_tile Config) ds2 = Inr ds3"
    by (rule remap_vegetation_Inr)
  from fe True have sE: "shape3 E = shape3 IV"
    by (auto simp: tiles_to_fill_and_empty_def map3_def shape3_def)
  have d1: "dims ds1 = shape3 OV"
    using add_land_fractions_dims [OF al] by (simp add: setup_output_dataset_dims)
  have d2: "dims ds2 = shape3 OV"
    using per_cell_loop_dims [OF pc] d1 by simp
  from v True obtain V where "V \<in> set (cfg_per_cell Config) \<or> V \<in> set (cfg_per_tile Config)"
    by (cases "cfg_per_cell Config"; cases "cfg_per_tile Config") auto
  then have "shape3 IV = shape3 OV"
  proof
    assume "V \<in> set (cfg_per_cell Config)"
    from per_cell_loop_pass [OF pc this] obtain ds0 a where
      a: "per_cell_output ID IV (n0 OV) F E ds0 V = Inr a" "shape3 a = dims ds1"
      by blast
    from per_cell_output_InrD [OF a(1)] a(2) d1 sE show ?thesis
      by auto
  next
    assume "V \<in> set (cfg_per_tile Config)"
    from per_tile_loop_pass [OF pt this] obtain ds0 a where
      a: "per_tile_output ID E ds0 V = Inr a" "shape3 a = dims ds2"
      by blast
    from per_tile_output_InrD [OF a(1)] a(2) d2 sE show ?thesis
      by auto
  qed
  then show ?thesis
    by (simp add: shape3_def)
next
  case False
  from run obtain F E msk where
    fe: "tiles_to_fill_and_empty FillAll IV OV = Inr (F, E)"
    and ma: "masked_array OV (map3 Not F) = Inr msk"
    by (rule remap_vegetation_Inr)
  from fe False g(1,2) obtain p where
    p: "bdim (n0 IV) (n0 OV) = Inr p"
    and sF: "n0 F = p" "n1 F = n1 OV" "n2 F = n2 OV"
    by (auto simp: tiles_to_fill_and_empty_def zip3_def map3_def bindE_eq_Inr)
  show ?thesis
  proof (rule ccontr)
    assume "\<not> (n0 IV = n0 OV \<or> (n0 IV = 1 \<and> \<not> FillAll))"
    with False have ne: "n0 IV \<noteq> n0 OV" "n0 IV \<noteq> 1"
      by auto
    with p have one: "n0 OV = 1" "p = n0 IV"
      by (auto simp: bdim_def split: if_splits)
    from ne one sF g(3,4) have "masked_array OV (map3 Not F) = Inl MaskError"
      by (auto simp: masked_array_def map3_def shape3_def size3_def)
    with ma show False
      by simp
  qed
qed

lemmas single_defs =
  single_config_def single_input_def single_output_def single_dataset_def

text \<open>
  C8, as amended. The remapping returns, with no shape or broadcast failure and no
  out-of-bounds access in the fill policy, the per-cell aggregation or the per-tile
  synthesis, for every pair of input and output fraction grids on one latitude and
  longitude grid whose vegetation axes have the same length, in either mode, or differ
  with a single input vegetation type, in fill-new-only mode (numpy stretches the one
  input type over the output types); provided the output grid has at least one
  vegetation type, the fractions to write (\<open>NewVegetation\<close>) and every configured
  variable have the output grid's shape, every output type is mapped to input indices
  within the input's vegetation axis, and \<open>minimum_points\<close> is positive.
\<close>

theorem remap_vegetation_returns:
  assumes "n1 InputVegetation = n1 OutputVegetation"
    and "n2 InputVegetation = n2 OutputVegetation"
    and "n0 InputVegetation = n0 OutputVegetation \<or> (n0 InputVegetation = 1 \<and> \<not> FillAll)"
    and "shape3 NewVegetation = shape3 OutputVegetation"
    and "0 < n0 OutputVegetation"
    and "\<forall>Variable \<in> set (cfg_per_cell Config @ cfg_per_tile Config).
           \<exists>Var. InputDataset Variable = Some Var \<and> shape3 Var = shape3 OutputVegetation"
    and "\<forall>OutVeg<n0 OutputVegetation. \<exists>VegTypes.
           vegetation_map (prepare_mapping (n0 OutputVegetation) Config) (int OutVeg)
             = Some VegTypes
         \<and> (\<forall>v \<in> set VegTypes. - int (n0 InputVegetation) \<le> v \<and> v < int (n0 InputVegetation))"
    and "0 < minimum_points (prepare_mapping (n0 OutputVegetation) Config)"
  shows "\<exists>OutDataset.
      remap_vegetation (Some NewVegetation) InputDataset InputVegetation OutputVegetation
        FillAll Config = Inr OutDataset"
proof -
  let ?IV = InputVegetation and ?OV = OutputVegetation and ?ID = InputDataset
  let ?mc = "prepare_mapping (n0 ?OV) Config"
  let ?ds0 = "setup_output_dataset ?OV ?ID (cfg_per_cell Config @ cfg_per_tile Config)"
  from assms(3,5) have veg: "n0 ?IV = n0 ?OV \<or> n0 ?IV = 1" and le: "n0 ?IV \<le> n0 ?OV"
    by auto
  have d0: "dims ?ds0 = shape3 ?OV"
    by (rule setup_output_dataset_dims)
  have "shape3 NewVegetation = dims ?ds0"
    using assms(4) d0 by simp
  moreover have "\<forall>n b. data_vars ?ds0 n = Some b \<longrightarrow> shape3 b = dims ?ds0"
    by (simp add: setup_output_dataset_def Let_def)
  ultimately obtain ds1 where
    ds1: "add_land_fractions (Some NewVegetation) ?ds0 = Inr ds1" "dims ds1 = shape3 ?OV"
      "\<forall>n b. data_vars ds1 n = Some b \<longrightarrow> shape3 b = dims ds1"
    using add_land_fractions_total [of NewVegetation ?ds0] d0 by auto
  from tiles_total [OF assms(1-3)] obtain F E where
    fe: "tiles_to_fill_and_empty FillAll ?IV ?OV = Inr (F, E)"
    and sF: "shape3 F = shape3 ?OV" and sE: "shape3 E = shape3 ?OV"
    by blast
  have pcv: "\<forall>V \<in> set (cfg_per_cell Config). \<exists>Var. ?ID V = Some Var \<and> shape3 Var = shape3 ?OV"
    and ptv: "\<forall>V \<in> set (cfg_per_tile Config). \<exists>Var. ?ID V = Some Var \<and> shape3 Var = shape3 ?OV"
    using assms(6) by auto
  from per_cell_loop_total [OF pcv sF sE assms(5,1,2) veg ds1(2,3)] obtain ds2 where
    ds2: "per_cell_loop ?ID ?IV (n0 ?OV) F E (cfg_per_cell Config) ds1 = Inr ds2"
      "dims ds2 = shape3 ?OV" "\<forall>n b. data_vars ds2 n = Some b \<longrightarrow> shape3 b = dims ds2"
    by blast
  from per_tile_loop_total [OF ptv sE ds2(2,3)] obtain ds3 where
    ds3: "per_tile_loop ?ID E (cfg_per_tile Config) ds2 = Inr ds3"
      "dims ds3 = shape3 ?OV" "\<forall>n b. data_vars ds3 n = Some b \<longrightarrow> shape3 b = dims ds3"
    by blast
  have inv: "\<forall>V \<in> set (per_tile ?mc). \<exists>a. data_vars ds3 V = Some a \<and> shape3 a = shape3 ?OV"
    using per_tile_loop_present [OF ds3(1)] ds3(2,3) by fastforce
  have "shape3 (map3 Not F) = shape3 ?OV"
    using sF by (simp add: map3_def shape3_def)
  from masked_array_same_shape [OF this] have
    ma: "masked_array ?OV (map3 Not F) = Inr (map3 Not F)" .
  have pts: "\<forall>(OutVeg, Lat, Lon) \<in> set (ndenumerate ?OV (map3 Not F)).
      OutVeg < n0 ?OV \<and> Lat < n1 ?OV \<and> Lon < n2 ?OV"
    by (auto simp: ndenumerate_set)
  have vars: "\<forall>V \<in> set (per_tile ?mc). \<exists>Var. ?ID V = Some Var \<and> shape3 Var = shape3 ?OV"
    using ptv by simp
  from resolve_points_returns [OF pts assms(1,2) le assms(7) vars assms(8) inv] obtain r where
    "resolve_points ?ID ?IV ?mc (ndenumerate ?OV (map3 Not F))
       (ds3, full2 (n1 ?OV) (n2 ?OV) False) = Inr r"
    by blast
  with ds1(1) fe ds2(1) ds3(1) ma show ?thesis
    by (cases r) (simp add: remap_vegetation_def Let_def)
qed

theorem remap_vegetation_returns_witness:
  "shape3 single_input = (1, 1, 2) \<and> shape3 single_output = (2, 1, 2)
   \<and> (\<exists>OutDataset.
         remap_vegetation (Some single_output) single_dataset single_input single_output False
           single_config = Inr OutDataset)
   \<and> shape3 pooled_input = (2, 1, 3) \<and> shape3 pooled_output = (2, 1, 3)
   \<and> (\<exists>OutDataset.
         remap_vegetation (Some pooled_output) pooled_dataset pooled_input pooled_output True
           pooled_config = Inr OutDataset)"
proof -
  have shp: "shape3 single_input = (1, 1, 2)" "shape3 single_output = (2, 1, 2)"
    "shape3 pooled_input = (2, 1, 3)" "shape3 pooled_output = (2, 1, 3)"
    by (simp_all add: single_defs notion_defs model_defs)
  then have n: "n0 single_input = 1" "n1 single_input = 1" "n2 single_input = 2"
    "n0 single_output = 2" "n1 single_output = 1" "n2 single_output = 2"
    "n0 pooled_input = 2" "n1 pooled_input = 1" "n2 pooled_input = 3"
    "n0 pooled_output = 2" "n1 pooled_output = 1" "n2 pooled_output = 3"
    by (simp_all add: shape3_def)
  have s: "\<exists>OutDataset.
         remap_vegetation (Some single_output) single_dataset single_input single_output False
           single_config = Inr OutDataset"
  proof (rule remap_vegetation_returns)
    show "n1 single_input = n1 single_output" "n2 single_input = n2 single_output"
      "n0 single_input = n0 single_output \<or> (n0 single_input = 1 \<and> \<not> False)"
      "shape3 single_output = shape3 single_output" "0 < n0 single_output"
      by (simp_all add: n)
    show "\<forall>Variable \<in> set (cfg_per_cell single_config @ cfg_per_tile single_config).
           \<exists>Var. single_dataset Variable = Some Var \<and> shape3 Var = shape3 single_output"
      by (simp add: single_defs model_defs)
    show "\<forall>OutVeg<n0 single_output. \<exists>VegTypes.
           vegetation_map (prepare_mapping (n0 single_output) single_config) (int OutVeg)
             = Some VegTypes
         \<and> (\<forall>v \<in> set VegTypes. - int (n0 single_input) \<le> v \<and> v < int (n0 single_input))"
      unfolding n by (auto simp: single_config_def prepare_mapping_def less_2_cases_iff)
    show "0 < minimum_points (prepare_mapping (n0 single_output) single_config)"
      by (simp add: single_config_def prepare_mapping_def)
  qed
  have p: "\<exists>OutDataset.
         remap_vegetation (Some pooled_output) pooled_dataset pooled_input pooled_output True
           pooled_config = Inr OutDataset"
  proof (rule remap_vegetation_returns)
    show "n1 pooled_input = n1 pooled_output" "n2 pooled_input = n2 pooled_output"
      "n0 pooled_input = n0 pooled_output \<or> (n0 pooled_input = 1 \<and> \<not> True)"
      "shape3 pooled_output = shape3 pooled_output" "0 < n0 pooled_output"
      by (simp_all add: n)
    show "\<forall>Variable \<in> set (cfg_per_cell pooled_config @ cfg_per_tile pooled_config).
           \<exists>Var. pooled_dataset Variable = Some Var \<and> shape3 Var = shape3 pooled_output"
      by (simp add: notion_defs model_defs)
    show "\<forall>OutVeg<n0 pooled_output. \<exists>VegTypes.
           vegetation_map (prepare_mapping (n0 pooled_output) pooled_config) (int OutVeg)
             = Some VegTypes
         \<and> (\<forall>v \<in> set VegTypes. - int (n0 pooled_input) \<le> v \<and> v < int (n0 pooled_input))"
      unfolding n by (auto simp: pooled_config_def prepare_mapping_def less_2_cases_iff)
    show "0 < minimum_points (prepare_mapping (n0 pooled_output) pooled_config)"
      by (simp add: pooled_config_def prepare_mapping_def)
  qed
  from s p shp show ?thesis
    by blast
qed

end
